(* ===== verification/Prelude.thy ===== *)
theory Prelude
  imports Main "HOL-Library.Word" "HOL-Library.Sublist"
begin

text \<open>
  Shared vocabulary of the development: byte sequences, the error-or-value results of Go
  functions, Go's errors with their \<open>%w\<close> wrapping chain, and the functions of the package
  \<open>strings\<close> that the repository calls.  A Go \<open>string\<close> is a byte sequence and is a HOL
  \<open>string\<close> here (one \<open>char\<close> per byte); binary data (\<open>[]byte\<close> holding DER, a ccache or
  a PAC) is a list of 8-bit words.
\<close>

unbundle bit_operations_syntax

named_theorems result_simps \<open>how results are taken apart\<close>
named_theorems go_strings \<open>facts about the string functions\<close>

section \<open>Bytes, handles, machine integers\<close>

type_synonym byte = "8 word"
type_synonym bytes = "byte list"
type_synonym u16 = "16 word"
type_synonym u32 = "32 word"

text \<open>An object of a library type that the repository passes on and never looks into.\<close>
type_synonym handle = nat

definition byte_of :: "char \<Rightarrow> byte" where
  "byte_of c = word_of_nat (of_char c)"

definition to_int64 :: "int \<Rightarrow> int" where
  "to_int64 x = (x + 2 ^ 63) mod 2 ^ 64 - 2 ^ 63"

lemma to_int64_id [simp]: "- (2 ^ 63) \<le> x \<Longrightarrow> x < 2 ^ 63 \<Longrightarrow> to_int64 x = x"
  by (simp add: to_int64_def)

lemma to_int64_range: "- (2 ^ 63) \<le> to_int64 x \<and> to_int64 x < 2 ^ 63"
proof -
  have "0 \<le> (x + 2 ^ 63) mod 2 ^ 64" and "(x + 2 ^ 63) mod 2 ^ 64 < (2 ^ 64 :: int)"
    by simp_all
  then show ?thesis by (simp add: to_int64_def)
qed

section \<open>Errors\<close>

text \<open>
  The sentinel errors of the package, and the errors built from them.  \<open>Errorf ps\<close> is an error
  made by \<open>errors.New\<close> or \<open>fmt.Errorf\<close>: its pieces are the literal text and the operands, by
  verb.  Only a \<open>%w\<close> operand is unwrapped by \<open>errors.Is\<close>; a \<open>%v\<close> operand is text.
  \<open>Foreign n\<close> is an error of code outside the repository.
\<close>

datatype sentinel =
    ErrTokenInvalid | ErrMalformedSPN | ErrNoCCache | ErrNoAPReq | ErrWrongGrantType
  | ErrMissingSubjectToken | ErrNoTarget | ErrUnknownTokenType | ErrNoServiceKey

datatype goerror =
    Sentinel sentinel
  | Foreign handle
  | Errorf "piece list"
and piece = Lit string | Quoted string | Plain string | Number int | WrapW goerror | TextV goerror

text \<open>\<open>errors.Is\<close>: the error itself or one of the errors it wraps.\<close>

fun errors_Is :: "goerror \<Rightarrow> sentinel \<Rightarrow> bool" where
  "errors_Is (Sentinel s) t = (s = t)"
| "errors_Is (Foreign n) t = False"
| "errors_Is (Errorf []) t = False"
| "errors_Is (Errorf (WrapW e # ps)) t = (errors_Is e t \<or> errors_Is (Errorf ps) t)"
| "errors_Is (Errorf (p # ps)) t = errors_Is (Errorf ps) t"

definition errors_New :: "string \<Rightarrow> goerror" where
  "errors_New s = Errorf [Lit s]"

text \<open>\<open>fmt.Errorf("text: %w", err)\<close>, the commonest form.\<close>

definition wrapf :: "string \<Rightarrow> goerror \<Rightarrow> goerror" where
  "wrapf s e = Errorf [Lit s, WrapW e]"

text \<open>\<open>log.Fatalf("text: %v", err)\<close>, which ends a program.\<close>

definition fatal :: "string \<Rightarrow> goerror \<Rightarrow> goerror" where
  "fatal s e = Errorf [Lit s, TextV e]"

lemma errors_Is_New [simp]: "\<not> errors_Is (errors_New s) t"
  by (simp add: errors_New_def)

lemma errors_Is_wrapf [simp]: "errors_Is (wrapf s e) t = errors_Is e t"
  by (simp add: wrapf_def)

section \<open>Results\<close>

type_synonym 'a result = "goerror + 'a"

text \<open>
  \<open>attempt m f\<close> is Go's \<open>x, err := m; if err != nil { return err }; f(x)\<close>; \<open>on_err h m\<close>
  replaces the error \<open>e\<close> of \<open>m\<close> by \<open>h e\<close> (the \<open>return fmt.Errorf(...)\<close> of the source).
\<close>

definition attempt :: "'e + 'a \<Rightarrow> ('a \<Rightarrow> 'e + 'b) \<Rightarrow> 'e + 'b" where
  "attempt m f = (case m of Inl e \<Rightarrow> Inl e | Inr x \<Rightarrow> f x)"

definition on_err :: "('e \<Rightarrow> 'f) \<Rightarrow> 'e + 'a \<Rightarrow> 'f + 'a" where
  "on_err h m = (case m of Inl e \<Rightarrow> Inl (h e) | Inr x \<Rightarrow> Inr x)"

lemma attempt_Inl [simp]: "attempt (Inl e) f = Inl e"
  by (simp add: attempt_def)

lemma attempt_Inr [simp]: "attempt (Inr x) f = f x"
  by (simp add: attempt_def)

lemma on_err_Inl [simp]: "on_err h (Inl e) = Inl (h e)"
  by (simp add: on_err_def)

lemma on_err_Inr [simp]: "on_err h (Inr x) = Inr x"
  by (simp add: on_err_def)

lemma attempt_eq_Inr [result_simps]: "(attempt m f = Inr y) = (\<exists>x. m = Inr x \<and> f x = Inr y)"
  by (cases m) auto

lemma attempt_eq_Inl [result_simps]:
  "(attempt m f = Inl e) = (m = Inl e \<or> (\<exists>x. m = Inr x \<and> f x = Inl e))"
  by (cases m) auto

lemma on_err_eq_Inr [result_simps]: "(on_err h m = Inr y) = (m = Inr y)"
  by (cases m) auto

lemma on_err_eq_Inl [result_simps]: "(on_err h m = Inl e) = (\<exists>e'. m = Inl e' \<and> e = h e')"
  by (cases m) auto

section \<open>The package strings\<close>

text \<open>
  \<open>cut c s\<close> is \<open>strings.Cut\<close> with a one-byte separator: the parts before and after the first
  \<open>c\<close>, or \<open>None\<close> where Go returns \<open>found = false\<close>.
\<close>

fun cut :: "char \<Rightarrow> string \<Rightarrow> (string \<times> string) option" where
  "cut c [] = None"
| "cut c (x # xs) =
     (if x = c then Some ([], xs) else map_option (\<lambda>(a, b). (x # a, b)) (cut c xs))"

text \<open>\<open>strings.IndexByte\<close>, \<open>None\<close> for \<open>-1\<close>.\<close>

fun index_byte :: "char \<Rightarrow> string \<Rightarrow> nat option" where
  "index_byte c [] = None"
| "index_byte c (x # xs) = (if x = c then Some 0 else map_option Suc (index_byte c xs))"

text \<open>\<open>strings.Split\<close> with a one-byte separator: always at least one part.\<close>

fun split_on :: "char \<Rightarrow> string \<Rightarrow> string list" where
  "split_on c [] = [[]]"
| "split_on c (x # xs) =
     (if x = c then [] # split_on c xs
      else (case split_on c xs of [] \<Rightarrow> [[x]] | p # ps \<Rightarrow> (x # p) # ps))"

fun join_with :: "char \<Rightarrow> string list \<Rightarrow> string" where
  "join_with c [] = []"
| "join_with c [p] = p"
| "join_with c (p # ps) = p @ c # join_with c ps"

text \<open>\<open>strings.FieldsFunc\<close> for a predicate on single-byte runes: the maximal separator-free parts.\<close>

lemma dropWhile_Cons_head: "dropWhile p s = c # cs \<Longrightarrow> \<not> p c"
  by (simp add: dropWhile_eq_Cons_conv)

function fields_func :: "(char \<Rightarrow> bool) \<Rightarrow> string \<Rightarrow> string list" where
  "fields_func p s =
     (let t = dropWhile p s
      in if t = [] then []
         else takeWhile (\<lambda>c. \<not> p c) t # fields_func p (dropWhile (\<lambda>c. \<not> p c) t))"
  by pat_completeness auto
termination
proof (relation "measure (\<lambda>(p, s). length s)", goal_cases)
  case 1
  show ?case by simp
next
  case (2 p s t)
  then obtain c cs where t: "t = c # cs" and "\<not> p c"
    by (metis list.exhaust dropWhile_Cons_head)
  have "length (dropWhile (\<lambda>c. \<not> p c) t) < length t"
    using t \<open>\<not> p c\<close> by (auto simp: length_dropWhile_le less_Suc_eq_le)
  also have "\<dots> \<le> length s"
    using 2 by (simp add: length_dropWhile_le)
  finally show ?case by simp
qed

declare fields_func.simps [simp del]

lemma cut_None_iff [go_strings]: "(cut c s = None) = (c \<notin> set s)"
  by (induction s) auto

lemma cut_append [go_strings]: "c \<notin> set a \<Longrightarrow> cut c (a @ c # b) = Some (a, b)"
  by (induction a) auto

lemma cut_SomeD: "cut c s = Some (a, b) \<Longrightarrow> s = a @ c # b \<and> c \<notin> set a"
  by (induction s arbitrary: a) (auto split: if_splits)

lemma cut_eq_Some_iff [go_strings]:
  "(cut c s = Some (a, b)) = (s = a @ c # b \<and> c \<notin> set a)"
  by (auto dest: cut_SomeD intro: cut_append)

lemma index_byte_None_iff [go_strings]: "(index_byte c s = None) = (c \<notin> set s)"
  by (induction s) auto

lemma index_byte_cut:
  "index_byte c s = Some i \<Longrightarrow> cut c s = Some (take i s, drop (Suc i) s)"
  by (induction s arbitrary: i) (auto split: if_splits)

lemma index_byte_append [go_strings]:
  "c \<notin> set a \<Longrightarrow> index_byte c (a @ c # b) = Some (length a)"
  by (induction a) auto

lemma split_on_nonempty [simp]: "split_on c s \<noteq> []"
  by (cases s) (auto split: list.splits)

lemma split_on_no_sep [go_strings]: "c \<notin> set s \<Longrightarrow> split_on c s = [s]"
  by (induction s) auto

lemma split_on_append [go_strings]:
  "c \<notin> set a \<Longrightarrow> split_on c (a @ c # b) = a # split_on c b"
  by (induction a) auto

lemma split_on_join [go_strings]:
  "ps \<noteq> [] \<Longrightarrow> (\<And>p. p \<in> set ps \<Longrightarrow> c \<notin> set p) \<Longrightarrow> split_on c (join_with c ps) = ps"
proof (induction c ps rule: join_with.induct)
  case (3 c p q ps)
  then show ?case by (simp add: split_on_append)
qed (auto simp: split_on_no_sep)

lemma join_split_on: "join_with c (split_on c s) = s"
proof (induction s)
  case Nil
  then show ?case by simp
next
  case (Cons x xs)
  obtain p ps where ps: "split_on c xs = p # ps"
    by (cases "split_on c xs") auto
  with Cons show ?case by (cases ps) auto
qed

lemma split_on_parts: "p \<in> set (split_on c s) \<Longrightarrow> c \<notin> set p"
proof (induction s arbitrary: p)
  case (Cons x xs)
  obtain q qs where "split_on c xs = q # qs"
    by (cases "split_on c xs") auto
  with Cons show ?case by (auto split: if_splits)
qed simp

text \<open>The parts \<open>FieldsFunc\<close> returns are non-empty, separator-free, and hold every other byte.\<close>

lemma fields_func_Nil: "dropWhile p s = [] \<Longrightarrow> fields_func p s = []"
  by (simp add: fields_func.simps[of p s])

lemma fields_func_Cons:
  "dropWhile p s = c # cs \<Longrightarrow>
   fields_func p s =
     takeWhile (\<lambda>c. \<not> p c) (c # cs) # fields_func p (dropWhile (\<lambda>c. \<not> p c) (c # cs))"
  by (subst fields_func.simps) (simp only: Let_def if_False list.distinct)

lemma fields_func_parts:
  "f \<in> set (fields_func p s) \<Longrightarrow> f \<noteq> [] \<and> (\<forall>c \<in> set f. \<not> p c)"
proof (induction p s rule: fields_func.induct)
  case (1 p s)
  show ?case
  proof (cases "dropWhile p s")
    case Nil
    with 1(2) show ?thesis by (simp add: fields_func_Nil)
  next
    case (Cons c cs)
    then have c: "\<not> p c" by (rule dropWhile_Cons_head)
    from 1(2) Cons consider "f = takeWhile (\<lambda>c. \<not> p c) (c # cs)"
      | "f \<in> set (fields_func p (dropWhile (\<lambda>c. \<not> p c) (c # cs)))"
      by (auto simp: fields_func_Cons)
    then show ?thesis
    proof cases
      case 1
      with c show ?thesis by (auto dest: set_takeWhileD)
    next
      case 2
      show ?thesis by (rule "1.IH"[OF Cons[symmetric]]) (use 2 in auto)
    qed
  qed
qed

lemma concat_fields_func: "concat (fields_func p s) = filter (\<lambda>c. \<not> p c) s"
proof (induction p s rule: fields_func.induct)
  case (1 p s)
  define t where "t = dropWhile p s"
  have drop: "filter (\<lambda>c. \<not> p c) s = filter (\<lambda>c. \<not> p c) t"
    unfolding t_def by (induction s) auto
  show ?case
  proof (cases "t = []")
    case True
    then show ?thesis using drop by (simp add: fields_func.simps[of p s] t_def[symmetric])
  next
    case False
    have "filter (\<lambda>c. \<not> p c) t =
        takeWhile (\<lambda>c. \<not> p c) t @ filter (\<lambda>c. \<not> p c) (dropWhile (\<lambda>c. \<not> p c) t)"
      by (induction t) auto
    with False drop 1[OF t_def] show ?thesis
      by (simp add: fields_func.simps[of p s] t_def[symmetric] Let_def)
  qed
qed

lemma in_set_map_filter: "x \<in> set (List.map_filter f ys) \<longleftrightarrow> (\<exists>y \<in> set ys. f y = Some x)"
  by (force simp: List.map_filter_def)

end
