(* ===== verification/Principal.thy ===== *)
theory Principal
  imports Prelude
begin

text \<open>
  Service principal names (\<open>src/principal.go\<close>): the struct, its printer and its parser, and the
  exact set of strings the parser accepts.
\<close>

record ServicePrincipal =
  Service :: string
  Host :: string
  Realm :: string

definition SPN_Empty :: "ServicePrincipal \<Rightarrow> bool" where
  "SPN_Empty p = (Service p = [] \<and> Host p = [])"

definition SPN_String :: "ServicePrincipal \<Rightarrow> string" where
  "SPN_String p =
     (if Realm p = [] then Service p @ ''/'' @ Host p
      else Service p @ ''/'' @ Host p @ ''@'' @ Realm p)"

text \<open>The text of the sentinel.\<close>

definition principal_sentinels :: "(sentinel \<times> string) list" where
  "principal_sentinels = [(ErrMalformedSPN, ''kerbexchange: malformed service principal name'')]"

definition malformedSPN :: "string \<Rightarrow> goerror" where
  "malformedSPN s = Errorf [WrapW (Sentinel ErrMalformedSPN), Lit '': '', Quoted s]"

definition ParseServicePrincipal :: "string \<Rightarrow> ServicePrincipal result" where
  "ParseServicePrincipal s =
     (let (body, realm) =
        (case index_byte (CHR ''@'') s of
           None \<Rightarrow> (s, [])
         | Some at \<Rightarrow> (take at s, drop (at + 1) s))
      in case cut (CHR ''/'') body of
           None \<Rightarrow> Inl (malformedSPN s)
         | Some (service, host) \<Rightarrow>
             if service = [] \<or> host = [] \<or> CHR ''/'' \<in> set host then Inl (malformedSPN s)
             else Inr \<lparr>Service = service, Host = host, Realm = realm\<rparr>)"

text \<open>What a parsed principal looks like: both components non-empty and free of separators.\<close>

definition wf_component :: "string \<Rightarrow> bool" where
  "wf_component s = (s \<noteq> [] \<and> CHR ''/'' \<notin> set s \<and> CHR ''@'' \<notin> set s)"

definition wf_spn :: "ServicePrincipal \<Rightarrow> bool" where
  "wf_spn p = (wf_component (Service p) \<and> wf_component (Host p))"

section \<open>Printing and parsing\<close>

lemma parse_body:
  assumes "wf_component a" "wf_component b"
  shows "cut (CHR ''/'') (a @ CHR ''/'' # b) = Some (a, b)"
  using assms by (simp add: cut_append wf_component_def)

lemma parse_no_realm:
  assumes "wf_component a" "wf_component b"
  shows "ParseServicePrincipal (a @ CHR ''/'' # b) = Inr \<lparr>Service = a, Host = b, Realm = []\<rparr>"
proof -
  have "index_byte (CHR ''@'') (a @ CHR ''/'' # b) = None"
    using assms by (simp add: index_byte_None_iff wf_component_def)
  with assms show ?thesis
    by (simp add: ParseServicePrincipal_def parse_body wf_component_def[of b])
      (simp add: wf_component_def)
qed

lemma parse_with_realm:
  assumes "wf_component a" "wf_component b"
  shows "ParseServicePrincipal (a @ CHR ''/'' # b @ CHR ''@'' # r)
    = Inr \<lparr>Service = a, Host = b, Realm = r\<rparr>"
proof -
  have "CHR ''@'' \<notin> set (a @ CHR ''/'' # b)"
    using assms by (simp add: wf_component_def)
  then have "index_byte (CHR ''@'') ((a @ CHR ''/'' # b) @ CHR ''@'' # r)
      = Some (length (a @ CHR ''/'' # b))"
    by (rule index_byte_append)
  with assms show ?thesis
    by (simp add: ParseServicePrincipal_def parse_body wf_component_def[of b])
      (simp add: wf_component_def)
qed

lemma parse_inv:
  assumes "ParseServicePrincipal s = Inr p"
  shows "wf_spn p \<and> (s = SPN_String p \<or> Realm p = [] \<and> s = SPN_String p @ ''@'')"
proof (cases "index_byte (CHR ''@'') s")
  case None
  then have "CHR ''@'' \<notin> set s" by (simp add: index_byte_None_iff)
  with assms None show ?thesis
    by (auto simp: ParseServicePrincipal_def wf_spn_def wf_component_def SPN_String_def
        cut_eq_Some_iff split: option.splits if_splits)
next
  case (Some i)
  then have "cut (CHR ''@'') s = Some (take i s, drop (Suc i) s)"
    by (rule index_byte_cut)
  then have s: "s = take i s @ CHR ''@'' # drop (Suc i) s" and i: "CHR ''@'' \<notin> set (take i s)"
    by (auto dest: cut_SomeD)
  obtain b r where b: "b = take i s" and r: "r = drop (Suc i) s" by blast
  from assms Some b r obtain a h where
      bod: "b = a @ CHR ''/'' # h" and "a \<noteq> []" "h \<noteq> []" "CHR ''/'' \<notin> set a" "CHR ''/'' \<notin> set h"
      and p: "p = \<lparr>Service = a, Host = h, Realm = r\<rparr>"
    by (auto simp: ParseServicePrincipal_def cut_eq_Some_iff split: option.splits if_splits)
  moreover have "s = b @ CHR ''@'' # r" using s b r by simp
  moreover have "CHR ''@'' \<notin> set b" using i b by simp
  ultimately show ?thesis
    by (auto simp: wf_spn_def wf_component_def SPN_String_def)
qed

lemma parse_wf: "ParseServicePrincipal s = Inr p \<Longrightarrow> wf_spn p"
  by (blast dest: parse_inv)

lemma parse_String: "wf_spn p \<Longrightarrow> ParseServicePrincipal (SPN_String p) = Inr p"
  by (simp add: SPN_String_def wf_spn_def parse_no_realm parse_with_realm)

lemma parse_String_at:
  "wf_spn p \<Longrightarrow> Realm p = [] \<Longrightarrow> ParseServicePrincipal (SPN_String p @ ''@'') = Inr p"
  by (simp add: SPN_String_def wf_spn_def parse_with_realm)

lemma SPN_String_inj: "wf_spn p \<Longrightarrow> wf_spn q \<Longrightarrow> SPN_String p = SPN_String q \<Longrightarrow> p = q"
  by (metis Inr_inject parse_String)

lemma parse_error: "ParseServicePrincipal s = Inl e \<Longrightarrow> errors_Is e ErrMalformedSPN"
  by (auto simp: ParseServicePrincipal_def malformedSPN_def split: option.splits if_splits prod.splits)

text \<open>
  C21.  \<open>ParseServicePrincipal\<close> accepts exactly the strings \<open>service/host\<close>,
  \<open>service/host@REALM\<close> and \<open>service/host@\<close> with non-empty components free of \<open>/\<close> and
  \<open>@\<close>, and returns the principal that \<open>String\<close> prints as that text (dropping the \<open>@\<close> of
  an empty realm).
\<close>

theorem ParseServicePrincipal_iff:
  "ParseServicePrincipal s = Inr p \<longleftrightarrow>
     wf_spn p \<and> (s = SPN_String p \<or> Realm p = [] \<and> s = SPN_String p @ ''@'')"
  by (auto dest: parse_inv intro: parse_String parse_String_at)

end
