(* ===== verification/GoTime.thy ===== *)
theory GoTime
  imports Prelude
begin

text \<open>
  The parts of Go's package \<open>time\<close> that the repository uses.  A \<open>time.Time\<close> is the number of
  nanoseconds since the zero time (January 1 of the year 1, UTC) and the zone it is shown in; the
  zone never affects a comparison.  The monotonic clock reading is left out: every time that is
  kept (in a ticket, in a credential) goes through \<open>UTC()\<close>, which strips it.  A
  \<open>time.Duration\<close> is a signed 64-bit number of nanoseconds.
\<close>

datatype zone = UTC | Local | FixedZone int

record gotime =
  ns :: int
  zone :: zone

type_synonym duration = int

definition zeroTime :: gotime where
  "zeroTime = \<lparr>ns = 0, zone = UTC\<rparr>"

definition IsZero :: "gotime \<Rightarrow> bool" where
  "IsZero t = (ns t = 0)"

definition Before :: "gotime \<Rightarrow> gotime \<Rightarrow> bool" where
  "Before t u = (ns t < ns u)"

definition After :: "gotime \<Rightarrow> gotime \<Rightarrow> bool" where
  "After t u = (ns u < ns t)"

definition Add :: "gotime \<Rightarrow> duration \<Rightarrow> gotime" where
  "Add t d = t\<lparr>ns := ns t + d\<rparr>"

definition toUTC :: "gotime \<Rightarrow> gotime" where
  "toUTC t = t\<lparr>zone := UTC\<rparr>"

text \<open>\<open>time.Unix(s, 0)\<close>: the seconds since the zero time are a signed 64-bit integer.\<close>

definition Unix :: "int \<Rightarrow> gotime" where
  "Unix s = \<lparr>ns = to_int64 (s + 62135596800) * 10 ^ 9, zone = Local\<rparr>"

text \<open>\<open>t.Sub(u)\<close> saturates at the smallest and largest duration; \<open>time.Until(t)\<close> at the
  instant \<open>now\<close> is \<open>t.Sub(now)\<close>.\<close>

definition minDuration :: duration where "minDuration = - (2 ^ 63)"
definition maxDuration :: duration where "maxDuration = 2 ^ 63 - 1"

definition Sub :: "gotime \<Rightarrow> gotime \<Rightarrow> duration" where
  "Sub t u = max minDuration (min maxDuration (ns t - ns u))"

definition Until :: "gotime \<Rightarrow> gotime \<Rightarrow> duration" where
  "Until now t = Sub t now"

text \<open>Go's integer division truncates towards zero.\<close>

definition quot :: "int \<Rightarrow> int \<Rightarrow> int" where
  "quot a b = sgn a * sgn b * (\<bar>a\<bar> div \<bar>b\<bar>)"

section \<open>Facts\<close>

lemma IsZero_zeroTime [simp]: "IsZero zeroTime"
  by (simp add: IsZero_def zeroTime_def)

lemma toUTC_simps [simp]:
  "ns (toUTC t) = ns t" "zone (toUTC t) = UTC" "toUTC (toUTC t) = toUTC t"
  by (simp_all add: toUTC_def)

lemma time_toUTC [simp]:
  "IsZero (toUTC t) = IsZero t"
  "Before (toUTC t) u = Before t u" "Before t (toUTC u) = Before t u"
  "After (toUTC t) u = After t u" "After t (toUTC u) = After t u"
  by (simp_all add: IsZero_def Before_def After_def)

lemma ns_Add [simp]: "ns (Add t d) = ns t + d"
  by (simp add: Add_def)

lemma Until_range: "minDuration \<le> Until now t \<and> Until now t \<le> maxDuration"
  by (auto simp: Until_def Sub_def minDuration_def maxDuration_def)

lemma Until_exact:
  "- (2 ^ 63) \<le> ns t - ns now \<Longrightarrow> ns t - ns now < 2 ^ 63 \<Longrightarrow> Until now t = ns t - ns now"
  by (simp add: Until_def Sub_def minDuration_def maxDuration_def)

lemma quot_nonneg: "0 \<le> a \<Longrightarrow> 0 < b \<Longrightarrow> quot a b = a div b"
  by (cases "a = 0") (simp_all add: quot_def)

end
