(* ===== verification/Krb5.thy ===== *)
theory Krb5
  imports Principal GoTime
begin

text \<open>
  What lies outside the repository.  \<open>world\<close> is what one call reads from its surroundings: the
  clock, once per place that reads it, and everything else (random numbers, the network, files) as
  an opaque value.  The records below it are the structs of \<open>github.com/hstern/krb5\<close> and
  \<open>github.com/hstern/x\<close> with the fields the repository sets or reads, and \<open>krb5\<close> is that
  library itself: its constants and functions are fields of a parameter, about which nothing is
  assumed here.
\<close>

record world =
  now_get :: gotime      \<comment> \<open>\<open>time.Now()\<close> in \<open>MemoryCache.Get\<close>\<close>
  now_issue :: gotime    \<comment> \<open>\<open>time.Now()\<close> in \<open>Service.Exchange\<close>\<close>
  now_reply :: gotime    \<comment> \<open>\<open>time.Until\<close> in the HTTP handler\<close>
  outside :: handle

record Identity =
  Subject :: string
  Claims :: string
  Expiry :: gotime

record PrincipalName =
  NameType :: int
  NameString :: "string list"

record EncryptionKey =
  KeyType :: int
  KeyValue :: bytes

record EncryptedData =
  Cipher :: bytes

record Ticket =
  TktVNO :: int
  TktRealm :: string
  SName :: PrincipalName
  EncPart :: EncryptedData

record ADEntry =
  ADType :: int
  ADData :: bytes

type_synonym AuthorizationData = "ADEntry list"

text \<open>\<open>messages.TransitedEncoding{}\<close>: only its zero value is ever built.\<close>
datatype TransitedEncoding = NoTransited

record EncTicketPart =
  Flags :: handle
  Key :: EncryptionKey
  CRealm :: string
  CName :: PrincipalName
  Transited :: TransitedEncoding
  AuthTime :: gotime
  StartTime :: gotime
  EndTime :: gotime
  RenewTill :: gotime
  AuthorizationData :: AuthorizationData

text \<open>The structs of the PAC.\<close>

record FileTime =
  LowDateTime :: u32
  HighDateTime :: u32

record RPCSID =
  Revision :: byte
  SubAuthorityCount :: byte
  IdentifierAuthority :: bytes
  SubAuthority :: "u32 list"

record GroupMembership =
  RelativeID :: u32
  Attributes :: u32

record RPCUnicodeString =
  Length :: u16
  MaximumLength :: u16
  Value :: string

record KerbValidationInfo =
  LogOnTime :: FileTime
  LogOffTime :: FileTime
  KickOffTime :: FileTime
  PasswordLastSet :: FileTime
  PasswordCanChange :: FileTime
  PasswordMustChange :: FileTime
  EffectiveName :: RPCUnicodeString
  UserID :: u32
  PrimaryGroupID :: u32
  GroupCount :: u32
  GroupIDs :: "GroupMembership list"
  UserFlags :: u32
  LogonDomainName :: RPCUnicodeString
  LogonDomainID :: RPCSID
  UserAccountControl :: u32
  LastSuccessfulILogon :: FileTime
  LastFailedILogon :: FileTime
  SIDCount :: u32
  ExtraSIDs :: "handle list"
  ResourceGroupCount :: u32
  ResourceGroupIDs :: "GroupMembership list"

record ClientInfo =
  ClientID :: FileTime
  NameLength :: u16
  Name :: string

text \<open>A credential of a credential cache (\<open>credentials.Credential\<close>).\<close>

record CCacheCredential =
  cc_Client :: handle
  cc_Server :: handle
  cc_Key :: EncryptionKey
  cc_AuthTime :: gotime
  cc_StartTime :: gotime
  cc_EndTime :: gotime
  cc_RenewTill :: gotime
  cc_TicketFlags :: handle
  cc_Ticket :: bytes

record krb5 =
  AES256_CTS_HMAC_SHA1_96 :: int
  KRB_NT_PRINCIPAL :: int
  KRB_NT_SRV_HST :: int
  KDC_REP_TICKET :: int
  EncTicketPart_tag :: int
  PVNO :: int
  ADIfRelevant :: int
  ADWin2KPAC :: int
  keytab_Load :: "world \<Rightarrow> string \<Rightarrow> handle result"
  GetEncryptionKey :: "handle \<Rightarrow> PrincipalName \<Rightarrow> string \<Rightarrow> int \<Rightarrow> int \<Rightarrow> (EncryptionKey \<times> int) result"
  ParseSPNString :: "string \<Rightarrow> PrincipalName \<times> string"
  GetEtype :: "int \<Rightarrow> handle result"
  GenerateEncryptionKey :: "world \<Rightarrow> handle \<Rightarrow> EncryptionKey result"
  NewKrbFlags :: handle
  SignAndMarshal :: "KerbValidationInfo \<Rightarrow> ClientInfo \<Rightarrow> EncryptionKey \<Rightarrow> EncryptionKey \<Rightarrow> bytes result"
  Marshal_AuthorizationData :: "AuthorizationData \<Rightarrow> bytes result"
  Marshal_EncTicketPart :: "EncTicketPart \<Rightarrow> bytes result"
  AddASNAppTag :: "bytes \<Rightarrow> int \<Rightarrow> bytes"
  GetEncryptedData :: "world \<Rightarrow> bytes \<Rightarrow> EncryptionKey \<Rightarrow> int \<Rightarrow> int \<Rightarrow> EncryptedData result"
  Ticket_Marshal :: "Ticket \<Rightarrow> bytes result"
  NewPrincipal :: "PrincipalName \<Rightarrow> string \<Rightarrow> handle"
  NewV4CCache :: handle
  SetDefaultPrincipal :: "handle \<Rightarrow> handle \<Rightarrow> handle"
  AddCredential :: "handle \<Rightarrow> CCacheCredential \<Rightarrow> handle"
  CCache_Marshal :: "handle \<Rightarrow> bytes result"
  NewAuthenticator :: "world \<Rightarrow> string \<Rightarrow> PrincipalName \<Rightarrow> handle result"
  NewAPReq :: "world \<Rightarrow> Ticket \<Rightarrow> EncryptionKey \<Rightarrow> handle \<Rightarrow> handle result"
  APReq_Marshal :: "handle \<Rightarrow> bytes result"
  GetFileTime :: "gotime \<Rightarrow> FileTime"

text \<open>
  A transparent instance of the library, on which the model can be evaluated: a keytab with one
  key per principal whose first component is known, a cipher that puts the key value before the
  plain text, and encodings that keep only the authorization data.
\<close>

definition sample_key :: "string \<Rightarrow> EncryptionKey" where
  "sample_key s = \<lparr>KeyType = 18, KeyValue = map byte_of s\<rparr>"

fun sample_bytes :: "bytes \<Rightarrow> bytes" where
  "sample_bytes [] = [0]"
| "sample_bytes (b # bs) = 1 # b # sample_bytes bs"

fun sample_authdata :: "AuthorizationData \<Rightarrow> bytes" where
  "sample_authdata [] = [0]"
| "sample_authdata (e # es) =
     (if ADType e < 0 then 2 else 1) # sample_bytes (replicate (nat \<bar>ADType e\<bar>) 0) @ sample_bytes (ADData e)
       @ sample_authdata es"

definition sample_krb5 :: krb5 where
  "sample_krb5 =
     \<lparr>AES256_CTS_HMAC_SHA1_96 = 18, KRB_NT_PRINCIPAL = 1, KRB_NT_SRV_HST = 3, KDC_REP_TICKET = 2,
      EncTicketPart_tag = 3, PVNO = 5, ADIfRelevant = 1, ADWin2KPAC = 128,
      keytab_Load = (\<lambda>w path. if path = [] then Inl (Foreign 1) else Inr 7),
      GetEncryptionKey = (\<lambda>kt pn realm kvno etype.
        if etype = 18 \<and> NameString pn \<noteq> [] \<and> hd (NameString pn) \<in> {''HTTP'', ''krbtgt''}
        then Inr (sample_key (hd (NameString pn)), 2) else Inl (Foreign 2)),
      ParseSPNString = (\<lambda>s. (\<lparr>NameType = 1, NameString = split_on (CHR ''/'') s\<rparr>, [])),
      GetEtype = (\<lambda>t. if t = 18 then Inr 18 else Inl (Foreign 3)),
      GenerateEncryptionKey = (\<lambda>w et. Inr \<lparr>KeyType = int et, KeyValue = [word_of_nat (outside w)]\<rparr>),
      NewKrbFlags = 0,
      SignAndMarshal = (\<lambda>kvi ci sk kk. Inr (map (\<lambda>g. ucast (RelativeID g)) (GroupIDs kvi))),
      Marshal_AuthorizationData = (\<lambda>ad. Inr (sample_authdata ad)),
      Marshal_EncTicketPart = (\<lambda>etp. Inr (sample_authdata (AuthorizationData etp))),
      AddASNAppTag = (\<lambda>b t. word_of_int (96 + t) # b),
      GetEncryptedData = (\<lambda>w b k u v. Inr \<lparr>Cipher = KeyValue k @ b\<rparr>),
      Ticket_Marshal = (\<lambda>t. Inr (97 # Cipher (EncPart t))),
      NewPrincipal = (\<lambda>pn realm. length (NameString pn)),
      NewV4CCache = 0,
      SetDefaultPrincipal = (\<lambda>c p. c + p),
      AddCredential = (\<lambda>c cred. c + length (cc_Ticket cred)),
      CCache_Marshal = (\<lambda>c. Inr [5, 4, word_of_nat c]),
      NewAuthenticator = (\<lambda>w realm pn. Inr (outside w)),
      NewAPReq = (\<lambda>w t k a. Inr (length (Cipher (EncPart t)))),
      APReq_Marshal = (\<lambda>r. Inr (replicate r 110)),
      GetFileTime = (\<lambda>t. \<lparr>LowDateTime = word_of_int (ns t), HighDateTime = 0\<rparr>)\<rparr>"

end
