(* ===== verification/KeySource.thy ===== *)
theory KeySource
  imports Krb5
begin

text \<open>
  Long-term keys (\<open>src/keysource.go\<close>): the interface \<open>KeySource\<close> as a record of its two
  methods, and \<open>KeytabSource\<close>, which looks them up in a keytab of the Kerberos library.
\<close>

definition keysource_sentinels :: "(sentinel \<times> string) list" where
  "keysource_sentinels = [(ErrNoServiceKey, ''kerbexchange: no service key for principal'')]"

record KeySource =
  ServiceKey :: "ServicePrincipal \<Rightarrow> int \<Rightarrow> (EncryptionKey \<times> int) result"
  KDCSigningKey :: "int \<Rightarrow> (EncryptionKey \<times> int) result"

record KeytabSource =
  kt :: handle
  ks_defaultRealm :: string
  kdcPrincipal :: string

definition NewKeytabSource :: "handle \<Rightarrow> string \<Rightarrow> KeytabSource" where
  "NewKeytabSource h realm =
     \<lparr>kt = h, ks_defaultRealm = realm, kdcPrincipal = ''krbtgt/'' @ realm\<rparr>"

definition LoadKeytabSource :: "krb5 \<Rightarrow> world \<Rightarrow> string \<Rightarrow> string \<Rightarrow> KeytabSource result" where
  "LoadKeytabSource K w path realm =
     attempt (on_err (wrapf ''kerbexchange: load keytab: '') (keytab_Load K w path)) (\<lambda>h.
       Inr \<lparr>kt = h, ks_defaultRealm = realm, kdcPrincipal = ''krbtgt/'' @ realm\<rparr>)"

text \<open>\<open>fmt.Errorf("%w: %s: %v", ErrNoServiceKey, who, err)\<close>.\<close>

definition noServiceKey :: "string \<Rightarrow> goerror \<Rightarrow> goerror" where
  "noServiceKey who e =
     Errorf [WrapW (Sentinel ErrNoServiceKey), Lit '': '', Plain who, Lit '': '', TextV e]"

definition KeytabSource_ServiceKey ::
    "krb5 \<Rightarrow> KeytabSource \<Rightarrow> ServicePrincipal \<Rightarrow> int \<Rightarrow> (EncryptionKey \<times> int) result" where
  "KeytabSource_ServiceKey K s spn etype =
     (let realm = (if Realm spn = [] then ks_defaultRealm s else Realm spn);
          pn = \<lparr>NameType = KRB_NT_PRINCIPAL K, NameString = [Service spn, Host spn]\<rparr>
      in on_err (noServiceKey (SPN_String spn)) (GetEncryptionKey K (kt s) pn realm 0 etype))"

definition KeytabSource_KDCSigningKey ::
    "krb5 \<Rightarrow> KeytabSource \<Rightarrow> int \<Rightarrow> (EncryptionKey \<times> int) result" where
  "KeytabSource_KDCSigningKey K s etype =
     (let (pn, realm0) = ParseSPNString K (kdcPrincipal s);
          realm = (if realm0 = [] then ks_defaultRealm s else realm0)
      in on_err (noServiceKey (kdcPrincipal s)) (GetEncryptionKey K (kt s) pn realm 0 etype))"

text \<open>A \<open>*KeytabSource\<close> as a value of the interface.\<close>

definition keytab_keys :: "krb5 \<Rightarrow> KeytabSource \<Rightarrow> KeySource" where
  "keytab_keys K s =
     \<lparr>ServiceKey = KeytabSource_ServiceKey K s, KDCSigningKey = KeytabSource_KDCSigningKey K s\<rparr>"

lemma errors_Is_noServiceKey [simp]: "errors_Is (noServiceKey who e) t = (t = ErrNoServiceKey)"
  by (auto simp: noServiceKey_def)

lemma LoadKeytabSource_Inr:
  "LoadKeytabSource K w path realm = Inr s \<longleftrightarrow> (\<exists>h. keytab_Load K w path = Inr h \<and> s = NewKeytabSource h realm)"
  by (auto simp: LoadKeytabSource_def NewKeytabSource_def result_simps)

section \<open>The interface\<close>

text \<open>What the minter relies on: a failing lookup is reported as \<open>ErrNoServiceKey\<close>.\<close>

locale key_source =
  fixes service_key :: "ServicePrincipal \<Rightarrow> int \<Rightarrow> (EncryptionKey \<times> int) result"
    and kdc_key :: "int \<Rightarrow> (EncryptionKey \<times> int) result"
  assumes service_key_error: "service_key spn et = Inl e \<Longrightarrow> errors_Is e ErrNoServiceKey"
    and kdc_key_error: "kdc_key et = Inl e \<Longrightarrow> errors_Is e ErrNoServiceKey"
begin

lemma service_key_wrapped:
  "on_err (wrapf s) (service_key spn et) = Inl e \<Longrightarrow> errors_Is e ErrNoServiceKey"
  by (auto simp: result_simps service_key_error)

end

interpretation kts: key_source "KeytabSource_ServiceKey K s" "KeytabSource_KDCSigningKey K s"
  by unfold_locales
    (auto simp: KeytabSource_ServiceKey_def KeytabSource_KDCSigningKey_def Let_def result_simps split: prod.splits)

section \<open>Looking up a service key\<close>

text \<open>
  A service key is looked up under the name \<open>service/host\<close> with any key version, in the
  principal's own realm or, when it has none, in the default realm: filling in the default realm
  beforehand changes nothing but the text of the error, and every failure is \<open>ErrNoServiceKey\<close>.
\<close>

lemma ServiceKey_default_realm:
  "(KeytabSource_ServiceKey K s spn et = Inr r) =
     (GetEncryptionKey K (kt s) \<lparr>NameType = KRB_NT_PRINCIPAL K, NameString = [Service spn, Host spn]\<rparr>
        (if Realm spn = [] then ks_defaultRealm s else Realm spn) 0 et = Inr r)
   \<and> (KeytabSource_ServiceKey K s spn et = Inr r) =
     (KeytabSource_ServiceKey K s (if Realm spn = [] then spn\<lparr>Realm := ks_defaultRealm s\<rparr> else spn) et = Inr r)
   \<and> ((\<exists>e. KeytabSource_ServiceKey K s spn et = Inl e \<and> \<not> errors_Is e ErrNoServiceKey) = False)"
  using kts.service_key_error[of K s spn et]
  by (auto simp: KeytabSource_ServiceKey_def Let_def result_simps)

end
