(* ===== verification/GoUnicode.thy ===== *)
theory GoUnicode
  imports Prelude
begin

text \<open>
  UTF-8 and UTF-16 as Go's packages \<open>unicode/utf8\<close> and \<open>unicode/utf16\<close> treat them, and
  \<open>strings.TrimSpace\<close>.  An ill-formed byte decodes to U+FFFD and is one byte wide.
\<close>

section \<open>Runes\<close>

definition RuneError :: nat where "RuneError = 0xFFFD"

definition cont_byte :: "nat \<Rightarrow> bool" where
  "cont_byte b = (0x80 \<le> b \<and> b \<le> 0xBF)"

text \<open>The accepted second bytes of a three- and of a four-byte sequence, by first byte.\<close>

definition accept3 :: "nat \<Rightarrow> nat \<Rightarrow> bool" where
  "accept3 b0 b1 = ((if b0 = 0xE0 then 0xA0 else 0x80) \<le> b1 \<and> b1 \<le> (if b0 = 0xED then 0x9F else 0xBF))"

definition accept4 :: "nat \<Rightarrow> nat \<Rightarrow> bool" where
  "accept4 b0 b1 = ((if b0 = 0xF0 then 0x90 else 0x80) \<le> b1 \<and> b1 \<le> (if b0 = 0xF4 then 0x8F else 0xBF))"

text \<open>\<open>utf8.DecodeRune\<close>: the rune and its width.\<close>

definition DecodeRune :: "nat list \<Rightarrow> nat \<times> nat" where
  "DecodeRune bs =
     (case bs of
        [] \<Rightarrow> (RuneError, 0)
      | b0 # r \<Rightarrow>
          if b0 < 0x80 then (b0, 1)
          else if 0xC2 \<le> b0 \<and> b0 \<le> 0xDF then
            (case r of
               b1 # _ \<Rightarrow> if cont_byte b1 then ((b0 - 0xC0) * 64 + (b1 - 0x80), 2) else (RuneError, 1)
             | _ \<Rightarrow> (RuneError, 1))
          else if 0xE0 \<le> b0 \<and> b0 \<le> 0xEF then
            (case r of
               b1 # b2 # _ \<Rightarrow>
                 if accept3 b0 b1 \<and> cont_byte b2
                 then ((b0 - 0xE0) * 4096 + (b1 - 0x80) * 64 + (b2 - 0x80), 3) else (RuneError, 1)
             | _ \<Rightarrow> (RuneError, 1))
          else if 0xF0 \<le> b0 \<and> b0 \<le> 0xF4 then
            (case r of
               b1 # b2 # b3 # _ \<Rightarrow>
                 if accept4 b0 b1 \<and> cont_byte b2 \<and> cont_byte b3
                 then ((b0 - 0xF0) * 262144 + (b1 - 0x80) * 4096 + (b2 - 0x80) * 64 + (b3 - 0x80), 4)
                 else (RuneError, 1)
             | _ \<Rightarrow> (RuneError, 1))
          else (RuneError, 1))"

lemma DecodeRune_width: "bs \<noteq> [] \<Longrightarrow> 1 \<le> snd (DecodeRune bs)"
  by (auto simp: DecodeRune_def split: list.splits)

text \<open>\<open>[]rune(s)\<close>.\<close>

function runes :: "nat list \<Rightarrow> nat list" where
  "runes bs = (if bs = [] then [] else fst (DecodeRune bs) # runes (drop (snd (DecodeRune bs)) bs))"
  by pat_completeness auto
termination
proof (relation "measure length", goal_cases)
  case (2 bs)
  then show ?case using DecodeRune_width[of bs] by (cases bs) auto
qed simp

declare runes.simps [simp del]

definition runes_of :: "string \<Rightarrow> nat list" where
  "runes_of s = runes (map of_char s)"

text \<open>\<open>utf8.AppendRune\<close>: surrogates and values beyond U+10FFFF become U+FFFD.\<close>

definition EncodeRune :: "nat \<Rightarrow> nat list" where
  "EncodeRune r0 =
     (let r = (if 0xD800 \<le> r0 \<and> r0 \<le> 0xDFFF \<or> 0x10FFFF < r0 then RuneError else r0)
      in if r < 0x80 then [r]
         else if r < 0x800 then [0xC0 + r div 64, 0x80 + r mod 64]
         else if r < 0x10000 then [0xE0 + r div 4096, 0x80 + r div 64 mod 64, 0x80 + r mod 64]
         else [0xF0 + r div 262144, 0x80 + r div 4096 mod 64, 0x80 + r div 64 mod 64, 0x80 + r mod 64])"

text \<open>\<open>utf16.Encode\<close>.\<close>

fun utf16_Encode :: "nat list \<Rightarrow> nat list" where
  "utf16_Encode [] = []"
| "utf16_Encode (v # vs) =
     (if v < 0xD800 \<or> 0xE000 \<le> v \<and> v < 0x10000 then [v]
      else if 0x10000 \<le> v \<and> v \<le> 0x10FFFF
      then [0xD800 + (v - 0x10000) div 1024, 0xDC00 + (v - 0x10000) mod 1024]
      else [RuneError]) @ utf16_Encode vs"

definition utf16_len :: "string \<Rightarrow> nat" where
  "utf16_len s = length (utf16_Encode (runes_of s))"

section \<open>White space\<close>

text \<open>The UTF-8 encodings of the runes of \<open>unicode.IsSpace\<close>.\<close>

definition space_encodings :: "string list" where
  "space_encodings = map (map char_of)
     ([[0x09], [0x0A], [0x0B], [0x0C], [0x0D], [0x20], [0xC2, 0x85], [0xC2, 0xA0],
       [0xE1, 0x9A, 0x80], [0xE2, 0x80, 0xA8], [0xE2, 0x80, 0xA9], [0xE2, 0x80, 0xAF],
       [0xE2, 0x81, 0x9F], [0xE3, 0x80, 0x80]]
      @ map (\<lambda>i. [0xE2, 0x80, 0x80 + i]) [0..<11] :: nat list list)"

text \<open>
  \<open>strip es s\<close> removes encodings of \<open>es\<close> from the front of \<open>s\<close> for as long as one is there.
  UTF-8 is self-synchronising, so decoding from the end finds a space rune exactly where its
  encoding is a suffix, and trimming on the right is stripping the reversed string.
\<close>

function strip :: "string list \<Rightarrow> string \<Rightarrow> string" where
  "strip es s =
     (case find (\<lambda>e. e \<noteq> [] \<and> prefix e s) es of
        None \<Rightarrow> s
      | Some e \<Rightarrow> strip es (drop (length e) s))"
  by pat_completeness auto
termination
  by (relation "measure (\<lambda>(es, s). length s)") (auto simp: find_Some_iff prefix_def)

declare strip.simps [simp del]

definition TrimSpace :: "string \<Rightarrow> string" where
  "TrimSpace s = rev (strip (map rev space_encodings) (rev (strip space_encodings s)))"

section \<open>Facts\<close>

definition graphic :: "char \<Rightarrow> bool" where
  "graphic c = (0x21 \<le> (of_char c :: nat) \<and> (of_char c :: nat) \<le> 0x7E)"

lemma space_encodings_graphic: "e \<in> set space_encodings \<Longrightarrow> c \<in> set e \<Longrightarrow> \<not> graphic c"
  by (auto simp: space_encodings_def graphic_def)

lemma strip_none:
  "(\<And>e. e \<in> set es \<Longrightarrow> e \<noteq> [] \<Longrightarrow> \<not> prefix e s) \<Longrightarrow> strip es s = s"
  by (subst strip.simps) (auto simp: find_Some_iff split: option.splits)

lemma strip_graphic:
  assumes "\<And>e c. e \<in> set es \<Longrightarrow> c \<in> set e \<Longrightarrow> \<not> graphic c" "s = [] \<or> graphic (hd s)"
  shows "strip es s = s"
proof (rule strip_none)
  fix e assume "e \<in> set es" "e \<noteq> []"
  then show "\<not> prefix e s"
    using assms hd_in_set[of e] by (auto simp: prefix_def)
qed

lemma TrimSpace_graphic:
  assumes "\<And>c. c \<in> set s \<Longrightarrow> graphic c"
  shows "TrimSpace s = s"
proof -
  have "strip space_encodings s = s"
    by (rule strip_graphic) (use assms space_encodings_graphic hd_in_set in blast)+
  moreover have "strip (map rev space_encodings) (rev s) = rev s"
    by (rule strip_graphic)
      (use assms space_encodings_graphic last_in_set in \<open>auto simp: hd_rev\<close>)
  ultimately show ?thesis by (simp add: TrimSpace_def)
qed

lemma DecodeRune_ascii: "b < 0x80 \<Longrightarrow> DecodeRune (b # bs) = (b, 1)"
  by (simp add: DecodeRune_def)

lemma runes_ascii: "(\<And>b. b \<in> set bs \<Longrightarrow> b < 0x80) \<Longrightarrow> runes bs = bs"
  by (induction bs) (simp_all add: runes.simps DecodeRune_ascii)

lemma utf16_Encode_bmp: "(\<And>v. v \<in> set vs \<Longrightarrow> v < 0xD800) \<Longrightarrow> utf16_Encode vs = vs"
  by (induction vs) auto

lemma utf16_len_ascii:
  assumes "\<And>c. c \<in> set s \<Longrightarrow> (of_char c :: nat) < 0x80"
  shows "utf16_len s = length s"
proof -
  have "runes (map of_char s) = map of_char s"
    by (rule runes_ascii) (use assms in auto)
  moreover have "utf16_Encode (map of_char s) = map of_char s"
    by (rule utf16_Encode_bmp) (use assms in force)
  ultimately show ?thesis by (simp add: utf16_len_def runes_of_def)
qed

lemma digits64: "r div 4096 * 4096 + r div 64 mod 64 * 64 + r mod 64 = (r::nat)"
proof -
  have "r div 4096 = r div 64 div 64" by (simp add: div_mult2_eq)
  then show ?thesis
    using div_mult_mod_eq[of r 64] div_mult_mod_eq[of "r div 64" 64] by linarith
qed

lemma digits64':
  "r div 262144 * 262144 + r div 4096 mod 64 * 4096 + r div 64 mod 64 * 64 + r mod 64 = (r::nat)"
proof -
  have "r div 262144 = r div 4096 div 64" by (simp add: div_mult2_eq)
  then show ?thesis
    using digits64[of r] div_mult_mod_eq[of "r div 4096" 64] by linarith
qed

text \<open>Every rune that can be encoded decodes to itself, with its width.\<close>

lemma DecodeRune_EncodeRune:
  assumes "r \<le> 0x10FFFF" "\<not> (0xD800 \<le> r \<and> r \<le> 0xDFFF)"
  shows "DecodeRune (EncodeRune r @ bs) = (r, length (EncodeRune r))"
proof -
  consider "r < 0x80" | "0x80 \<le> r" "r < 0x800" | "0x800 \<le> r" "r < 0x10000" | "0x10000 \<le> r"
    by linarith
  then show ?thesis
  proof cases
    case 1
    with assms show ?thesis by (simp add: EncodeRune_def DecodeRune_def)
  next
    case 2
    then have "2 \<le> r div 64" "r div 64 < 32" by simp_all
    with 2 show ?thesis
      by (simp add: EncodeRune_def DecodeRune_def cont_byte_def)
  next
    case 3
    define a b c where "a = r div 4096" and "b = r div 64 mod 64" and "c = r mod 64"
    have r: "r = a * 4096 + b * 64 + c" and "b < 64" "c < 64" "a < 16"
      using 3 by (simp_all add: a_def b_def c_def digits64)
    moreover have "EncodeRune r = [0xE0 + a, 0x80 + b, 0x80 + c]"
      using 3 assms by (auto simp: EncodeRune_def Let_def a_def b_def c_def)
    moreover have "accept3 (0xE0 + a) (0x80 + b)"
      using 3 assms r \<open>b < 64\<close> \<open>c < 64\<close> by (auto simp: accept3_def)
    ultimately show ?thesis by (simp add: DecodeRune_def cont_byte_def)
  next
    case 4
    define a b c d where "a = r div 262144" and "b = r div 4096 mod 64"
      and "c = r div 64 mod 64" and "d = r mod 64"
    have r: "r = a * 262144 + b * 4096 + c * 64 + d" and "b < 64" "c < 64" "d < 64" "a < 5"
      using 4 assms by (simp_all add: a_def b_def c_def d_def digits64')
    moreover have "EncodeRune r = [0xF0 + a, 0x80 + b, 0x80 + c, 0x80 + d]"
      using 4 assms by (auto simp: EncodeRune_def Let_def a_def b_def c_def d_def)
    moreover have "accept4 (0xF0 + a) (0x80 + b)"
      using 4 assms r \<open>b < 64\<close> \<open>c < 64\<close> \<open>d < 64\<close> by (auto simp: accept4_def)
    ultimately show ?thesis by (simp add: DecodeRune_def cont_byte_def)
  qed
qed

end
