(* ===== verification/GoJson.thy ===== *)
theory GoJson
  imports GoUnicode
begin

text \<open>
  Decoding as the package \<open>encoding/json\<close> does it: the grammar its scanner accepts (including the
  nesting limit), the unquoting of strings, and what \<open>Unmarshal\<close> stores into the Go types the
  repository decodes into.  Input bytes are numbers below 256.  The value parser takes fuel; one
  unit more than twice the number of bytes is enough: more fuel never changes the result
  (\<open>parse_value_fuel\<close>).
\<close>

datatype json =
    JNull
  | JBool bool
  | JNumber "nat list"
  | JString "nat list"
  | JArray "json list"
  | JObject "(nat list \<times> nat list \<times> json) list" \<comment> \<open>key, raw text of the value, value\<close>

section \<open>Scanning\<close>

definition json_ws :: "nat \<Rightarrow> bool" where
  "json_ws b = (b = 0x20 \<or> b = 0x09 \<or> b = 0x0D \<or> b = 0x0A)"

definition skip_ws :: "nat list \<Rightarrow> nat list" where
  "skip_ws = dropWhile json_ws"

definition hex_val :: "nat \<Rightarrow> nat option" where
  "hex_val b =
     (if 0x30 \<le> b \<and> b \<le> 0x39 then Some (b - 0x30)
      else if 0x61 \<le> b \<and> b \<le> 0x66 then Some (b - 0x61 + 10)
      else if 0x41 \<le> b \<and> b \<le> 0x46 then Some (b - 0x41 + 10)
      else None)"

text \<open>The four hexadecimal digits of a \<open>\u\<close> escape, and what follows them.\<close>

definition hex4 :: "nat list \<Rightarrow> (nat \<times> nat list) option" where
  "hex4 s =
     (case s of
        a # b # c # d # r \<Rightarrow>
          (case (hex_val a, hex_val b, hex_val c, hex_val d) of
             (Some a', Some b', Some c', Some d') \<Rightarrow> Some (a' * 4096 + b' * 256 + c' * 16 + d', r)
           | _ \<Rightarrow> None)
      | _ \<Rightarrow> None)"

text \<open>The rest of a surrogate pair: a following \<open>\u\<close> escape with the low half.\<close>

definition low_half :: "nat \<Rightarrow> nat list \<Rightarrow> (nat \<times> nat list) option" where
  "low_half hi s =
     (case s of
        b # u # r \<Rightarrow>
          if b = 0x5C \<and> u = 0x75 then
            (case hex4 r of
               Some (lo, r') \<Rightarrow>
                 if 0xD800 \<le> hi \<and> hi < 0xDC00 \<and> 0xDC00 \<le> lo \<and> lo < 0xE000
                 then Some ((hi - 0xD800) * 1024 + (lo - 0xDC00) + 0x10000, r') else None
             | None \<Rightarrow> None)
          else None
      | _ \<Rightarrow> None)"

definition escape_char :: "nat \<Rightarrow> nat option" where
  "escape_char e =
     (if e = 0x22 \<or> e = 0x5C \<or> e = 0x2F then Some e
      else if e = 0x62 then Some 0x08
      else if e = 0x66 then Some 0x0C
      else if e = 0x6E then Some 0x0A
      else if e = 0x72 then Some 0x0D
      else if e = 0x74 then Some 0x09
      else None)"

definition prepend :: "nat list \<Rightarrow> (nat list \<times> nat list) option \<Rightarrow> (nat list \<times> nat list) option" where
  "prepend x m = map_option (\<lambda>(a, r). (x @ a, r)) m"

lemma hex4_length: "hex4 s = Some (v, r) \<Longrightarrow> length r < length s"
  by (auto simp: hex4_def split: list.splits option.splits)

lemma low_half_length: "low_half h s = Some (v, r) \<Longrightarrow> length r < length s"
  by (auto simp: low_half_def dest: hex4_length split: list.splits option.splits if_splits)

text \<open>
  A string literal after its opening quote: the unquoted text and what follows the closing quote.
\<close>

function scan_string :: "nat list \<Rightarrow> (nat list \<times> nat list) option" where
  "scan_string [] = None"
| "scan_string (b # bs) =
     (if b = 0x22 then Some ([], bs)
      else if b = 0x5C then
        (case bs of
           [] \<Rightarrow> None
         | e # r \<Rightarrow>
             if e = 0x75 then
               (case hex4 r of
                  None \<Rightarrow> None
                | Some (rr, r') \<Rightarrow>
                    if 0xD800 \<le> rr \<and> rr < 0xE000 then
                      (case low_half rr r' of
                         Some (dec, r'') \<Rightarrow> prepend (EncodeRune dec) (scan_string r'')
                       | None \<Rightarrow> prepend (EncodeRune RuneError) (scan_string r'))
                    else prepend (EncodeRune rr) (scan_string r'))
             else
               (case escape_char e of
                  None \<Rightarrow> None
                | Some x \<Rightarrow> prepend [x] (scan_string r)))
      else if b < 0x20 then None
      else prepend (EncodeRune (fst (DecodeRune (b # bs))))
             (scan_string (drop (snd (DecodeRune (b # bs))) (b # bs))))"
  by pat_completeness auto
termination
proof (relation "measure length", goal_cases)
  case (6 b bs)
  show ?case using DecodeRune_width[of "b # bs"] by simp
qed (auto dest!: hex4_length low_half_length)

text \<open>A number literal: the longest the grammar allows, and what follows it.\<close>

definition num_digit :: "nat \<Rightarrow> bool" where
  "num_digit b = (0x30 \<le> b \<and> b \<le> 0x39)"

definition scan_digits :: "nat list \<Rightarrow> (nat list \<times> nat list) option" where
  "scan_digits s = (let ds = takeWhile num_digit s in if ds = [] then None else Some (ds, dropWhile num_digit s))"

definition scan_int :: "nat list \<Rightarrow> (nat list \<times> nat list) option" where
  "scan_int s =
     (case s of
        [] \<Rightarrow> None
      | b # r \<Rightarrow> if b = 0x30 then Some ([b], r) else scan_digits s)"

definition scan_frac :: "nat list \<Rightarrow> (nat list \<times> nat list) option" where
  "scan_frac s =
     (case s of
        b # r \<Rightarrow> if b = 0x2E then prepend [b] (scan_digits r) else Some ([], s)
      | [] \<Rightarrow> Some ([], s))"

definition scan_exp :: "nat list \<Rightarrow> (nat list \<times> nat list) option" where
  "scan_exp s =
     (case s of
        b # r \<Rightarrow>
          if b = 0x65 \<or> b = 0x45 then
            (case r of
               c # r' \<Rightarrow>
                 if c = 0x2B \<or> c = 0x2D then prepend [b, c] (scan_digits r') else prepend [b] (scan_digits r)
             | [] \<Rightarrow> None)
          else Some ([], s)
      | [] \<Rightarrow> Some ([], s))"

definition scan_number :: "nat list \<Rightarrow> (nat list \<times> nat list) option" where
  "scan_number s =
     (let (sign, s1) = (case s of b # r \<Rightarrow> if b = 0x2D then ([b], r) else ([], s) | [] \<Rightarrow> ([], s))
      in case scan_int s1 of
           None \<Rightarrow> None
         | Some (i, s2) \<Rightarrow>
             (case scan_frac s2 of
                None \<Rightarrow> None
              | Some (f, s3) \<Rightarrow>
                  (case scan_exp s3 of
                     None \<Rightarrow> None
                   | Some (e, s4) \<Rightarrow> Some (sign @ i @ f @ e, s4))))"

definition lit_true :: "nat list" where "lit_true = [0x74, 0x72, 0x75, 0x65]"
definition lit_false :: "nat list" where "lit_false = [0x66, 0x61, 0x6C, 0x73, 0x65]"
definition lit_null :: "nat list" where "lit_null = [0x6E, 0x75, 0x6C, 0x6C]"

definition scan_literal :: "nat list \<Rightarrow> (json \<times> nat list) option" where
  "scan_literal s =
     (if take 4 s = lit_true then Some (JBool True, drop 4 s)
      else if take 5 s = lit_false then Some (JBool False, drop 5 s)
      else if take 4 s = lit_null then Some (JNull, drop 4 s)
      else map_option (\<lambda>(n, r). (JNumber n, r)) (scan_number s))"

section \<open>Values\<close>

text \<open>\<open>maxNestingDepth\<close> of the scanner.\<close>

definition maxNestingDepth :: nat where "maxNestingDepth = 10000"

fun parse_value :: "nat \<Rightarrow> nat \<Rightarrow> nat list \<Rightarrow> (json \<times> nat list) option"
and parse_elems :: "nat \<Rightarrow> nat \<Rightarrow> nat list \<Rightarrow> (json list \<times> nat list) option"
and parse_members :: "nat \<Rightarrow> nat \<Rightarrow> nat list \<Rightarrow> ((nat list \<times> nat list \<times> json) list \<times> nat list) option"
where
  "parse_value 0 d s = None"
| "parse_value (Suc n) d s =
     (case s of
        [] \<Rightarrow> None
      | b # r \<Rightarrow>
          if b = 0x7B then
            if d \<ge> maxNestingDepth then None
            else (case skip_ws r of
                    [] \<Rightarrow> None
                  | c # r' \<Rightarrow>
                      if c = 0x7D then Some (JObject [], r')
                      else map_option (\<lambda>(ms, t). (JObject ms, t)) (parse_members n (Suc d) (c # r')))
          else if b = 0x5B then
            if d \<ge> maxNestingDepth then None
            else (case skip_ws r of
                    [] \<Rightarrow> None
                  | c # r' \<Rightarrow>
                      if c = 0x5D then Some (JArray [], r')
                      else map_option (\<lambda>(vs, t). (JArray vs, t)) (parse_elems n (Suc d) (c # r')))
          else if b = 0x22 then map_option (\<lambda>(t, r'). (JString t, r')) (scan_string r)
          else scan_literal s)"
| "parse_elems 0 d s = None"
| "parse_elems (Suc n) d s =
     (case parse_value n d s of
        None \<Rightarrow> None
      | Some (v, r) \<Rightarrow>
          (case skip_ws r of
             [] \<Rightarrow> None
           | c # r' \<Rightarrow>
               if c = 0x2C then map_option (\<lambda>(vs, t). (v # vs, t)) (parse_elems n d (skip_ws r'))
               else if c = 0x5D then Some ([v], r')
               else None))"
| "parse_members 0 d s = None"
| "parse_members (Suc n) d s =
     (case s of
        [] \<Rightarrow> None
      | q # r \<Rightarrow>
          if q \<noteq> 0x22 then None
          else (case scan_string r of
                  None \<Rightarrow> None
                | Some (k, r1) \<Rightarrow>
                    (case skip_ws r1 of
                       [] \<Rightarrow> None
                     | c # r2 \<Rightarrow>
                         if c \<noteq> 0x3A then None
                         else (case parse_value n d (skip_ws r2) of
                                 None \<Rightarrow> None
                               | Some (v, r3) \<Rightarrow>
                                   let raw = take (length (skip_ws r2) - length r3) (skip_ws r2)
                                   in (case skip_ws r3 of
                                         [] \<Rightarrow> None
                                       | e # r4 \<Rightarrow>
                                           if e = 0x2C then
                                             map_option (\<lambda>(ms, t). ((k, raw, v) # ms, t))
                                               (parse_members n d (skip_ws r4))
                                           else if e = 0x7D then Some ([(k, raw, v)], r4)
                                           else None)))))"

definition parse_json :: "nat list \<Rightarrow> json option" where
  "parse_json s =
     (case parse_value (Suc (2 * length s)) 0 (skip_ws s) of
        None \<Rightarrow> None
      | Some (v, r) \<Rightarrow> if skip_ws r = [] then Some v else None)"

section \<open>Unmarshal\<close>

definition bytes_of :: "string \<Rightarrow> nat list" where "bytes_of = map of_char"
definition string_of :: "nat list \<Rightarrow> string" where "string_of = map char_of"

text \<open>Into a \<open>map[string]json.RawMessage\<close>: \<open>null\<close> stores nothing, a repeated key its last value.\<close>

definition Unmarshal_fields :: "string \<Rightarrow> (string \<rightharpoonup> string) option" where
  "Unmarshal_fields s =
     (case parse_json (bytes_of s) of
        Some JNull \<Rightarrow> Some Map.empty
      | Some (JObject ms) \<Rightarrow>
          Some (map_of (rev (map (\<lambda>(k, raw, v). (string_of k, string_of raw)) ms)))
      | _ \<Rightarrow> None)"

text \<open>Into a \<open>[]string\<close>: a \<open>null\<close> element leaves the empty string.\<close>

fun json_strings :: "json list \<Rightarrow> string list option" where
  "json_strings [] = Some []"
| "json_strings (JString t # vs) = map_option (Cons (string_of t)) (json_strings vs)"
| "json_strings (JNull # vs) = map_option (Cons []) (json_strings vs)"
| "json_strings (v # vs) = None"

definition Unmarshal_strings :: "string \<Rightarrow> string list option" where
  "Unmarshal_strings s =
     (case parse_json (bytes_of s) of
        Some JNull \<Rightarrow> Some []
      | Some (JArray vs) \<Rightarrow> json_strings vs
      | _ \<Rightarrow> None)"

definition Unmarshal_string :: "string \<Rightarrow> string option" where
  "Unmarshal_string s =
     (case parse_json (bytes_of s) of
        Some JNull \<Rightarrow> Some []
      | Some (JString t) \<Rightarrow> Some (string_of t)
      | _ \<Rightarrow> None)"

section \<open>The parser consumes input, and has enough fuel\<close>

lemma skip_ws_length: "length (skip_ws s) \<le> length s"
  by (simp add: skip_ws_def length_dropWhile_le)

lemma skip_ws_Cons_length: "skip_ws s = c # r \<Longrightarrow> length r < length s"
  using skip_ws_length[of s] by simp

lemma prepend_Some: "prepend x m = Some (a, r) \<longleftrightarrow> (\<exists>a'. m = Some (a', r) \<and> a = x @ a')"
  by (auto simp: prepend_def)

lemma scan_string_length: "scan_string s = Some (t, r) \<Longrightarrow> length r < length s"
proof (induction "length s" arbitrary: s t rule: less_induct)
  case less
  show ?case
  proof (cases s)
    case (Cons b bs)
    have IH: "scan_string u = Some (t', r) \<Longrightarrow> length u < length s \<Longrightarrow> length r < length u" for u t'
      using less(1) by blast
    have w: "length (drop (snd (DecodeRune (b # bs))) (b # bs)) < length s"
      using DecodeRune_width[of "b # bs"] Cons by simp
    show ?thesis
      using less(2) Cons w
      by (auto simp: prepend_Some split: if_splits list.splits option.splits
          dest!: hex4_length low_half_length)
        (drule IH, simp, simp)+
  qed (use less in simp)
qed

lemma scan_digits_length: "scan_digits s = Some (t, r) \<Longrightarrow> length r \<le> length s"
  by (auto simp: scan_digits_def Let_def length_dropWhile_le split: if_splits)

lemma scan_digits_shorter: "scan_digits s = Some (t, r) \<Longrightarrow> length r < length s"
proof -
  assume a: "scan_digits s = Some (t, r)"
  then have "takeWhile num_digit s \<noteq> []" and r: "r = dropWhile num_digit s"
    by (auto simp: scan_digits_def Let_def split: if_splits)
  moreover have "length s = length (takeWhile num_digit s) + length (dropWhile num_digit s)"
    by (metis length_append takeWhile_dropWhile_id)
  ultimately show ?thesis by (cases "takeWhile num_digit s") simp_all
qed

lemma scan_int_shorter: "scan_int s = Some (t, r) \<Longrightarrow> length r < length s"
  by (auto simp: scan_int_def split: list.splits if_splits dest: scan_digits_shorter)

lemma scan_frac_length: "scan_frac s = Some (t, r) \<Longrightarrow> length r \<le> length s"
  by (auto simp: scan_frac_def prepend_Some split: list.splits if_splits dest!: scan_digits_length)

lemma scan_exp_length: "scan_exp s = Some (t, r) \<Longrightarrow> length r \<le> length s"
  by (auto simp: scan_exp_def prepend_Some split: list.splits if_splits dest!: scan_digits_length)

lemma scan_number_shorter: "scan_number s = Some (t, r) \<Longrightarrow> length r < length s"
  by (auto simp: scan_number_def split: list.splits if_splits option.splits prod.splits
      dest!: scan_int_shorter scan_frac_length scan_exp_length)

lemma scan_literal_shorter: "scan_literal s = Some (v, r) \<Longrightarrow> length r < length s"
  by (cases s) (auto simp: scan_literal_def lit_true_def lit_false_def lit_null_def
      split: if_splits dest!: scan_number_shorter)

lemma parse_shorter:
  "parse_value n d s = Some (v, r) \<Longrightarrow> length r < length s"
  "parse_elems n d s = Some (vs, r) \<Longrightarrow> length r < length s"
  "parse_members n d s = Some (ms, r) \<Longrightarrow> length r < length s"
proof (induction n d s and n d s and n d s arbitrary: v r and vs r and ms r
    rule: parse_value_parse_elems_parse_members.induct)
  case (2 n d s)
  then show ?case
    by (fastforce split: list.splits if_splits dest: skip_ws_Cons_length scan_string_length
        scan_literal_shorter)
next
  case (4 n d s)
  then obtain v0 r0 where v: "parse_value n d s = Some (v0, r0)"
    by (auto split: option.splits)
  with 4(3) obtain c r' where c: "skip_ws r0 = c # r'"
    by (auto split: list.splits)
  from 4(1)[OF v] skip_ws_Cons_length[OF c] have short: "length r' < length s" by simp
  show ?case
  proof (cases "c = 0x2C")
    case True
    with 4(3) v c obtain vs' where "parse_elems n d (skip_ws r') = Some (vs', r)" by auto
    from 4(2)[OF v refl c True this] short skip_ws_length[of r'] show ?thesis by simp
  next
    case False
    with 4(3) v c short show ?thesis by (auto split: if_splits)
  qed
next
  case (6 n d s)
  from 6(3) obtain q r0 where s: "s = q # r0" and q: "\<not> q \<noteq> 0x22"
    by (auto split: list.splits if_splits)
  with 6(3) obtain k r1 where k: "scan_string r0 = Some (k, r1)" by (auto split: option.splits)
  with 6(3) s q obtain c r2 where c: "skip_ws r1 = c # r2" and col: "\<not> c \<noteq> 0x3A"
    by (auto split: list.splits if_splits)
  with 6(3) s q k obtain v r3 where v: "parse_value n d (skip_ws r2) = Some (v, r3)"
    by (auto split: option.splits)
  with 6(3) s q k c col obtain e r4 where e: "skip_ws r3 = e # r4"
    by (auto simp: Let_def split: list.splits)
  from 6(1)[OF s q k refl c col v] skip_ws_Cons_length[OF e] skip_ws_length[of r2]
    skip_ws_Cons_length[OF c] scan_string_length[OF k] s
  have short: "length r4 < length s" by simp
  show ?case
  proof (cases "e = 0x2C")
    case True
    with 6(3) s q k c col v e obtain ms' where "parse_members n d (skip_ws r4) = Some (ms', r)"
      by (auto simp: Let_def)
    from 6(2)[OF s q k refl c col v refl refl e True this] short skip_ws_length[of r4] show ?thesis
      by simp
  next
    case False
    with 6(3) s q k c col v e short show ?thesis by (auto simp: Let_def split: if_splits)
  qed
qed auto

lemma parse_fuel_Suc:
  "2 * length s < n \<Longrightarrow> parse_value (Suc n) d s = parse_value n d s"
  "Suc (2 * length s) < n \<Longrightarrow> parse_elems (Suc n) d s = parse_elems n d s"
  "Suc (2 * length s) < n \<Longrightarrow> parse_members (Suc n) d s = parse_members n d s"
proof (induction n d s and n d s and n d s
    rule: parse_value_parse_elems_parse_members.induct)
  case (2 n d s)
  show ?case
  proof (cases s)
    case (Cons b r)
    have m: "skip_ws r = c # r' \<Longrightarrow> Suc (2 * Suc (length r')) < n" for c r'
      using skip_ws_length[of r] 2(3) Cons by simp
    show ?thesis
      unfolding parse_value.simps(2)[of "Suc n" d s] parse_value.simps(2)[of n d s]
      using 2(1)[OF Cons] 2(2)[OF Cons] m
      by (simp add: Cons del: parse_value.simps parse_elems.simps parse_members.simps
          split: list.split)
  qed simp
next
  case (4 n d s)
  have v: "parse_value (Suc n) d s = parse_value n d s" using 4(1,3) by simp
  have "parse_elems (Suc n) d (skip_ws r') = parse_elems n d (skip_ws r')"
    if p: "parse_value n d s = Some (u, r)" and c: "skip_ws r = c # r'" and k: "c = 0x2C" for u r c r'
    by (rule 4(2)[OF p refl c k])
      (use 4(3) parse_shorter(1)[OF p] skip_ws_Cons_length[OF c] skip_ws_length[of r'] in simp)
  then show ?case
    unfolding parse_elems.simps(2)[of "Suc n" d s] parse_elems.simps(2)[of n d s] v
    by (auto simp del: parse_value.simps parse_elems.simps parse_members.simps
        split: list.split option.split)
next
  case (6 n d s)
  have v: "parse_value (Suc n) d (skip_ws r2) = parse_value n d (skip_ws r2)"
    if s: "s = q # r" "\<not> q \<noteq> 0x22" and k: "scan_string r = Some (k, r1)"
      and c: "skip_ws r1 = c # r2" "\<not> c \<noteq> 0x3A" for q r k r1 c r2
    by (rule 6(1)[OF s k refl c])
      (use 6(3) s scan_string_length[OF k] skip_ws_Cons_length[OF c(1)] skip_ws_length[of r2] in simp)
  have m: "parse_members (Suc n) d (skip_ws r4) = parse_members n d (skip_ws r4)"
    if s: "s = q # r" "\<not> q \<noteq> 0x22" and k: "scan_string r = Some (k, r1)"
      and c: "skip_ws r1 = c # r2" "\<not> c \<noteq> 0x3A"
      and p: "parse_value n d (skip_ws r2) = Some (u, r3)" and e: "skip_ws r3 = e # r4" "e = 0x2C"
      for q r k r1 c r2 u r3 e r4
    by (rule 6(2)[OF s k refl c p refl refl e])
      (use 6(3) s scan_string_length[OF k] skip_ws_Cons_length[OF c(1)] skip_ws_length[of r2]
        parse_shorter(1)[OF p] skip_ws_Cons_length[OF e(1)] skip_ws_length[of r4] in simp)
  show ?case
    unfolding parse_members.simps(2)[of "Suc n" d s] parse_members.simps(2)[of n d s]
    by (auto simp: v m Let_def simp del: parse_value.simps parse_elems.simps parse_members.simps
        split: list.split option.split)
qed auto

lemma parse_value_fuel:
  "2 * length s < n \<Longrightarrow> n \<le> m \<Longrightarrow> parse_value m d s = parse_value n d s"
proof (induction m)
  case (Suc m)
  then show ?case
    by (cases "n = Suc m") (simp_all del: parse_value.simps add: parse_fuel_Suc(1))
qed simp

section \<open>Rendered values parse back\<close>

text \<open>
  Strings of printable ASCII without a quote or a backslash, rendered the way \<open>json.Marshal\<close>
  renders them, and arrays of such strings.
\<close>

definition plain_byte :: "nat \<Rightarrow> bool" where
  "plain_byte b = (0x20 \<le> b \<and> b < 0x7F \<and> b \<noteq> 0x22 \<and> b \<noteq> 0x5C)"

definition plain_bytes :: "nat list \<Rightarrow> bool" where
  "plain_bytes s = (\<forall>b \<in> set s. plain_byte b)"

definition plain :: "string \<Rightarrow> bool" where
  "plain s = plain_bytes (bytes_of s)"

definition render_string :: "nat list \<Rightarrow> nat list" where
  "render_string s = 0x22 # s @ [0x22]"

fun render_elems :: "nat list list \<Rightarrow> nat list" where
  "render_elems [] = []"
| "render_elems [s] = render_string s"
| "render_elems (s # ss) = render_string s @ 0x2C # render_elems ss"

definition render_array :: "nat list list \<Rightarrow> nat list" where
  "render_array ss = 0x5B # render_elems ss @ [0x5D]"

lemma string_of_bytes_of [simp]: "string_of (bytes_of s) = s"
  by (simp add: string_of_def bytes_of_def comp_def)

lemma EncodeRune_ascii: "b < 0x80 \<Longrightarrow> EncodeRune b = [b]"
  by (simp add: EncodeRune_def)

lemma skip_ws_nonws: "\<not> json_ws b \<Longrightarrow> skip_ws (b # s) = b # s"
  by (simp add: skip_ws_def)

lemma skip_ws_Nil [simp]: "skip_ws [] = []"
  by (simp add: skip_ws_def)

lemma scan_string_plain:
  "plain_bytes bs \<Longrightarrow> scan_string (bs @ 0x22 # r) = Some (bs, r)"
proof (induction bs)
  case (Cons b bs)
  then have b: "0x20 \<le> b" "b < 0x7F" "b \<noteq> 0x22" "b \<noteq> 0x5C" and "plain_bytes bs"
    by (simp_all add: plain_bytes_def plain_byte_def)
  then have "DecodeRune (b # bs @ 0x22 # r) = (b, 1)" "EncodeRune b = [b]"
    by (simp_all add: DecodeRune_ascii EncodeRune_ascii)
  with Cons.IH b \<open>plain_bytes bs\<close> show ?case by (simp add: prepend_def)
qed simp

lemma parse_value_string:
  "plain_bytes bs \<Longrightarrow>
   parse_value (Suc n) d (render_string bs @ r) = Some (JString bs, r)"
  by (simp add: render_string_def scan_string_plain)

lemma render_elems_hd: "ss \<noteq> [] \<Longrightarrow> \<exists>t. render_elems ss = 0x22 # t"
  by (cases ss rule: render_elems.cases) (auto simp: render_string_def)

lemma parse_elems_strings:
  assumes "ss \<noteq> []" "\<forall>s \<in> set ss. plain_bytes s" "length ss < n"
  shows "parse_elems n d (render_elems ss @ 0x5D # r) = Some (map JString ss, r)"
  using assms
proof (induction ss arbitrary: n rule: render_elems.induct)
  case 1
  then show ?case by simp
next
  case (2 s)
  then obtain m where n: "n = Suc (Suc m)" by (cases n; cases "n - 1") auto
  have "parse_value (Suc m) d (render_string s @ 0x5D # r) = Some (JString s, 0x5D # r)"
    using 2 by (simp only: parse_value_string list.set ball_simps)
  with n show ?case
    by (simp del: parse_value.simps add: skip_ws_nonws json_ws_def)
next
  case (3 s s' ss)
  then obtain m where n: "n = Suc (Suc m)" by (cases n; cases "n - 1") auto
  obtain t where t: "render_elems (s' # ss) = 0x22 # t" using render_elems_hd by blast
  then have ws: "skip_ws (render_elems (s' # ss) @ 0x5D # r) = render_elems (s' # ss) @ 0x5D # r"
    by (simp add: skip_ws_nonws json_ws_def)
  have "parse_elems (Suc m) d (render_elems (s' # ss) @ 0x5D # r)
      = Some (map JString (s' # ss), r)"
    using 3 n by (intro 3(1)) auto
  moreover have "parse_value (Suc m) d (render_string s @ 0x2C # render_elems (s' # ss) @ 0x5D # r)
      = Some (JString s, 0x2C # render_elems (s' # ss) @ 0x5D # r)"
    by (rule parse_value_string) (use 3 in simp)
  ultimately show ?case
    using n ws by (simp del: parse_value.simps parse_elems.simps(2) render_elems.simps(3)
      add: render_elems.simps(3)[of s s' ss] skip_ws_nonws json_ws_def parse_elems.simps(2)[of "Suc m"])
qed

lemma parse_value_array:
  assumes "\<forall>s \<in> set ss. plain_bytes s" "length ss < n" "d < maxNestingDepth"
  shows "parse_value (Suc n) d (render_array ss @ r) = Some (JArray (map JString ss), r)"
proof (cases "ss = []")
  case True
  with assms show ?thesis by (simp add: render_array_def skip_ws_nonws json_ws_def)
next
  case False
  then obtain t where t: "render_elems ss = 0x22 # t" using render_elems_hd by blast
  from parse_elems_strings[OF False assms(1,2), of "Suc d" r] t assms(3) show ?thesis
    by (simp add: render_array_def skip_ws_nonws json_ws_def)
qed

lemma render_elems_length: "length ss \<le> length (render_elems ss)"
  by (induction ss rule: render_elems.induct) (auto simp: render_string_def)

lemma parse_json_array:
  assumes "\<forall>s \<in> set ss. plain_bytes s"
  shows "parse_json (render_array ss) = Some (JArray (map JString ss))"
proof -
  have len: "length ss < 2 * length (render_array ss)"
    using render_elems_length[of ss] by (simp add: render_array_def)
  have "skip_ws (render_array ss) = render_array ss"
    by (simp add: render_array_def skip_ws_nonws json_ws_def)
  with parse_value_array[OF assms len, of 0 "[]"] show ?thesis
    by (simp add: parse_json_def maxNestingDepth_def del: parse_value.simps)
qed

lemma parse_json_string:
  assumes "plain_bytes bs"
  shows "parse_json (render_string bs) = Some (JString bs)"
proof -
  have "skip_ws (render_string bs) = render_string bs"
    by (simp add: render_string_def skip_ws_nonws json_ws_def)
  with parse_value_string[of bs _ 0 "[]"] assms show ?thesis
    by (simp add: parse_json_def del: parse_value.simps)
qed

lemma json_strings_map: "json_strings (map JString ss) = Some (map string_of ss)"
  by (induction ss) auto

text \<open>Facts with which the simplifier evaluates the decoder on a literal.\<close>

lemmas parse_numeral =
  parse_value.simps(2)[of "pred_numeral k" for k, folded numeral_eq_Suc]
  parse_elems.simps(2)[of "pred_numeral k" for k, folded numeral_eq_Suc]
  parse_members.simps(2)[of "pred_numeral k" for k, folded numeral_eq_Suc]

lemmas json_eval = Unmarshal_strings_def Unmarshal_string_def Unmarshal_fields_def parse_json_def
  bytes_of_def string_of_def skip_ws_def json_ws_def scan_literal_def lit_true_def lit_false_def
  lit_null_def scan_number_def scan_int_def scan_frac_def scan_exp_def scan_digits_def
  num_digit_def DecodeRune_def EncodeRune_def prepend_def maxNestingDepth_def escape_char_def
  Let_def char_of_def bit_0 parse_numeral

end
