(* ===== verification/ClaimsMap.thy ===== *)
theory ClaimsMap
  imports GoJson Krb5
begin

text \<open>
  Reading groups and scopes from the raw claims of a token (\<open>src/claimsmap.go\<close>).  A nil slice is
  the empty list.  The errors of \<open>json.Unmarshal\<close> are wrapped or discarded by the code, so only
  their presence matters.
\<close>

type_synonym ClaimsMapper = "Identity \<Rightarrow> (string \<times> string list \<times> string list) result"

text \<open>An error of the JSON decoder; its text is not modelled.\<close>

definition jsonError :: goerror where
  "jsonError = Foreign 100"

definition is_sep :: "char \<Rightarrow> bool" where
  "is_sep c = (c = CHR '' '' \<or> c = CHR '','')"

fun keep_nonblank :: "string list \<Rightarrow> string list \<Rightarrow> string list" where
  "keep_nonblank out [] = out"
| "keep_nonblank out (s # ss) = keep_nonblank (if TrimSpace s \<noteq> [] then out @ [s] else out) ss"

definition stringOrList :: "string \<Rightarrow> string list result" where
  "stringOrList raw =
     (if raw = [] then Inr []
      else case Unmarshal_strings raw of
             Some l \<Rightarrow> Inr (keep_nonblank [] l)
           | None \<Rightarrow>
               (case Unmarshal_string raw of
                  Some s \<Rightarrow> Inr (fields_func is_sep s)
                | None \<Rightarrow> Inl (errors_New ''kerbexchange: claim value is not a string or list of strings'')))"

record DefaultClaimsMapper =
  GroupsClaim :: string

text \<open>A key the decoded map does not hold reads as the nil \<open>RawMessage\<close>.\<close>

definition raw_field :: "(string \<rightharpoonup> string) \<Rightarrow> string \<Rightarrow> string" where
  "raw_field m k = (case m k of None \<Rightarrow> [] | Some raw \<Rightarrow> raw)"

definition DefaultClaimsMapper_Map :: "DefaultClaimsMapper \<Rightarrow> ClaimsMapper" where
  "DefaultClaimsMapper_Map m i =
     (let groupsClaim = (if GroupsClaim m = [] then ''groups'' else GroupsClaim m) in
      attempt (if Claims i = [] then Inr Map.empty
           else case Unmarshal_fields (Claims i) of
                  None \<Rightarrow> Inl (wrapf ''kerbexchange: parse claims: '' jsonError)
                | Some m \<Rightarrow> Inr m) (\<lambda>fields.
      attempt (on_err (wrapf ''kerbexchange: parse claim: '') (stringOrList (raw_field fields groupsClaim))) (\<lambda>groups.
      attempt (on_err (wrapf ''kerbexchange: parse claim: '') (stringOrList (raw_field fields ''scope''))) (\<lambda>scopes.
      Inr (Subject i, groups, scopes)))))"

section \<open>Facts\<close>

lemma keep_nonblank_eq: "keep_nonblank out ss = out @ filter (\<lambda>s. TrimSpace s \<noteq> []) ss"
  by (induction ss arbitrary: out) auto

text \<open>
  The value of a claim decides everything: \<open>claim_value\<close> is the specification of
  \<open>stringOrList\<close> over the parsed JSON value.
\<close>

definition claim_value :: "json option \<Rightarrow> string list option" where
  "claim_value v =
     (case v of
        Some JNull \<Rightarrow> Some []
      | Some (JString t) \<Rightarrow> Some (fields_func is_sep (string_of t))
      | Some (JArray vs) \<Rightarrow> map_option (filter (\<lambda>s. TrimSpace s \<noteq> [])) (json_strings vs)
      | _ \<Rightarrow> None)"

lemma stringOrList_claim_value:
  assumes "raw \<noteq> []"
  shows "stringOrList raw =
    (case claim_value (parse_json (bytes_of raw)) of
       Some l \<Rightarrow> Inr l
     | None \<Rightarrow> Inl (errors_New ''kerbexchange: claim value is not a string or list of strings''))"
  using assms
  by (auto simp: stringOrList_def claim_value_def Unmarshal_strings_def Unmarshal_string_def
      keep_nonblank_eq split: option.splits json.splits)

text \<open>The claims object \<open>{"groups":[...],"scope":"..."}\<close> as an issuer renders it.\<close>

definition render_claims :: "string list \<Rightarrow> string \<Rightarrow> nat list" where
  "render_claims groups scope =
     0x7B # render_string (bytes_of ''groups'') @ 0x3A # render_array (map bytes_of groups)
     @ 0x2C # render_string (bytes_of ''scope'') @ 0x3A # render_string (bytes_of scope) @ [0x7D]"

lemma bytes_of_string_of: "\<forall>b \<in> set bs. b < 256 \<Longrightarrow> bytes_of (string_of bs) = bs"
  by (simp add: bytes_of_def string_of_def map_idI)

lemma render_elems_bytes:
  "b \<in> set (render_elems ts) \<Longrightarrow> b = 0x22 \<or> b = 0x2C \<or> (\<exists>t \<in> set ts. b \<in> set t)"
  by (induction ts rule: render_elems.induct) (auto simp: render_string_def)

lemma render_array_bytes: "\<forall>b \<in> set (render_array (map bytes_of ss)). b < 256"
proof
  fix b assume "b \<in> set (render_array (map bytes_of ss))"
  then have "b = 0x5B \<or> b = 0x5D \<or> b = 0x22 \<or> b = 0x2C \<or> (\<exists>t \<in> set (map bytes_of ss). b \<in> set t)"
    using render_elems_bytes[of b "map bytes_of ss"] by (auto simp: render_array_def)
  then show "b < 256" by (auto simp: bytes_of_def)
qed

lemma render_string_bytes: "\<forall>b \<in> set (render_string (bytes_of s)). b < 256"
  by (auto simp: render_string_def bytes_of_def)

lemma render_claims_bytes: "\<forall>b \<in> set (render_claims gs sc). b < 256"
  using render_array_bytes[of gs] render_string_bytes by (auto simp: render_claims_def)

lemma map_string_bytes: "map string_of (map bytes_of ss) = ss"
  by (simp add: comp_def)

lemma stringOrList_render_array:
  assumes "\<forall>s \<in> set ss. plain s"
  shows "stringOrList (string_of (render_array (map bytes_of ss)))
    = Inr (filter (\<lambda>s. TrimSpace s \<noteq> []) ss)"
proof -
  have "\<forall>s \<in> set (map bytes_of ss). plain_bytes s" using assms by (simp add: plain_def)
  then have "claim_value (parse_json (render_array (map bytes_of ss)))
      = Some (filter (\<lambda>s. TrimSpace s \<noteq> []) ss)"
    by (simp only: parse_json_array)
      (simp only: claim_value_def option.case json.case json_strings_map option.map map_string_bytes)
  moreover have "string_of (render_array (map bytes_of ss)) \<noteq> []"
    by (simp add: render_array_def string_of_def)
  ultimately show ?thesis
    by (simp add: stringOrList_claim_value bytes_of_string_of[OF render_array_bytes])
qed

lemma stringOrList_render_string:
  assumes "plain s"
  shows "stringOrList (string_of (render_string (bytes_of s))) = Inr (fields_func is_sep s)"
proof -
  have "claim_value (parse_json (render_string (bytes_of s))) = Some (fields_func is_sep s)"
    using assms by (simp add: parse_json_string plain_def claim_value_def)
  moreover have "string_of (render_string (bytes_of s)) \<noteq> []"
    by (simp add: render_string_def string_of_def)
  ultimately show ?thesis
    by (simp add: stringOrList_claim_value bytes_of_string_of[OF render_string_bytes])
qed

lemma plain_keys: "plain_bytes (bytes_of ''groups'')" "plain_bytes (bytes_of ''scope'')"
  by (simp_all add: plain_bytes_def plain_byte_def bytes_of_def)

lemma parse_members_one:
  assumes "plain_bytes k" "plain_bytes v"
  shows "parse_members (Suc (Suc n)) d (render_string k @ 0x3A # render_string v @ 0x7D # r)
    = Some ([(k, render_string v, JString v)], r)"
proof -
  have "parse_value (Suc n) d (render_string v @ 0x7D # r) = Some (JString v, 0x7D # r)"
    using assms(2) by (rule parse_value_string)
  then show ?thesis
    using assms(1)
    by (simp add: render_string_def[of k] scan_string_plain skip_ws_nonws json_ws_def
        render_string_def[of v] del: parse_value.simps)
qed

lemma parse_members_array:
  assumes "plain_bytes k" "\<forall>s \<in> set ss. plain_bytes s" "length ss < n" "d < maxNestingDepth"
    and rest: "parse_members (Suc n) d (0x22 # t) = Some (ms, r)"
  shows "parse_members (Suc (Suc n)) d (render_string k @ 0x3A # render_array ss @ 0x2C # 0x22 # t)
    = Some ((k, render_array ss, JArray (map JString ss)) # ms, r)"
proof -
  have "parse_value (Suc n) d (render_array ss @ 0x2C # 0x22 # t)
      = Some (JArray (map JString ss), 0x2C # 0x22 # t)"
    using assms(2-4) by (rule parse_value_array)
  moreover have "skip_ws (render_array ss @ u) = render_array ss @ u" for u
    by (simp add: render_array_def skip_ws_nonws json_ws_def)
  ultimately show ?thesis
    using assms(1) rest
    by (simp add: render_string_def[of k] scan_string_plain skip_ws_nonws json_ws_def
        parse_members.simps(2)[of "Suc n"] del: parse_value.simps parse_members.simps(2))
qed

lemma parse_json_claims:
  assumes "\<forall>s \<in> set gs. plain s" "plain sc"
  shows "parse_json (render_claims gs sc) = Some (JObject
    [(bytes_of ''groups'', render_array (map bytes_of gs), JArray (map JString (map bytes_of gs))),
     (bytes_of ''scope'', render_string (bytes_of sc), JString (bytes_of sc))])"
proof -
  let ?gs = "map bytes_of gs" and ?sc = "bytes_of sc"
  define n where "n = 2 * length (render_claims gs sc) - 2"
  have len: "length gs < n" "2 * length (render_claims gs sc) = Suc (Suc n)" "1 \<le> n"
    using render_elems_length[of ?gs] by (simp_all add: n_def render_claims_def render_array_def)
  obtain m where m: "n = Suc m" using len(3) by (cases n) auto
  have tail: "parse_members (Suc n) 1
      (render_string (bytes_of ''scope'') @ 0x3A # render_string ?sc @ [0x7D])
      = Some ([(bytes_of ''scope'', render_string ?sc, JString ?sc)], [])"
    using parse_members_one[OF plain_keys(2), of ?sc m 1 "[]"] assms(2) m by (simp add: plain_def)
  obtain t where t: "render_string (bytes_of ''scope'') @ 0x3A # render_string ?sc @ [0x7D] = 0x22 # t"
    by (simp add: render_string_def)
  have "parse_members (Suc (Suc n)) 1
      (render_string (bytes_of ''groups'') @ 0x3A # render_array ?gs @ 0x2C # 0x22 # t)
      = Some ([(bytes_of ''groups'', render_array ?gs, JArray (map JString ?gs)),
          (bytes_of ''scope'', render_string ?sc, JString ?sc)], [])"
    by (rule parse_members_array)
      (use plain_keys assms len tail t in \<open>auto simp: plain_def maxNestingDepth_def\<close>)
  then have "parse_value (Suc (Suc (Suc n))) 0 (render_claims gs sc) = Some (JObject
      [(bytes_of ''groups'', render_array ?gs, JArray (map JString ?gs)),
       (bytes_of ''scope'', render_string ?sc, JString ?sc)], [])"
    unfolding render_claims_def t
    by (simp add: render_string_def[of "bytes_of ''groups''"] skip_ws_nonws json_ws_def
        maxNestingDepth_def del: parse_members.simps)
  then show ?thesis
    using len(2) by (simp add: parse_json_def render_claims_def[of gs sc] skip_ws_nonws json_ws_def
        del: parse_value.simps)
qed

lemma map_render:
  assumes "\<forall>g \<in> set groups. plain g" "plain scope" "GroupsClaim m = [] \<or> GroupsClaim m = ''groups''"
    and "Claims i = string_of (render_claims groups scope)"
  shows "DefaultClaimsMapper_Map m i =
    Inr (Subject i, filter (\<lambda>s. TrimSpace s \<noteq> []) groups, fields_func is_sep scope)"
proof -
  have "Claims i \<noteq> []" using assms(4) by (simp add: render_claims_def string_of_def)
  moreover have "Unmarshal_fields (Claims i) = Some
      [''scope'' \<mapsto> string_of (render_string (bytes_of scope)),
       ''groups'' \<mapsto> string_of (render_array (map bytes_of groups))]"
    using assms by (simp add: Unmarshal_fields_def bytes_of_string_of render_claims_bytes
        parse_json_claims fun_eq_iff)
  ultimately show ?thesis
    using assms stringOrList_render_array[of groups] stringOrList_render_string[of scope]
    by (auto simp: DefaultClaimsMapper_Map_def raw_field_def Let_def)
qed

section \<open>The interface\<close>

text \<open>What the PAC builder relies on in a claims mapper: the subject is the identity's own.\<close>

locale claims_mapper =
  fixes claims_map :: "Identity \<Rightarrow> (string \<times> string list \<times> string list) result"
  assumes map_subject: "claims_map i = Inr (s, gs, scs) \<Longrightarrow> s = Subject i"

interpretation dcm: claims_mapper "DefaultClaimsMapper_Map m"
  by unfold_locales (auto simp: DefaultClaimsMapper_Map_def Let_def result_simps)

section \<open>Properties\<close>

text \<open>
  \<open>stringOrList\<close> on every input: an absent claim is the empty list; an array of strings (or
  nulls) is its entries without the blank ones; a string is its parts between spaces and commas;
  \<open>null\<close> is the empty list; everything else, including text that is not JSON, is the error.
\<close>

lemma stringOrList_spec:
  "stringOrList raw =
     (if raw = [] then Inr []
      else case parse_json (bytes_of raw) of
             Some JNull \<Rightarrow> Inr []
           | Some (JString t) \<Rightarrow> Inr (fields_func is_sep (string_of t))
           | Some (JArray vs) \<Rightarrow>
               (case json_strings vs of
                  Some l \<Rightarrow> Inr (filter (\<lambda>s. TrimSpace s \<noteq> []) l)
                | None \<Rightarrow> Inl (errors_New ''kerbexchange: claim value is not a string or list of strings''))
           | _ \<Rightarrow> Inl (errors_New ''kerbexchange: claim value is not a string or list of strings''))"
  by (cases "raw = []")
    (auto simp: stringOrList_claim_value claim_value_def stringOrList_def[of "[]"]
      split: option.splits json.splits)

text \<open>
  C32.  Claims an issuer renders are read back: for the object with a \<open>groups\<close> array and a
  space-delimited \<open>scope\<close> string of printable characters, \<open>Map\<close> returns the subject, the
  non-blank groups and the scopes.
\<close>

theorem DefaultClaimsMapper_Map_roundtrip:
  assumes "\<forall>g \<in> set groups. plain g" "plain scope" "GroupsClaim m = [] \<or> GroupsClaim m = ''groups''"
    and "Claims i = string_of (render_claims groups scope)"
  shows "DefaultClaimsMapper_Map m i =
    Inr (Subject i, filter (\<lambda>s. TrimSpace s \<noteq> []) groups, fields_func is_sep scope)"
  using assms by (rule map_render)

theorem DefaultClaimsMapper_Map_roundtrip_witness:
  "DefaultClaimsMapper_Map \<lparr>GroupsClaim = []\<rparr>
     \<lparr>Subject = ''alice'', Claims = string_of (render_claims [''a'', ''b''] ''mail.read x''),
      Expiry = zeroTime\<rparr>
   = Inr (''alice'', filter (\<lambda>s. TrimSpace s \<noteq> []) [''a'', ''b''], fields_func is_sep ''mail.read x'')"
  by (subst DefaultClaimsMapper_Map_roundtrip[where groups = "[''a'', ''b'']" and scope = "''mail.read x''"])
    (simp_all add: plain_def plain_bytes_def plain_byte_def bytes_of_def)

end
