(* ===== verification/ScopeFilter.thy ===== *)
theory ScopeFilter
  imports Prelude
begin

text \<open>
  Narrowing groups by granted scopes (\<open>src/scopefilter.go\<close>).  The Go map is a partial function;
  a missing key yields the nil slice.
\<close>

type_synonym ScopeFilter = "string list \<Rightarrow> string list \<Rightarrow> string list"

record ConfigMapFilter =
  ScopeGroups :: "string \<rightharpoonup> string list"

definition scope_groups :: "ConfigMapFilter \<Rightarrow> string \<Rightarrow> string list" where
  "scope_groups f s = (case ScopeGroups f s of None \<Rightarrow> [] | Some gs \<Rightarrow> gs)"

text \<open>The two loops: the groups some granted scope lists, then the candidates among them.\<close>

fun mark_all :: "string set \<Rightarrow> string list \<Rightarrow> string set" where
  "mark_all adm [] = adm"
| "mark_all adm (g # gs) = mark_all (insert g adm) gs"

fun mark_scopes :: "ConfigMapFilter \<Rightarrow> string set \<Rightarrow> string list \<Rightarrow> string set" where
  "mark_scopes f adm [] = adm"
| "mark_scopes f adm (s # ss) = mark_scopes f (mark_all adm (scope_groups f s)) ss"

fun select :: "string set \<Rightarrow> string list \<Rightarrow> string list \<Rightarrow> string list" where
  "select adm out [] = out"
| "select adm out (g # gs) = select adm (if g \<in> adm then out @ [g] else out) gs"

definition ConfigMapFilter_Admit :: "ConfigMapFilter \<Rightarrow> ScopeFilter" where
  "ConfigMapFilter_Admit f grantedScopes candidateGroups =
     (let admitted = mark_scopes f {} grantedScopes in select admitted [] candidateGroups)"

section \<open>The interface\<close>

text \<open>
  What a scope filter promises the PAC builder: it only removes groups, keeps their order, and
  granting more scopes never removes a group.
\<close>

locale scope_filter =
  fixes admit :: ScopeFilter
  assumes admit_subseq: "subseq (admit scopes groups) groups"
    and admit_mono: "set scopes \<subseteq> set scopes' \<Longrightarrow> set (admit scopes groups) \<subseteq> set (admit scopes' groups)"
begin

lemma admit_subset: "set (admit scopes groups) \<subseteq> set groups"
  using admit_subseq[of scopes groups] by (auto simp: subseq_conv_nths dest: in_set_nthsD)

lemma admit_distinct: "distinct groups \<Longrightarrow> distinct (admit scopes groups)"
  using admit_subseq[of scopes groups] by (auto simp: subseq_conv_nths)

lemma admit_none: "groups = [] \<Longrightarrow> admit scopes groups = []"
  using admit_subseq[of scopes groups] by simp

end

lemma mark_all_eq: "mark_all adm gs = adm \<union> set gs"
  by (induction gs arbitrary: adm) auto

lemma mark_scopes_eq: "mark_scopes f adm ss = adm \<union> (\<Union>s \<in> set ss. set (scope_groups f s))"
  by (induction ss arbitrary: adm) (auto simp: mark_all_eq)

lemma select_eq: "select adm out gs = out @ filter (\<lambda>g. g \<in> adm) gs"
  by (induction gs arbitrary: out) auto

lemma Admit_filter:
  "ConfigMapFilter_Admit f scopes groups =
     filter (\<lambda>g. \<exists>s \<in> set scopes. g \<in> set (scope_groups f s)) groups"
  by (simp add: ConfigMapFilter_Admit_def mark_scopes_eq select_eq)

interpretation cmf: scope_filter "ConfigMapFilter_Admit f"
  by unfold_locales (auto simp: Admit_filter subseq_filter_left)

section \<open>Properties\<close>

text \<open>
  C31.  \<open>Admit\<close> returns exactly the candidate groups that some granted scope lists, in the order
  of the candidates, with the multiplicity they had there.
\<close>

theorem ConfigMapFilter_Admit_spec:
  "ConfigMapFilter_Admit f scopes groups =
     filter (\<lambda>g. \<exists>s \<in> set scopes. \<exists>gs. ScopeGroups f s = Some gs \<and> g \<in> set gs) groups"
proof -
  have "g \<in> set (scope_groups f s) \<longleftrightarrow> (\<exists>gs. ScopeGroups f s = Some gs \<and> g \<in> set gs)" for g s
    by (cases "ScopeGroups f s") (simp_all add: scope_groups_def)
  then show ?thesis by (simp add: Admit_filter)
qed

text \<open>
  The comment of \<open>Admit\<close> promises each admitted group at most once; a group that a claim
  lists twice is returned twice.
\<close>

lemma ConfigMapFilter_Admit_duplicates:
  "ConfigMapFilter_Admit \<lparr>ScopeGroups = [''mail'' \<mapsto> [''staff'']]\<rparr> [''mail''] [''staff'', ''staff'']
     = [''staff'', ''staff'']"
  by (simp add: Admit_filter scope_groups_def)

end
