(* ===== verification/GoStrconv.thy ===== *)
theory GoStrconv
  imports Prelude
begin

text \<open>
  Decimal numbers as the repository prints and reads them: \<open>%d\<close> of \<open>fmt.Sprintf\<close> and
  \<open>strconv.ParseUint(s, 10, bits)\<close>, with the two errors the latter reports.
\<close>

definition digit_char :: "nat \<Rightarrow> char" where
  "digit_char d = char_of (48 + d)"

definition digit_val :: "char \<Rightarrow> nat option" where
  "digit_val c = (let n = of_char c in if 48 \<le> n \<and> n \<le> 57 then Some (n - 48) else None)"

fun show_nat :: "nat \<Rightarrow> string" where
  "show_nat n =
     (if n < 10 then [digit_char n] else show_nat (n div 10) @ [digit_char (n mod 10)])"

declare show_nat.simps [simp del]

definition show_int :: "int \<Rightarrow> string" where
  "show_int i = (if i < 0 then CHR ''-'' # show_nat (nat (- i)) else show_nat (nat i))"

datatype num_error = ErrSyntax | ErrRange

text \<open>
  The loop of \<open>ParseUint\<close> in base 10: \<open>cutoff\<close> is \<open>maxUint64/10 + 1\<close>, \<open>mx\<close> the largest
  value of the requested width, \<open>n\<close> the value read so far.
\<close>

definition cutoff :: nat where
  "cutoff = (2 ^ 64 - 1) div 10 + 1"

fun parse_digits :: "nat \<Rightarrow> nat \<Rightarrow> string \<Rightarrow> num_error + nat" where
  "parse_digits mx n [] = Inr n"
| "parse_digits mx n (c # cs) =
     (case digit_val c of
        None \<Rightarrow> Inl ErrSyntax
      | Some d \<Rightarrow>
          if n \<ge> cutoff then Inl ErrRange
          else if n * 10 + d > mx then Inl ErrRange
          else parse_digits mx (n * 10 + d) cs)"

definition ParseUint :: "string \<Rightarrow> nat \<Rightarrow> num_error + nat" where
  "ParseUint s bits = (if s = [] then Inl ErrSyntax else parse_digits (2 ^ bits - 1) 0 s)"

definition numError :: "string \<Rightarrow> num_error \<Rightarrow> goerror" where
  "numError s e =
     Errorf [Lit ''strconv.ParseUint: parsing '', Quoted s,
       Lit (case e of ErrSyntax \<Rightarrow> '': invalid syntax'' | ErrRange \<Rightarrow> '': value out of range'')]"

section \<open>The value of a digit string\<close>

definition is_digit :: "char \<Rightarrow> bool" where
  "is_digit c = (digit_val c \<noteq> None)"

fun value_from :: "nat \<Rightarrow> string \<Rightarrow> nat" where
  "value_from n [] = n"
| "value_from n (c # cs) = value_from (n * 10 + the (digit_val c)) cs"

abbreviation decimal_value :: "string \<Rightarrow> nat" where
  "decimal_value \<equiv> value_from 0"

lemma digit_val_char [simp]: "d < 10 \<Longrightarrow> digit_val (digit_char d) = Some d"
  by (simp add: digit_val_def digit_char_def)

lemma is_digit_char [simp]: "d < 10 \<Longrightarrow> is_digit (digit_char d)"
  by (simp add: is_digit_def)

lemma value_from_append [simp]: "value_from n (s @ t) = value_from (value_from n s) t"
  by (induction s arbitrary: n) auto

lemma value_from_mono: "n \<le> value_from n s"
proof (induction s arbitrary: n)
  case (Cons c cs)
  have "n \<le> n * 10 + the (digit_val c)" by simp
  also have "\<dots> \<le> value_from (n * 10 + the (digit_val c)) cs" by (rule Cons)
  finally show ?case by simp
qed simp

lemma show_nat_digits: "\<forall>c \<in> set (show_nat n). is_digit c"
  by (induction n rule: show_nat.induct) (subst show_nat.simps, auto)

lemma show_nat_nonempty [simp]: "show_nat n \<noteq> []"
  by (subst show_nat.simps) simp

lemma value_show_nat [simp]: "decimal_value (show_nat n) = n"
proof (induction n rule: show_nat.induct)
  case (1 n)
  then show ?case by (cases "n < 10") (simp_all add: show_nat.simps[of n])
qed

lemma show_nat_inj: "show_nat m = show_nat n \<Longrightarrow> m = n"
  by (metis value_show_nat)

lemma is_digit_not: "is_digit c \<Longrightarrow> c \<noteq> CHR ''-'' \<and> c \<noteq> CHR 0x00"
  by (auto simp: is_digit_def digit_val_def)

lemma show_nat_no_minus: "CHR ''-'' \<notin> set (show_nat n)"
  using show_nat_digits is_digit_not by blast

lemma show_int_inj: "show_int i = show_int j \<Longrightarrow> i = j"
proof -
  have hd: "hd (show_nat n) \<noteq> CHR ''-''" for n
    using show_nat_no_minus[of n] by (metis hd_in_set show_nat_nonempty)
  assume "show_int i = show_int j"
  then show "i = j"
    using hd by (auto simp: show_int_def dest!: show_nat_inj split: if_splits)
      (metis list.sel(1))+
qed

lemma show_int_no_nul: "CHR 0x00 \<notin> set (show_int i)"
  using show_nat_digits is_digit_not by (auto simp: show_int_def)

section \<open>Reading\<close>

lemma parse_digits_Inr:
  assumes "mx < 2 ^ 64"
  shows "parse_digits mx n s = Inr v \<longleftrightarrow>
    (\<forall>c \<in> set s. is_digit c) \<and> value_from n s = v \<and> (s = [] \<or> v \<le> mx)"
proof (induction s arbitrary: n)
  case Nil
  then show ?case by auto
next
  case (Cons c cs)
  show ?case
  proof (cases "digit_val c")
    case None
    then show ?thesis by (simp add: is_digit_def)
  next
    case (Some d)
    have d: "d \<le> 9" using Some by (auto simp: digit_val_def Let_def split: if_splits)
    have big: "n \<ge> cutoff \<Longrightarrow> n * 10 + d > mx"
      using assms by (simp add: cutoff_def)
    show ?thesis
    proof (cases "n * 10 + d > mx")
      case True
      with value_from_mono[of "n * 10 + d" cs] Some show ?thesis by auto
    next
      case False
      with big Some Cons[of "n * 10 + d"] show ?thesis
        by (auto simp: is_digit_def)
    qed
  qed
qed

lemma ParseUint_Inr_iff:
  assumes "bits \<le> 64"
  shows "ParseUint s bits = Inr v \<longleftrightarrow>
    s \<noteq> [] \<and> (\<forall>c \<in> set s. is_digit c) \<and> decimal_value s = v \<and> v < 2 ^ bits"
proof -
  have "(2::nat) ^ bits \<le> 2 ^ 64" using assms by (rule power_increasing) simp
  then have "(2::nat) ^ bits - 1 < 2 ^ 64"
    by (metis diff_less less_le_trans nat_zero_less_power_iff order_le_imp_less_or_eq
        zero_less_numeral zero_less_one order.strict_trans1)
  then show ?thesis
    by (auto simp: ParseUint_def parse_digits_Inr less_eq_Suc_le[symmetric] Suc_le_eq
        less_Suc_eq_le[symmetric])
qed

lemma ParseUint_show_nat:
  "bits \<le> 64 \<Longrightarrow> n < 2 ^ bits \<Longrightarrow> ParseUint (show_nat n) bits = Inr n"
  by (simp add: ParseUint_Inr_iff show_nat_digits)

end
