(* ===== verification/PacBuilder.thy ===== *)
theory PacBuilder
  imports ClaimsMap ScopeFilter GoStrconv
begin

text \<open>
  The synthetic PAC (\<open>src/pacbuilder.go\<close>): parsing the domain SID, deriving relative identifiers
  from names, and building \<open>KERB_VALIDATION_INFO\<close> and \<open>PAC_CLIENT_INFO\<close> from an identity.
\<close>

section \<open>Relative identifiers\<close>

definition neverFileTime :: FileTime where
  "neverFileTime = \<lparr>LowDateTime = 0xFFFFFFFF, HighDateTime = 0x7FFFFFFF\<rparr>"

definition zeroFileTime :: FileTime where
  "zeroFileTime = \<lparr>LowDateTime = 0, HighDateTime = 0\<rparr>"

text \<open>FNV-1a over 32 bits (\<open>hash/fnv\<close>): offset basis, then xor and multiply for every byte.\<close>

fun fnv32a :: "u32 \<Rightarrow> string \<Rightarrow> u32" where
  "fnv32a h [] = h"
| "fnv32a h (c # cs) = fnv32a ((h XOR word_of_nat (of_char c)) * 16777619) cs"

definition ridSynthSpace :: u32 where "ridSynthSpace = 0x20000000"

definition ridFromName :: "string \<Rightarrow> u32" where
  "ridFromName name = 1000 + fnv32a 2166136261 name mod ridSynthSpace"

definition ridFromSubject :: "string \<Rightarrow> u32" where
  "ridFromSubject s = ridFromName s"

section \<open>The domain SID\<close>

definition invalidSID :: "string \<Rightarrow> piece list \<Rightarrow> goerror" where
  "invalidSID s ps = Errorf ([Lit ''kerbexchange: invalid domain SID '', Quoted s] @ ps)"

fun parse_subs :: "string \<Rightarrow> nat \<Rightarrow> string list \<Rightarrow> u32 list result" where
  "parse_subs s i [] = Inr []"
| "parse_subs s i (p # ps) =
     (case ParseUint p 32 of
        Inl e \<Rightarrow> Inl (invalidSID s [Lit '': sub-authority '', Number (int i), Lit '': '', WrapW (numError p e)])
      | Inr v \<Rightarrow> attempt (parse_subs s (Suc i) ps) (\<lambda>vs. Inr (word_of_nat v # vs)))"

definition parseDomainSID :: "string \<Rightarrow> RPCSID result" where
  "parseDomainSID s0 =
     (let s = TrimSpace s0; parts = split_on (CHR ''-'') s in
      if length parts < 7 \<or> parts ! 0 \<noteq> ''S'' \<or> parts ! 1 \<noteq> ''1''
      then Inl (invalidSID s [Lit '': want S-1-5-21-a-b-c''])
      else case ParseUint (parts ! 2) 64 of
             Inl e \<Rightarrow> Inl (invalidSID s [Lit '': authority: '', WrapW (numError (parts ! 2) e)])
           | Inr authVal \<Rightarrow>
               if authVal > 0xFF
               then Inl (Errorf [Lit ''kerbexchange: identifier authority '', Number (int authVal),
                      Lit '' out of range (only the low byte is representable here)''])
               else attempt (parse_subs s 0 (drop 3 parts)) (\<lambda>subs.
                 Inr \<lparr>Revision = 1, SubAuthorityCount = word_of_nat (length subs),
                      IdentifierAuthority = [0, 0, 0, 0, 0, word_of_nat authVal],
                      SubAuthority = subs\<rparr>))"

section \<open>The builder\<close>

record SyntheticPACBuilder =
  DomainSID :: RPCSID
  DefaultPrimaryGroupRID :: u32
  PB_GroupsClaim :: string
  GroupOverrides :: "string \<rightharpoonup> u32"
  PB_ScopeFilter :: "ScopeFilter option"
  PB_Mapper :: "ClaimsMapper option"

definition NewSyntheticPACBuilder :: "string \<Rightarrow> SyntheticPACBuilder result" where
  "NewSyntheticPACBuilder domainSID =
     attempt (parseDomainSID domainSID) (\<lambda>sid.
       Inr \<lparr>DomainSID = sid, DefaultPrimaryGroupRID = 513, PB_GroupsClaim = [],
            GroupOverrides = Map.empty, PB_ScopeFilter = None, PB_Mapper = None\<rparr>)"

definition groupRID :: "SyntheticPACBuilder \<Rightarrow> string \<Rightarrow> u32" where
  "groupRID b name = (case GroupOverrides b name of Some rid \<Rightarrow> rid | None \<Rightarrow> ridFromName name)"

definition rpcUnicode :: "string \<Rightarrow> RPCUnicodeString" where
  "rpcUnicode s =
     (let byteLen = word_of_nat (utf16_len s * 2)
      in \<lparr>Length = byteLen, MaximumLength = byteLen, Value = s\<rparr>)"

text \<open>The loop over the admitted groups: \<open>seen\<close> holds the identifiers already present.\<close>

fun add_groups :: "(string \<Rightarrow> u32) \<Rightarrow> u32 set \<Rightarrow> GroupMembership list \<Rightarrow> string list \<Rightarrow> GroupMembership list" where
  "add_groups rid seen ids [] = ids"
| "add_groups rid seen ids (g # gs) =
     (if rid g \<in> seen then add_groups rid seen ids gs
      else add_groups rid (insert (rid g) seen) (ids @ [\<lparr>RelativeID = rid g, Attributes = 0x7\<rparr>]) gs)"

definition build_groups :: "SyntheticPACBuilder \<Rightarrow> string list \<Rightarrow> GroupMembership list" where
  "build_groups b admitted =
     add_groups (groupRID b) {DefaultPrimaryGroupRID b}
       [\<lparr>RelativeID = DefaultPrimaryGroupRID b, Attributes = 0x7\<rparr>] admitted"

definition SyntheticPACBuilder_Build ::
    "krb5 \<Rightarrow> SyntheticPACBuilder \<Rightarrow> Identity \<Rightarrow> gotime \<Rightarrow> (KerbValidationInfo \<times> ClientInfo) result" where
  "SyntheticPACBuilder_Build K b i authTime =
     (let mapper = (case PB_Mapper b of
                      Some m \<Rightarrow> m
                    | None \<Rightarrow> DefaultClaimsMapper_Map \<lparr>GroupsClaim = PB_GroupsClaim b\<rparr>) in
      attempt (mapper i) (\<lambda>(subject, groupNames, grantedScopes).
      let admitted = (case PB_ScopeFilter b of
                        Some admit \<Rightarrow> admit grantedScopes groupNames
                      | None \<Rightarrow> groupNames);
          groupIDs = build_groups b admitted;
          uid = ridFromSubject subject;
          kvi = \<lparr>LogOnTime = GetFileTime K (toUTC authTime),
                 LogOffTime = neverFileTime,
                 KickOffTime = neverFileTime,
                 PasswordLastSet = zeroFileTime,
                 PasswordCanChange = zeroFileTime,
                 PasswordMustChange = neverFileTime,
                 EffectiveName = rpcUnicode subject,
                 UserID = uid,
                 PrimaryGroupID = DefaultPrimaryGroupRID b,
                 GroupCount = word_of_nat (length groupIDs),
                 GroupIDs = groupIDs,
                 UserFlags = 0,
                 LogonDomainName = rpcUnicode ''SYNTHETIC'',
                 LogonDomainID = DomainSID b,
                 UserAccountControl = 0x10200,
                 LastSuccessfulILogon = neverFileTime,
                 LastFailedILogon = neverFileTime,
                 SIDCount = 0,
                 ExtraSIDs = [],
                 ResourceGroupCount = 0,
                 ResourceGroupIDs = []\<rparr>;
          ci = \<lparr>ClientID = GetFileTime K (toUTC authTime),
                NameLength = word_of_nat (utf16_len subject * 2),
                Name = subject\<rparr>
      in Inr (kvi, ci)))"

section \<open>Bounds on relative identifiers\<close>

lemma unat_ridFromName:
  "unat (ridFromName n) = 1000 + unat (fnv32a 2166136261 n) mod 0x20000000"
proof -
  have "unat (fnv32a 2166136261 n mod ridSynthSpace) = unat (fnv32a 2166136261 n) mod 0x20000000"
    by (simp add: ridSynthSpace_def unat_mod_distrib)
  moreover have "unat (fnv32a 2166136261 n) mod 0x20000000 < 0x20000000" by simp
  ultimately show ?thesis
    by (simp add: ridFromName_def unat_word_ariths)
qed

lemma ridFromName_range: "1000 \<le> unat (ridFromName n) \<and> unat (ridFromName n) < 1000 + 2 ^ 29"
proof -
  have "unat (fnv32a 2166136261 n) mod 0x20000000 < 0x20000000" by simp
  then show ?thesis by (simp add: unat_ridFromName)
qed

section \<open>Groups\<close>

text \<open>The reference: every identifier once, at its first occurrence.\<close>

definition first_occurrences :: "'a list \<Rightarrow> 'a list" where
  "first_occurrences xs = rev (remdups (rev xs))"

lemma remdups_drop: "x \<in> set ys \<Longrightarrow> remdups (xs @ x # ys) = remdups (xs @ ys)"
  by (induction xs) auto

lemma first_occurrences_seen:
  "x \<in> set xs \<Longrightarrow> first_occurrences (xs @ x # ys) = first_occurrences (xs @ ys)"
  using remdups_drop[of x "rev xs" "rev ys"] by (simp add: first_occurrences_def)

lemma first_occurrences_set [simp]: "set (first_occurrences xs) = set xs"
  by (simp add: first_occurrences_def)

lemma first_occurrences_distinct [simp]: "distinct (first_occurrences xs)"
  by (simp add: first_occurrences_def)

lemma first_occurrences_hd: "\<exists>ys. first_occurrences (x # xs) = x # ys"
proof -
  have "\<exists>ys. remdups (zs @ [x]) = ys @ [x]" for zs
    by (induction zs) auto
  then obtain ys where "remdups (rev xs @ [x]) = ys @ [x]" by blast
  then have "first_occurrences (x # xs) = x # rev ys" by (simp add: first_occurrences_def)
  then show ?thesis by blast
qed

lemma add_groups_rids:
  assumes "distinct (map RelativeID ids)" "seen = RelativeID ` set ids"
  shows "map RelativeID (add_groups rid seen ids gs) = first_occurrences (map RelativeID ids @ map rid gs)"
  using assms
proof (induction gs arbitrary: seen ids)
  case Nil
  then show ?case by (simp add: first_occurrences_def distinct_remdups_id)
next
  case (Cons g gs)
  show ?case
  proof (cases "rid g \<in> seen")
    case True
    with Cons show ?thesis by (simp add: first_occurrences_seen)
  next
    case False
    with Cons Cons.IH[of "ids @ [\<lparr>RelativeID = rid g, Attributes = 7\<rparr>]" "insert (rid g) seen"]
    show ?thesis by simp
  qed
qed

lemma add_groups_attributes:
  "\<forall>m \<in> set ids. Attributes m = 7 \<Longrightarrow> m \<in> set (add_groups rid seen ids gs) \<Longrightarrow> Attributes m = 7"
proof (induction gs arbitrary: seen ids)
  case (Cons g gs)
  show ?case
  proof (cases "rid g \<in> seen")
    case True
    with Cons.prems Cons.IH[OF Cons.prems(1)] show ?thesis by simp
  next
    case False
    with Cons.prems show ?thesis
      by (intro Cons.IH[of "ids @ [\<lparr>RelativeID = rid g, Attributes = 7\<rparr>]" "insert (rid g) seen"]) auto
  qed
qed simp

lemma build_groups_rids:
  "map RelativeID (build_groups b gs)
     = first_occurrences (DefaultPrimaryGroupRID b # map (groupRID b) gs)"
  by (simp add: build_groups_def add_groups_rids)

lemma build_groups_rid_set:
  "RelativeID ` set (build_groups b gs) = insert (DefaultPrimaryGroupRID b) (groupRID b ` set gs)"
  using build_groups_rids[of b gs] by (metis first_occurrences_set list.set_map list.simps(15))

lemma build_groups_attributes: "m \<in> set (build_groups b gs) \<Longrightarrow> Attributes m = 7"
  unfolding build_groups_def by (erule add_groups_attributes[rotated]) simp

section \<open>Parsing a SID\<close>

definition decimal :: "string \<Rightarrow> bool" where
  "decimal p = (p \<noteq> [] \<and> (\<forall>c \<in> set p. is_digit c))"

lemma ParseUint_decimal:
  "bits \<le> 64 \<Longrightarrow> (ParseUint p bits = Inr v) = (decimal p \<and> v = decimal_value p \<and> v < 2 ^ bits)"
  by (auto simp: ParseUint_Inr_iff decimal_def)

lemma parse_subs_Inr:
  "(parse_subs s i ps = Inr vs) =
     ((\<forall>p \<in> set ps. decimal p \<and> decimal_value p < 2 ^ 32)
      \<and> vs = map (\<lambda>p. word_of_nat (decimal_value p)) ps)"
proof (induction ps arbitrary: i vs)
  case (Cons p ps)
  show ?case
  proof (cases "ParseUint p 32")
    case (Inl e)
    then have "\<not> (decimal p \<and> decimal_value p < 2 ^ 32)"
      using ParseUint_decimal[of 32 p "decimal_value p"] by auto
    with Inl show ?thesis by auto
  next
    case (Inr v)
    then have "decimal p \<and> v = decimal_value p \<and> v < 2 ^ 32" using ParseUint_decimal[of 32 p v] by simp
    with Inr Cons show ?thesis by (auto simp: result_simps)
  qed
qed auto

lemma parseDomainSID_Inr:
  "parseDomainSID s = Inr sid \<longleftrightarrow>
     (\<exists>auth subs. split_on (CHR ''-'') (TrimSpace s) = ''S'' # ''1'' # auth # subs \<and> 4 \<le> length subs
        \<and> decimal auth \<and> decimal_value auth \<le> 255
        \<and> (\<forall>p \<in> set subs. decimal p \<and> decimal_value p < 2 ^ 32)
        \<and> sid = \<lparr>Revision = 1, SubAuthorityCount = word_of_nat (length subs),
                 IdentifierAuthority = [0, 0, 0, 0, 0, word_of_nat (decimal_value auth)],
                 SubAuthority = map (\<lambda>p. word_of_nat (decimal_value p)) subs\<rparr>)"
  (is "?L = ?R")
proof
  assume L: ?L
  let ?parts = "split_on (CHR ''-'') (TrimSpace s)"
  from L have "\<not> (length ?parts < 7 \<or> ?parts ! 0 \<noteq> ''S'' \<or> ?parts ! 1 \<noteq> ''1'')"
    by (auto simp: parseDomainSID_def Let_def split: if_splits)
  then obtain auth subs where p: "?parts = ''S'' # ''1'' # auth # subs" "4 \<le> length subs"
    by (cases ?parts; cases "tl ?parts"; cases "tl (tl ?parts)") auto
  with L obtain v where "ParseUint auth 64 = Inr v"
    by (auto simp: parseDomainSID_def Let_def split: sum.splits)
  with p L show ?R
    by (auto simp: parseDomainSID_def Let_def ParseUint_decimal parse_subs_Inr result_simps
        split: if_splits)
next
  assume ?R
  then obtain auth subs where p: "split_on (CHR ''-'') (TrimSpace s) = ''S'' # ''1'' # auth # subs"
    "4 \<le> length subs" "decimal auth" "decimal_value auth \<le> 255"
    "\<forall>p \<in> set subs. decimal p \<and> decimal_value p < 2 ^ 32"
    and sid: "sid = \<lparr>Revision = 1, SubAuthorityCount = word_of_nat (length subs),
                 IdentifierAuthority = [0, 0, 0, 0, 0, word_of_nat (decimal_value auth)],
                 SubAuthority = map (\<lambda>p. word_of_nat (decimal_value p)) subs\<rparr>"
    by blast
  from p have "ParseUint auth 64 = Inr (decimal_value auth)" by (simp add: ParseUint_decimal)
  moreover have "parse_subs (TrimSpace s) 0 subs = Inr (map (\<lambda>p. word_of_nat (decimal_value p)) subs)"
    using p by (simp add: parse_subs_Inr)
  ultimately show ?L
    using p sid by (simp add: parseDomainSID_def)
qed

text \<open>The SID as text, and back.\<close>

definition sid_string :: "nat \<Rightarrow> nat list \<Rightarrow> string" where
  "sid_string auth subs = join_with (CHR ''-'') (''S'' # ''1'' # show_nat auth # map show_nat subs)"

lemma set_join_with: "c \<in> set (join_with x ps) \<Longrightarrow> c = x \<or> (\<exists>p \<in> set ps. c \<in> set p)"
  by (induction x ps rule: join_with.induct) auto

lemma is_digit_graphic: "is_digit c \<Longrightarrow> graphic c"
  by (auto simp: is_digit_def digit_val_def graphic_def Let_def split: if_splits)

lemma sid_string_graphic: "c \<in> set (sid_string a subs) \<Longrightarrow> graphic c"
  using show_nat_digits is_digit_graphic
  by (auto simp: sid_string_def graphic_def dest!: set_join_with)

lemma split_sid_string:
  "split_on (CHR ''-'') (sid_string a subs) = ''S'' # ''1'' # show_nat a # map show_nat subs"
  unfolding sid_string_def by (rule split_on_join) (auto simp: show_nat_no_minus)

lemma decimal_show_nat [simp]: "decimal (show_nat n)"
  by (simp add: decimal_def show_nat_digits)

lemma parse_sid_string:
  assumes "4 \<le> length subs" "auth \<le> 255" "\<forall>v \<in> set subs. v < 2 ^ 32"
  shows "parseDomainSID (sid_string auth subs) =
    Inr \<lparr>Revision = 1, SubAuthorityCount = word_of_nat (length subs),
         IdentifierAuthority = [0, 0, 0, 0, 0, word_of_nat auth], SubAuthority = map word_of_nat subs\<rparr>"
proof -
  have "TrimSpace (sid_string auth subs) = sid_string auth subs"
    by (rule TrimSpace_graphic) (rule sid_string_graphic)
  with assms show ?thesis
    by (auto simp: parseDomainSID_Inr split_sid_string comp_def)
qed

section \<open>What a build returns\<close>

definition builder_mapper :: "SyntheticPACBuilder \<Rightarrow> ClaimsMapper" where
  "builder_mapper b =
     (case PB_Mapper b of
        Some m \<Rightarrow> m | None \<Rightarrow> DefaultClaimsMapper_Map \<lparr>GroupsClaim = PB_GroupsClaim b\<rparr>)"

definition builder_admit :: "SyntheticPACBuilder \<Rightarrow> ScopeFilter" where
  "builder_admit b scopes groups =
     (case PB_ScopeFilter b of Some admit \<Rightarrow> admit scopes groups | None \<Rightarrow> groups)"

lemma Build_Inr:
  assumes "SyntheticPACBuilder_Build K b i t = Inr (kvi, ci)"
  obtains subject groups scopes where
    "builder_mapper b i = Inr (subject, groups, scopes)"
    "GroupIDs kvi = build_groups b (builder_admit b scopes groups)"
    "GroupCount kvi = word_of_nat (length (GroupIDs kvi))"
    "PrimaryGroupID kvi = DefaultPrimaryGroupRID b" "UserID kvi = ridFromName subject"
    "LogonDomainID kvi = DomainSID b" "EffectiveName kvi = rpcUnicode subject"
    "ExtraSIDs kvi = []" "SIDCount kvi = 0" "ResourceGroupIDs kvi = []" "ResourceGroupCount kvi = 0"
    "LogOnTime kvi = GetFileTime K (toUTC t)" "ClientID ci = GetFileTime K (toUTC t)"
    "Name ci = subject" "NameLength ci = Length (rpcUnicode subject)"
proof -
  from assms obtain su gs sc where "builder_mapper b i = Inr (su, gs, sc)"
    by (auto simp: SyntheticPACBuilder_Build_def builder_mapper_def Let_def result_simps)
  with assms show thesis
    by (intro that[of su gs sc])
      (auto simp: SyntheticPACBuilder_Build_def builder_mapper_def builder_admit_def
        ridFromSubject_def rpcUnicode_def Let_def split: option.splits)
qed

lemma Build_error_iff:
  "SyntheticPACBuilder_Build K b i t = Inl e \<longleftrightarrow> builder_mapper b i = Inl e"
  by (auto simp: SyntheticPACBuilder_Build_def builder_mapper_def Let_def result_simps
      split: option.splits prod.splits)

section \<open>The interface\<close>

text \<open>
  What the minter relies on in a PAC builder: the client information names the logon time, the
  group count is the number of groups, and no group is listed twice.
\<close>

locale pac_builder =
  fixes K :: krb5
    and build :: "Identity \<Rightarrow> gotime \<Rightarrow> (KerbValidationInfo \<times> ClientInfo) result"
  assumes build_time: "build i t = Inr (kvi, ci) \<Longrightarrow>
      ClientID ci = GetFileTime K (toUTC t) \<and> LogOnTime kvi = ClientID ci"
    and build_count: "build i t = Inr (kvi, ci) \<Longrightarrow> GroupCount kvi = word_of_nat (length (GroupIDs kvi))"
    and build_distinct: "build i t = Inr (kvi, ci) \<Longrightarrow> distinct (map RelativeID (GroupIDs kvi))"
begin

lemma build_count_exact: "build i t = Inr (kvi, ci) \<Longrightarrow> unat (GroupCount kvi) = length (GroupIDs kvi) mod 2 ^ 32"
  by (simp add: build_count unat_of_nat)

end

interpretation spb: pac_builder K "SyntheticPACBuilder_Build K b"
  by unfold_locales (auto elim!: Build_Inr simp: build_groups_rids)

text \<open>What a configured filter lets through.\<close>

lemma Build_granted:
  assumes "SyntheticPACBuilder_Build K b i t = Inr (kvi, ci)" "PB_Mapper b = None"
  shows "\<exists>groups scopes.
    DefaultClaimsMapper_Map \<lparr>GroupsClaim = PB_GroupsClaim b\<rparr> i = Inr (Subject i, groups, scopes)
    \<and> RelativeID ` set (GroupIDs kvi) = insert (DefaultPrimaryGroupRID b) (groupRID b ` set (builder_admit b scopes groups))
    \<and> ExtraSIDs kvi = [] \<and> ResourceGroupIDs kvi = []"
proof -
  from assms(1) obtain su gs sc where m: "builder_mapper b i = Inr (su, gs, sc)"
    and g: "GroupIDs kvi = build_groups b (builder_admit b sc gs)"
    and x: "ExtraSIDs kvi = []" "ResourceGroupIDs kvi = []"
    by (auto elim: Build_Inr)
  from m assms(2) have d: "DefaultClaimsMapper_Map \<lparr>GroupsClaim = PB_GroupsClaim b\<rparr> i = Inr (su, gs, sc)"
    by (simp add: builder_mapper_def)
  with dcm.map_subject have "su = Subject i" by blast
  with d x g show ?thesis by (auto simp: build_groups_rid_set)
qed

lemma admitted_by_scopes:
  "PB_ScopeFilter b = Some (ConfigMapFilter_Admit f) \<Longrightarrow>
   set (builder_admit b scopes groups) = {g \<in> set groups. \<exists>s \<in> set scopes. g \<in> set (scope_groups f s)}"
  by (auto simp: builder_admit_def Admit_filter)

lemma admitted_unfiltered: "PB_ScopeFilter b = None \<Longrightarrow> builder_admit b scopes groups = groups"
  by (simp add: builder_admit_def)

section \<open>Properties\<close>

text \<open>
  C35.  Synthetic relative identifiers clear the well-known range below 1000, stay below
  \<open>1000 + ridSynthSpace\<close> without wrapping around, and fall into at most 2685 bands of 200000.
\<close>

theorem ridFromName_bounds:
  "1000 \<le> unat (ridFromName name) \<and> unat (ridFromName name) < 1000 + unat ridSynthSpace
   \<and> unat (ridFromName name) div 200000 \<le> 2684"
proof -
  have r: "1000 \<le> unat (ridFromName name)" "unat (ridFromName name) < 1000 + unat ridSynthSpace"
    using ridFromName_range[of name] by (simp_all add: ridSynthSpace_def)
  then have "unat (ridFromName name) \<le> 536871911" by (simp add: ridSynthSpace_def)
  then have "unat (ridFromName name) div 200000 \<le> 536871911 div 200000" by (rule div_le_mono)
  with r show ?thesis by simp
qed

text \<open>
  C33.  The groups of a PAC are the primary group followed by the identifiers of the admitted
  groups, each once and at its first occurrence, all with the attribute mask 7.
\<close>

theorem build_groups_first_occurrences:
  "build_groups b admitted =
     map (\<lambda>rid. \<lparr>RelativeID = rid, Attributes = 7\<rparr>)
       (first_occurrences (DefaultPrimaryGroupRID b # map (groupRID b) admitted))"
proof -
  have "map (\<lambda>rid. \<lparr>RelativeID = rid, Attributes = 7\<rparr>) (map RelativeID (build_groups b admitted)) = build_groups b admitted"
    unfolding map_map by (rule map_idI) (simp add: build_groups_attributes)
  then show ?thesis by (simp only: build_groups_rids)
qed

text \<open>
  C34.  \<open>parseDomainSID\<close> accepts exactly the texts (after trimming white space) of the form
  \<open>S-1-a-s1-...-sn\<close> with \<open>n \<ge> 4\<close>, a decimal authority of at most 255 and decimal
  sub-authorities of 32 bits, and returns their values.
\<close>

theorem parseDomainSID_accepts:
  "parseDomainSID s = Inr sid \<longleftrightarrow>
     (\<exists>auth subs. split_on (CHR ''-'') (TrimSpace s) = ''S'' # ''1'' # auth # subs \<and> 4 \<le> length subs
        \<and> decimal auth \<and> decimal_value auth \<le> 255
        \<and> (\<forall>p \<in> set subs. decimal p \<and> decimal_value p < 2 ^ 32)
        \<and> sid = \<lparr>Revision = 1, SubAuthorityCount = word_of_nat (length subs),
                 IdentifierAuthority = [0, 0, 0, 0, 0, word_of_nat (decimal_value auth)],
                 SubAuthority = map (\<lambda>p. word_of_nat (decimal_value p)) subs\<rparr>)"
  by (rule parseDomainSID_Inr)

theorem parseDomainSID_accepts_witness:
  "parseDomainSID (sid_string 5 [21, 1, 2, 3]) =
     Inr \<lparr>Revision = 1, SubAuthorityCount = 4, IdentifierAuthority = [0, 0, 0, 0, 0, 5],
          SubAuthority = [21, 1, 2, 3]\<rparr>"
proof -
  have "TrimSpace (sid_string 5 [21, 1, 2, 3]) = sid_string 5 [21, 1, 2, 3]"
    by (rule TrimSpace_graphic) (rule sid_string_graphic)
  then show ?thesis
    unfolding parseDomainSID_accepts
    by (intro exI[of _ "show_nat 5"] exI[of _ "map show_nat [21, 1, 2, 3]"])
      (simp add: split_sid_string)
qed

text \<open>
  C39.  The sub-authority count is an 8-bit field and the parser does not limit the number of
  sub-authorities: a SID with 256 of them is accepted and its count is 0.
\<close>

theorem parseDomainSID_count_wraps:
  "\<exists>s sid. parseDomainSID s = Inr sid \<and> length (SubAuthority sid) = 256 \<and> SubAuthorityCount sid = 0"
proof -
  have "parseDomainSID (sid_string 5 (replicate 256 1)) =
      Inr \<lparr>Revision = 1, SubAuthorityCount = word_of_nat (length (replicate 256 (1::nat))),
         IdentifierAuthority = [0, 0, 0, 0, 0, word_of_nat 5],
         SubAuthority = map word_of_nat (replicate 256 1)\<rparr>"
    by (rule parse_sid_string) auto
  moreover have "(word_of_nat (length (replicate 256 (1::nat))) :: byte) = 0" by simp
  ultimately show ?thesis by (intro exI conjI) auto
qed

text \<open>
  The lengths in a PAC string are the number of bytes of its UTF-16 encoding modulo \<open>2 ^ 16\<close>,
  so they are exact for every name of fewer than 32768 code units, in particular for an ASCII name
  of fewer than 32768 characters.
\<close>

lemma rpcUnicode_length:
  assumes "\<forall>c \<in> set s. (of_char c :: nat) < 0x80" "length s < 32768"
  shows "unat (Length (rpcUnicode s)) = 2 * length s \<and> MaximumLength (rpcUnicode s) = Length (rpcUnicode s)
    \<and> Value (rpcUnicode s) = s"
proof -
  have l: "utf16_len s = length s" by (rule utf16_len_ascii) (use assms(1) in blast)
  have "unat (word_of_nat (2 * length s) :: 16 word) = 2 * length s"
    unfolding unat_of_nat using assms(2) by simp
  with l show ?thesis
    by (simp add: rpcUnicode_def Let_def mult.commute)
qed

text \<open>A builder whose filter knows one scope, and a token with two groups and that scope.\<close>

definition sample_filter :: ConfigMapFilter where
  "sample_filter = \<lparr>ScopeGroups = [''mail.read'' \<mapsto> [''staff'', ''mail'']]\<rparr>"

definition sample_sid :: RPCSID where
  "sample_sid = \<lparr>Revision = 1, SubAuthorityCount = 4, IdentifierAuthority = [0, 0, 0, 0, 0, 5],
     SubAuthority = [21, 1, 2, 3]\<rparr>"

definition sample_builder :: SyntheticPACBuilder where
  "sample_builder = \<lparr>DomainSID = sample_sid, DefaultPrimaryGroupRID = 513, PB_GroupsClaim = [],
     GroupOverrides = [''staff'' \<mapsto> 1104, ''admins'' \<mapsto> 512],
     PB_ScopeFilter = Some (ConfigMapFilter_Admit sample_filter), PB_Mapper = None\<rparr>"

definition sample_identity :: "gotime \<Rightarrow> Identity" where
  "sample_identity x = \<lparr>Subject = ''alice'',
     Claims = string_of (render_claims [''staff'', ''admins''] ''mail.read openid''), Expiry = x\<rparr>"

lemma sample_map:
  "DefaultClaimsMapper_Map \<lparr>GroupsClaim = []\<rparr> (sample_identity x)
     = Inr (''alice'', [''staff'', ''admins''], [''mail.read'', ''openid''])"
proof -
  have "plain ''staff'' \<and> plain ''admins'' \<and> plain ''mail.read openid''"
    by (simp add: plain_def plain_bytes_def plain_byte_def bytes_of_def)
  then have "DefaultClaimsMapper_Map \<lparr>GroupsClaim = []\<rparr> (sample_identity x)
     = Inr (''alice'', filter (\<lambda>s. TrimSpace s \<noteq> []) [''staff'', ''admins''], fields_func is_sep ''mail.read openid'')"
    unfolding sample_identity_def
    by (subst map_render[where groups = "[''staff'', ''admins'']" and scope = "''mail.read openid''"]) auto
  moreover have "TrimSpace ''staff'' = ''staff''" "TrimSpace ''admins'' = ''admins''"
    by (rule TrimSpace_graphic; auto simp: graphic_def)+
  ultimately show ?thesis
    by (simp add: fields_func.simps is_sep_def)
qed

lemma sample_build:
  "\<exists>kvi ci. SyntheticPACBuilder_Build sample_krb5 sample_builder (sample_identity x) t = Inr (kvi, ci)
     \<and> map RelativeID (GroupIDs kvi) = [513, 1104]"
  by (simp add: SyntheticPACBuilder_Build_def sample_builder_def sample_map sample_filter_def
      ConfigMapFilter_Admit_def scope_groups_def build_groups_def groupRID_def)

end
