(* ===== verification/Minter.thy ===== *)
theory Minter
  imports KeySource PacBuilder
begin

text \<open>
  Direct ticket minting (\<open>src/minter.go\<close>, \<open>src/authdata.go\<close>): the options and the result of
  \<open>Mint\<close>, the wrapping of a PAC as authorization data, and \<open>DirectMinter.Mint\<close> with its
  error on every branch.
\<close>

record MintOptions =
  mo_ClientName :: PrincipalName
  mo_ClientRealm :: string
  mo_Identity :: Identity
  mo_AuthTime :: gotime
  mo_StartTime :: gotime
  mo_EndTime :: gotime
  mo_RenewTill :: gotime

record MintedTicket =
  mt_Ticket :: Ticket
  mt_SessionKey :: EncryptionKey
  mt_ClientName :: PrincipalName
  mt_ClientRealm :: string
  mt_Target :: ServicePrincipal
  mt_AuthTime :: gotime
  mt_EndTime :: gotime

text \<open>The interfaces \<open>PACBuilder\<close> and \<open>Minter\<close>, each of one method.\<close>

type_synonym PACBuilder = "Identity \<Rightarrow> gotime \<Rightarrow> (KerbValidationInfo \<times> ClientInfo) result"
type_synonym Minter = "world \<Rightarrow> ServicePrincipal \<Rightarrow> MintOptions \<Rightarrow> MintedTicket result"

record DirectMinter =
  dm_keys :: KeySource
  dm_defaultRealm :: string
  pacBuilder :: "PACBuilder option"

definition NewDirectMinter :: "KeySource \<Rightarrow> string \<Rightarrow> DirectMinter" where
  "NewDirectMinter keys realm = \<lparr>dm_keys = keys, dm_defaultRealm = realm, pacBuilder = None\<rparr>"

definition WithPACBuilder :: "DirectMinter \<Rightarrow> PACBuilder \<Rightarrow> DirectMinter" where
  "WithPACBuilder m b = m\<lparr>pacBuilder := Some b\<rparr>"

text \<open>\<open>AD-IF-RELEVANT { AD-WIN2K-PAC { pac } }\<close>.\<close>

definition pacAuthorizationData :: "krb5 \<Rightarrow> bytes \<Rightarrow> AuthorizationData result" where
  "pacAuthorizationData K pacBytes =
     attempt (Marshal_AuthorizationData K [\<lparr>ADType = ADWin2KPAC K, ADData = pacBytes\<rparr>]) (\<lambda>innerBytes.
       Inr [\<lparr>ADType = ADIfRelevant K, ADData = innerBytes\<rparr>])"

text \<open>The block of \<open>Mint\<close> that builds, signs and wraps the PAC; no builder, no authorization data.\<close>

definition mint_authdata ::
    "krb5 \<Rightarrow> DirectMinter \<Rightarrow> EncryptionKey \<Rightarrow> Identity \<Rightarrow> gotime \<Rightarrow> AuthorizationData result" where
  "mint_authdata K m skey identity authTime =
     (case pacBuilder m of
        None \<Rightarrow> Inr []
      | Some build \<Rightarrow>
          attempt (on_err (wrapf ''kerbexchange: build PAC: '') (build identity authTime)) (\<lambda>(kvi, ci).
          attempt (KDCSigningKey (dm_keys m) (AES256_CTS_HMAC_SHA1_96 K)) (\<lambda>(kdcKey, _).
          attempt (on_err (wrapf ''kerbexchange: sign PAC: '') (SignAndMarshal K kvi ci skey kdcKey)) (\<lambda>pacBytes.
          pacAuthorizationData K pacBytes))))"

definition DirectMinter_Mint :: "krb5 \<Rightarrow> DirectMinter \<Rightarrow> Minter" where
  "DirectMinter_Mint K m w spn opts =
     (let srealm = (if Realm spn = [] then dm_defaultRealm m else Realm spn) in
      if IsZero (mo_EndTime opts)
      then Inl (errors_New ''kerbexchange: mint requires a non-zero EndTime'')
      else if \<not> After (mo_EndTime opts) (mo_AuthTime opts)
      then Inl (errors_New ''kerbexchange: EndTime must be after AuthTime'')
      else
      attempt (on_err (wrapf ''kerbexchange: mint: get service key: '')
                 (ServiceKey (dm_keys m) spn (AES256_CTS_HMAC_SHA1_96 K))) (\<lambda>(skey, kvno).
      attempt (on_err (wrapf ''kerbexchange: mint: get etype: '') (GetEtype K (KeyType skey))) (\<lambda>et.
      attempt (on_err (wrapf ''kerbexchange: mint: generate session key: '')
                 (GenerateEncryptionKey K w et)) (\<lambda>sessionKey.
      let crealm = (if mo_ClientRealm opts = [] then dm_defaultRealm m else mo_ClientRealm opts);
          authTime = toUTC (mo_AuthTime opts);
          endTime = toUTC (mo_EndTime opts);
          renewTill = toUTC (mo_RenewTill opts);
          startTime = (if IsZero (mo_StartTime opts) then authTime else toUTC (mo_StartTime opts));
          flags = NewKrbFlags K
      in
      attempt (mint_authdata K m skey (mo_Identity opts) authTime) (\<lambda>authData.
      let etp = \<lparr>Flags = flags, Key = sessionKey, CRealm = crealm, CName = mo_ClientName opts,
                 Transited = NoTransited, AuthTime = authTime, StartTime = startTime,
                 EndTime = endTime, RenewTill = renewTill, AuthorizationData = authData\<rparr>
      in
      attempt (on_err (wrapf ''kerbexchange: mint: marshal EncTicketPart: '')
                 (Marshal_EncTicketPart K etp)) (\<lambda>plain0.
      let plain = AddASNAppTag K plain0 (EncTicketPart_tag K) in
      attempt (on_err (wrapf ''kerbexchange: mint: encrypt EncTicketPart: '')
                 (GetEncryptedData K w plain skey (KDC_REP_TICKET K) kvno)) (\<lambda>ed.
      let sname = \<lparr>NameType = KRB_NT_SRV_HST K, NameString = [Service spn, Host spn]\<rparr>;
          tkt = \<lparr>TktVNO = PVNO K, TktRealm = srealm, SName = sname, EncPart = ed\<rparr>
      in
      Inr \<lparr>mt_Ticket = tkt, mt_SessionKey = sessionKey, mt_ClientName = mo_ClientName opts,
           mt_ClientRealm = crealm,
           mt_Target = \<lparr>Service = Service spn, Host = Host spn, Realm = srealm\<rparr>,
           mt_AuthTime = authTime, mt_EndTime = endTime\<rparr>)))))))"

section \<open>What a minted ticket is\<close>

text \<open>The plain content of a ticket, as the source builds it from its inputs.\<close>

definition ticket_part ::
    "krb5 \<Rightarrow> DirectMinter \<Rightarrow> MintOptions \<Rightarrow> EncryptionKey \<Rightarrow> AuthorizationData \<Rightarrow> EncTicketPart" where
  "ticket_part K m opts sessionKey authData =
     \<lparr>Flags = NewKrbFlags K, Key = sessionKey,
      CRealm = (if mo_ClientRealm opts = [] then dm_defaultRealm m else mo_ClientRealm opts),
      CName = mo_ClientName opts, Transited = NoTransited, AuthTime = toUTC (mo_AuthTime opts),
      StartTime = (if IsZero (mo_StartTime opts) then toUTC (mo_AuthTime opts) else toUTC (mo_StartTime opts)),
      EndTime = toUTC (mo_EndTime opts), RenewTill = toUTC (mo_RenewTill opts),
      AuthorizationData = authData\<rparr>"

lemma Mint_Inr:
  assumes "DirectMinter_Mint K m w spn opts = Inr t"
  obtains skey kvno et authData plain where
    "\<not> IsZero (mo_EndTime opts)" "After (mo_EndTime opts) (mo_AuthTime opts)"
    "ServiceKey (dm_keys m) spn (AES256_CTS_HMAC_SHA1_96 K) = Inr (skey, kvno)"
    "GetEtype K (KeyType skey) = Inr et" "GenerateEncryptionKey K w et = Inr (mt_SessionKey t)"
    "mint_authdata K m skey (mo_Identity opts) (toUTC (mo_AuthTime opts)) = Inr authData"
    "Marshal_EncTicketPart K (ticket_part K m opts (mt_SessionKey t) authData) = Inr plain"
    "GetEncryptedData K w (AddASNAppTag K plain (EncTicketPart_tag K)) skey (KDC_REP_TICKET K) kvno
       = Inr (EncPart (mt_Ticket t))"
  using assms
  by (auto simp: DirectMinter_Mint_def Let_def result_simps ticket_part_def split: if_splits)

lemma Mint_fields:
  assumes "DirectMinter_Mint K m w spn opts = Inr t"
  shows "mt_Target t = spn\<lparr>Realm := if Realm spn = [] then dm_defaultRealm m else Realm spn\<rparr>"
    and "TktRealm (mt_Ticket t) = Realm (mt_Target t)"
    and "SName (mt_Ticket t) = \<lparr>NameType = KRB_NT_SRV_HST K, NameString = [Service spn, Host spn]\<rparr>"
    and "TktVNO (mt_Ticket t) = PVNO K"
    and "mt_ClientName t = mo_ClientName opts"
    and "mt_ClientRealm t = (if mo_ClientRealm opts = [] then dm_defaultRealm m else mo_ClientRealm opts)"
    and "mt_AuthTime t = toUTC (mo_AuthTime opts)" "mt_EndTime t = toUTC (mo_EndTime opts)"
  using assms
  by (cases spn; auto simp: DirectMinter_Mint_def Let_def result_simps split: if_splits)+

lemma mint_authdata_Inr:
  assumes "mint_authdata K m skey i t = Inr ad" "pacBuilder m = Some build"
  obtains kvi ci kdcKey kv pac inner where
    "build i t = Inr (kvi, ci)" "KDCSigningKey (dm_keys m) (AES256_CTS_HMAC_SHA1_96 K) = Inr (kdcKey, kv)"
    "SignAndMarshal K kvi ci skey kdcKey = Inr pac"
    "Marshal_AuthorizationData K [\<lparr>ADType = ADWin2KPAC K, ADData = pac\<rparr>] = Inr inner"
    "ad = [\<lparr>ADType = ADIfRelevant K, ADData = inner\<rparr>]"
  using assms by (auto simp: mint_authdata_def pacAuthorizationData_def result_simps)

section \<open>The interface\<close>

text \<open>
  What the service relies on in a minter: the ticket is for the principal asked for (its realm
  filled in when it had none), names the client asked for, and ends when asked to, with a
  positive lifetime.
\<close>

locale minter =
  fixes mint :: Minter
  assumes mint_target: "mint w spn opts = Inr t \<Longrightarrow>
      Service (mt_Target t) = Service spn \<and> Host (mt_Target t) = Host spn
      \<and> (Realm spn \<noteq> [] \<longrightarrow> mt_Target t = spn)"
    and mint_client: "mint w spn opts = Inr t \<Longrightarrow> mt_ClientName t = mo_ClientName opts"
    and mint_end: "mint w spn opts = Inr t \<Longrightarrow> mt_EndTime t = toUTC (mo_EndTime opts)"
    and mint_lifetime: "mint w spn opts = Inr t \<Longrightarrow> After (mo_EndTime opts) (mo_AuthTime opts)"
begin

lemma mint_lifetime_positive: "mint w spn opts = Inr t \<Longrightarrow> ns (mo_AuthTime opts) < ns (mt_EndTime t)"
  using mint_lifetime[of w spn opts t] mint_end[of w spn opts t] by (simp add: After_def toUTC_def)

lemma mint_closed: "\<not> After (mo_EndTime opts) (mo_AuthTime opts) \<Longrightarrow> \<exists>e. mint w spn opts = Inl e"
  using mint_lifetime[of w spn opts] by (cases "mint w spn opts") auto

end

interpretation dm: minter "DirectMinter_Mint K m"
  by unfold_locales (auto dest: Mint_fields elim: Mint_Inr)

section \<open>Properties\<close>

text \<open>The instance the witnesses below evaluate.\<close>

definition sample_minter :: DirectMinter where
  "sample_minter = WithPACBuilder
     (NewDirectMinter (keytab_keys sample_krb5 (NewKeytabSource 7 ''EXAMPLE.COM'')) ''EXAMPLE.COM'')
     (SyntheticPACBuilder_Build sample_krb5 sample_builder)"

definition sample_opts :: MintOptions where
  "sample_opts = \<lparr>mo_ClientName = \<lparr>NameType = 1, NameString = [''alice'']\<rparr>, mo_ClientRealm = [],
     mo_Identity = sample_identity zeroTime, mo_AuthTime = \<lparr>ns = 10, zone = Local\<rparr>, mo_StartTime = zeroTime,
     mo_EndTime = \<lparr>ns = 20, zone = Local\<rparr>, mo_RenewTill = zeroTime\<rparr>"

definition sample_target :: ServicePrincipal where
  "sample_target = \<lparr>Service = ''HTTP'', Host = ''web.example.com'', Realm = []\<rparr>"

definition sample_world :: world where
  "sample_world = \<lparr>now_get = \<lparr>ns = 10, zone = Local\<rparr>, now_issue = \<lparr>ns = 10, zone = Local\<rparr>,
     now_reply = \<lparr>ns = 11, zone = Local\<rparr>, outside = 42\<rparr>"

lemmas sample_eval = sample_minter_def sample_opts_def sample_target_def sample_world_def
  WithPACBuilder_def NewDirectMinter_def keytab_keys_def NewKeytabSource_def sample_krb5_def
  KeytabSource_ServiceKey_def KeytabSource_KDCSigningKey_def sample_key_def
  IsZero_def After_def toUTC_def

lemma sample_mint_builder:
  assumes "Service spn = ''HTTP''" "dm_keys m = keytab_keys sample_krb5 (NewKeytabSource h realm)"
    and "pacBuilder m = Some build" "build (mo_Identity opts) (toUTC (mo_AuthTime opts)) = Inr p"
    and "\<not> IsZero (mo_EndTime opts)" "After (mo_EndTime opts) (mo_AuthTime opts)"
  shows "\<exists>t. DirectMinter_Mint sample_krb5 m w spn opts = Inr t"
proof -
  let ?sk = "sample_key ''HTTP''"
  obtain kvi ci where p: "p = (kvi, ci)" by fastforce
  have "KDCSigningKey (dm_keys m) (AES256_CTS_HMAC_SHA1_96 sample_krb5) = Inr (sample_key ''krbtgt'', 2)"
    using assms(2) by (simp add: keytab_keys_def KeytabSource_KDCSigningKey_def NewKeytabSource_def sample_krb5_def
        split: list.split)
  then have "\<exists>ad. mint_authdata sample_krb5 m ?sk (mo_Identity opts) (toUTC (mo_AuthTime opts)) = Inr ad"
    using assms(3,4) by (simp add: mint_authdata_def p) (simp add: sample_krb5_def pacAuthorizationData_def)
  then obtain ad where "mint_authdata sample_krb5 m ?sk (mo_Identity opts) (toUTC (mo_AuthTime opts)) = Inr ad" ..
  moreover have "ServiceKey (dm_keys m) spn (AES256_CTS_HMAC_SHA1_96 sample_krb5) = Inr (?sk, 2)"
    using assms(1,2) by (simp add: sample_eval)
  moreover have "GetEtype sample_krb5 (KeyType ?sk) = Inr 18" by (simp add: sample_eval)
  ultimately show ?thesis using assms(5,6)
    by (simp add: DirectMinter_Mint_def Let_def) (simp add: sample_krb5_def)
qed

lemma sample_mint_any:
  assumes "Service spn = ''HTTP''" "mo_Identity opts = sample_identity x"
    and "\<not> IsZero (mo_EndTime opts)" "After (mo_EndTime opts) (mo_AuthTime opts)"
  shows "\<exists>t. DirectMinter_Mint sample_krb5 sample_minter w spn opts = Inr t"
proof -
  obtain kvi ci where "SyntheticPACBuilder_Build sample_krb5 sample_builder (mo_Identity opts) (toUTC (mo_AuthTime opts)) = Inr (kvi, ci)"
    using sample_build assms(2) by metis
  moreover have "dm_keys sample_minter = keytab_keys sample_krb5 (NewKeytabSource 7 ''EXAMPLE.COM'')"
    "pacBuilder sample_minter = Some (SyntheticPACBuilder_Build sample_krb5 sample_builder)"
    by (simp_all add: sample_minter_def WithPACBuilder_def NewDirectMinter_def)
  ultimately show ?thesis using assms(1,3,4) sample_mint_builder by blast
qed

lemma sample_mint: "\<exists>t. DirectMinter_Mint sample_krb5 sample_minter sample_world sample_target sample_opts = Inr t"
  by (rule sample_mint_any) (simp_all add: sample_eval)

text \<open>
  C6.  What a minted ticket contains.  If \<open>Mint\<close> succeeds, the ticket is for the principal asked
  for in its realm (or the default one), and decrypting it with the service key of that principal
  and the ticket key usage yields exactly the encoding of a ticket part with the fresh session key,
  the client's name and realm, and all four times in UTC, the start time defaulting to the
  authentication time.  \<open>dec\<close> is any decryption that inverts the library's encryption.
\<close>

theorem Mint_decrypts:
  assumes "DirectMinter_Mint K m w spn opts = Inr t"
    and dec: "\<And>w plain key usage kvno ed.
      GetEncryptedData K w plain key usage kvno = Inr ed \<Longrightarrow> dec key usage (Cipher ed) = Some plain"
  shows "\<exists>skey kvno etp plain.
      ServiceKey (dm_keys m) spn (AES256_CTS_HMAC_SHA1_96 K) = Inr (skey, kvno)
      \<and> dec skey (KDC_REP_TICKET K) (Cipher (EncPart (mt_Ticket t))) = Some (AddASNAppTag K plain (EncTicketPart_tag K))
      \<and> Marshal_EncTicketPart K etp = Inr plain
      \<and> Key etp = mt_SessionKey t \<and> CName etp = mo_ClientName opts \<and> CRealm etp = mt_ClientRealm t
      \<and> AuthTime etp = toUTC (mo_AuthTime opts) \<and> EndTime etp = toUTC (mo_EndTime opts)
      \<and> StartTime etp = toUTC (if IsZero (mo_StartTime opts) then mo_AuthTime opts else mo_StartTime opts)
      \<and> RenewTill etp = toUTC (mo_RenewTill opts)
      \<and> SName (mt_Ticket t) = \<lparr>NameType = KRB_NT_SRV_HST K, NameString = [Service spn, Host spn]\<rparr>
      \<and> TktRealm (mt_Ticket t) = (if Realm spn = [] then dm_defaultRealm m else Realm spn)"
proof -
  from assms(1) obtain skey kvno ad plain where
    k: "ServiceKey (dm_keys m) spn (AES256_CTS_HMAC_SHA1_96 K) = Inr (skey, kvno)"
    and p: "Marshal_EncTicketPart K (ticket_part K m opts (mt_SessionKey t) ad) = Inr plain"
    and e: "GetEncryptedData K w (AddASNAppTag K plain (EncTicketPart_tag K)) skey (KDC_REP_TICKET K) kvno
       = Inr (EncPart (mt_Ticket t))"
    by (rule Mint_Inr)
  show ?thesis
    by (intro exI[of _ skey] exI[of _ kvno] exI[of _ "ticket_part K m opts (mt_SessionKey t) ad"] exI[of _ plain])
      (use k p dec[OF e] Mint_fields[OF assms(1)] in \<open>simp add: ticket_part_def\<close>)
qed

theorem Mint_decrypts_witness:
  "\<exists>t skey kvno etp plain.
      DirectMinter_Mint sample_krb5 sample_minter sample_world sample_target sample_opts = Inr t
      \<and> ServiceKey (dm_keys sample_minter) sample_target 18 = Inr (skey, kvno)
      \<and> drop (length (KeyValue skey)) (Cipher (EncPart (mt_Ticket t))) = 99 # plain
      \<and> Marshal_EncTicketPart sample_krb5 etp = Inr plain \<and> zone (EndTime etp) = UTC"
proof -
  obtain t where t: "DirectMinter_Mint sample_krb5 sample_minter sample_world sample_target sample_opts = Inr t"
    using sample_mint by blast
  define dec where "dec key (usage :: int) c = Some (drop (length (KeyValue key)) (c :: bytes))"
    for key :: EncryptionKey and usage c
  have c: "EncTicketPart_tag sample_krb5 = 3" "AES256_CTS_HMAC_SHA1_96 sample_krb5 = 18"
    "\<And>b. AddASNAppTag sample_krb5 b 3 = 99 # b"
    by (simp_all add: sample_krb5_def)
  have "dec key usage (Cipher ed) = Some plain"
    if "GetEncryptedData sample_krb5 w plain key usage kvno = Inr ed" for w plain key usage kvno ed
    using that by (auto simp: sample_krb5_def dec_def)
  from Mint_decrypts[where dec = dec, OF t this] show ?thesis
    using t unfolding c dec_def by (fastforce simp: toUTC_def)
qed

text \<open>
  When \<open>Mint\<close> returns a ticket, exactly: the end time is set and after the authentication
  time, the key source has a key for the principal, the library can make a session key for its
  type, the PAC (if one is configured) can be built and signed, and the ticket part can be encoded
  and encrypted.  In every other case it returns an error and no ticket.
\<close>

lemma Mint_succeeds_iff:
  "(\<exists>t. DirectMinter_Mint K m w spn opts = Inr t) \<longleftrightarrow>
     ns (mo_EndTime opts) \<noteq> 0 \<and> ns (mo_AuthTime opts) < ns (mo_EndTime opts)
     \<and> (\<exists>skey kvno et sessionKey authData plain ed.
          ServiceKey (dm_keys m) spn (AES256_CTS_HMAC_SHA1_96 K) = Inr (skey, kvno)
          \<and> GetEtype K (KeyType skey) = Inr et \<and> GenerateEncryptionKey K w et = Inr sessionKey
          \<and> mint_authdata K m skey (mo_Identity opts) (toUTC (mo_AuthTime opts)) = Inr authData
          \<and> Marshal_EncTicketPart K (ticket_part K m opts sessionKey authData) = Inr plain
          \<and> GetEncryptedData K w (AddASNAppTag K plain (EncTicketPart_tag K)) skey (KDC_REP_TICKET K) kvno = Inr ed)"
  (is "?l \<longleftrightarrow> ?r")
proof
  assume ?l
  then show ?r by (auto elim!: Mint_Inr simp: IsZero_def After_def)
next
  assume ?r
  then show ?l by (auto simp: DirectMinter_Mint_def Let_def ticket_part_def IsZero_def After_def)
qed

text \<open>
  A principal the keytab has no key for: with valid times, \<open>Mint\<close> reports the wrapped
  \<open>ErrNoServiceKey\<close>.  With a PAC builder that succeeds, a missing KDC signing key is reported as
  \<open>ErrNoServiceKey\<close> too, and no ticket without a PAC is minted instead.
\<close>

lemma Mint_no_service_key:
  assumes "dm_keys m = keytab_keys K s" "DirectMinter_Mint K m w spn opts = Inl e"
    and "\<not> IsZero (mo_EndTime opts)" "After (mo_EndTime opts) (mo_AuthTime opts)"
    and "KeytabSource_ServiceKey K s spn (AES256_CTS_HMAC_SHA1_96 K) = Inl e1
       \<or> pacBuilder m = Some build
         \<and> build (mo_Identity opts) (toUTC (mo_AuthTime opts)) = Inr p
         \<and> KeytabSource_KDCSigningKey K s (AES256_CTS_HMAC_SHA1_96 K) = Inl e2
         \<and> (\<exists>sk. KeytabSource_ServiceKey K s spn (AES256_CTS_HMAC_SHA1_96 K) = Inr sk
             \<and> (\<exists>et key. GetEtype K (KeyType (fst sk)) = Inr et \<and> GenerateEncryptionKey K w et = Inr key))"
  shows "errors_Is e ErrNoServiceKey"
  using assms(5)
proof
  assume k: "KeytabSource_ServiceKey K s spn (AES256_CTS_HMAC_SHA1_96 K) = Inl e1"
  with assms(1-4) have "e = wrapf ''kerbexchange: mint: get service key: '' e1"
    by (simp add: DirectMinter_Mint_def keytab_keys_def)
  with kts.service_key_error[OF k] show ?thesis by simp
next
  assume "pacBuilder m = Some build
         \<and> build (mo_Identity opts) (toUTC (mo_AuthTime opts)) = Inr p
         \<and> KeytabSource_KDCSigningKey K s (AES256_CTS_HMAC_SHA1_96 K) = Inl e2
         \<and> (\<exists>sk. KeytabSource_ServiceKey K s spn (AES256_CTS_HMAC_SHA1_96 K) = Inr sk
             \<and> (\<exists>et key. GetEtype K (KeyType (fst sk)) = Inr et \<and> GenerateEncryptionKey K w et = Inr key))"
  with assms(1-4) have "e = e2" "KeytabSource_KDCSigningKey K s (AES256_CTS_HMAC_SHA1_96 K) = Inl e2"
    by (cases p, auto simp: DirectMinter_Mint_def keytab_keys_def mint_authdata_def Let_def)+
  with kts.kdc_key_error show ?thesis by blast
qed

text \<open>
  C9.  The PAC of a minted ticket: with a synthetic PAC builder configured, the authorization data
  is one AD-IF-RELEVANT element around the PAC, signed under the very service key the ticket is
  encrypted with and the KDC signing key, and built for the identity of the options at the UTC
  authentication time; its groups are distinct and counted.
\<close>

theorem Mint_embeds_pac:
  assumes "DirectMinter_Mint K m w spn opts = Inr t" "pacBuilder m = Some (SyntheticPACBuilder_Build K b)"
  shows "\<exists>skey kvno kdcKey kv kvi ci pac inner plain.
      ServiceKey (dm_keys m) spn (AES256_CTS_HMAC_SHA1_96 K) = Inr (skey, kvno)
      \<and> KDCSigningKey (dm_keys m) (AES256_CTS_HMAC_SHA1_96 K) = Inr (kdcKey, kv)
      \<and> SyntheticPACBuilder_Build K b (mo_Identity opts) (mt_AuthTime t) = Inr (kvi, ci)
      \<and> SignAndMarshal K kvi ci skey kdcKey = Inr pac
      \<and> Marshal_AuthorizationData K [\<lparr>ADType = ADWin2KPAC K, ADData = pac\<rparr>] = Inr inner
      \<and> Marshal_EncTicketPart K (ticket_part K m opts (mt_SessionKey t)
            [\<lparr>ADType = ADIfRelevant K, ADData = inner\<rparr>]) = Inr plain
      \<and> GetEncryptedData K w (AddASNAppTag K plain (EncTicketPart_tag K)) skey (KDC_REP_TICKET K) kvno
          = Inr (EncPart (mt_Ticket t))
      \<and> distinct (map RelativeID (GroupIDs kvi)) \<and> GroupCount kvi = word_of_nat (length (GroupIDs kvi))
      \<and> ClientID ci = LogOnTime kvi"
proof -
  from assms(1) obtain skey kvno ad plain where
    k: "ServiceKey (dm_keys m) spn (AES256_CTS_HMAC_SHA1_96 K) = Inr (skey, kvno)"
    and a: "mint_authdata K m skey (mo_Identity opts) (toUTC (mo_AuthTime opts)) = Inr ad"
    and p: "Marshal_EncTicketPart K (ticket_part K m opts (mt_SessionKey t) ad) = Inr plain"
    and e: "GetEncryptedData K w (AddASNAppTag K plain (EncTicketPart_tag K)) skey (KDC_REP_TICKET K) kvno
       = Inr (EncPart (mt_Ticket t))"
    by (rule Mint_Inr)
  from a assms(2) obtain kvi ci kdcKey kv pac inner where
    b: "SyntheticPACBuilder_Build K b (mo_Identity opts) (toUTC (mo_AuthTime opts)) = Inr (kvi, ci)"
    and r: "KDCSigningKey (dm_keys m) (AES256_CTS_HMAC_SHA1_96 K) = Inr (kdcKey, kv)"
      "SignAndMarshal K kvi ci skey kdcKey = Inr pac"
      "Marshal_AuthorizationData K [\<lparr>ADType = ADWin2KPAC K, ADData = pac\<rparr>] = Inr inner"
      "ad = [\<lparr>ADType = ADIfRelevant K, ADData = inner\<rparr>]"
    by (rule mint_authdata_Inr)
  have t: "mt_AuthTime t = toUTC (mo_AuthTime opts)" by (rule Mint_fields(7)[OF assms(1)])
  show ?thesis
    by (intro exI[of _ skey] exI[of _ kvno] exI[of _ kdcKey] exI[of _ kv] exI[of _ kvi] exI[of _ ci]
        exI[of _ pac] exI[of _ inner] exI[of _ plain])
      (use k p e b r spb.build_distinct[OF b] spb.build_count[OF b] spb.build_time[OF b] t in simp)
qed

theorem Mint_embeds_pac_witness:
  "\<exists>t kvi ci. DirectMinter_Mint sample_krb5 sample_minter sample_world sample_target sample_opts = Inr t
     \<and> SyntheticPACBuilder_Build sample_krb5 sample_builder (sample_identity zeroTime) (mt_AuthTime t) = Inr (kvi, ci)
     \<and> distinct (map RelativeID (GroupIDs kvi))"
proof -
  obtain t where t: "DirectMinter_Mint sample_krb5 sample_minter sample_world sample_target sample_opts = Inr t"
    using sample_mint by blast
  have "pacBuilder sample_minter = Some (SyntheticPACBuilder_Build sample_krb5 sample_builder)"
    by (simp add: sample_minter_def WithPACBuilder_def)
  from Mint_embeds_pac[OF t this] t show ?thesis by (auto simp: sample_opts_def)
qed

end
