(* ===== verification/Interop.thy ===== *)
theory Interop
  imports Minter
begin

text \<open>
  Reading a minted ticket back, as the interop fixture does it
  (\<open>src/test/interop/mint/main.go\<close>): decrypting the ticket, finding the PAC in its authorization
  data and listing the SIDs in it.  The reading half of the Kerberos library is the parameter
  \<open>krb5_reader\<close>.
\<close>

record krb5_reader =
  DecryptMessage :: "bytes \<Rightarrow> EncryptionKey \<Rightarrow> int \<Rightarrow> bytes result"
  Unmarshal_EncTicketPart :: "bytes \<Rightarrow> EncTicketPart result"
  Unmarshal_AuthorizationData :: "bytes \<Rightarrow> AuthorizationData result"
  PAC_Unmarshal :: "bytes \<Rightarrow> handle result"
  ProcessPACInfoBuffers :: "handle \<Rightarrow> EncryptionKey \<Rightarrow> KerbValidationInfo result"
  SID_String :: "RPCSID \<Rightarrow> string"
  GetGroupMembershipSIDs :: "KerbValidationInfo \<Rightarrow> string list"

text \<open>The inner and the outer loop of \<open>extractPAC\<close>.\<close>

fun inner_pac :: "krb5 \<Rightarrow> AuthorizationData \<Rightarrow> bytes option" where
  "inner_pac K [] = None"
| "inner_pac K (ie # inner) = (if ADType ie = ADWin2KPAC K then Some (ADData ie) else inner_pac K inner)"

fun outer_pac :: "krb5 \<Rightarrow> krb5_reader \<Rightarrow> AuthorizationData \<Rightarrow> bytes result" where
  "outer_pac K R [] = Inl (errors_New ''no AD-WIN2K-PAC in the minted ticket'')"
| "outer_pac K R (e # es) =
     (if ADType e \<noteq> ADIfRelevant K then outer_pac K R es
      else attempt (on_err (fatal ''unmarshal AD-IF-RELEVANT: '') (Unmarshal_AuthorizationData R (ADData e))) (\<lambda>inner.
             case inner_pac K inner of Some b \<Rightarrow> Inr b | None \<Rightarrow> outer_pac K R es))"

definition extractPAC :: "krb5 \<Rightarrow> krb5_reader \<Rightarrow> bytes \<Rightarrow> bytes result" where
  "extractPAC K R encTicketPart =
     attempt (on_err (fatal ''unmarshal EncTicketPart: '') (Unmarshal_EncTicketPart R encTicketPart)) (\<lambda>etp.
       outer_pac K R (AuthorizationData etp))"

definition pacSIDs :: "krb5_reader \<Rightarrow> bytes \<Rightarrow> EncryptionKey \<Rightarrow> (string \<times> string list) result" where
  "pacSIDs R pacBytes key =
     attempt (on_err (fatal ''PAC unmarshal: '') (PAC_Unmarshal R pacBytes)) (\<lambda>pt.
     attempt (on_err (fatal ''PAC process: '') (ProcessPACInfoBuffers R pt key)) (\<lambda>kvi.
     Inr (SID_String R (LogonDomainID kvi) @ ''-'' @ show_nat (unat (UserID kvi)), GetGroupMembershipSIDs R kvi)))"

section \<open>Extraction undoes embedding\<close>

text \<open>
  What is relied on: decryption undoes encryption, and decoding recovers the authorization data of
  an encoded ticket part and of an encoded list.
\<close>

definition reads_back :: "krb5 \<Rightarrow> krb5_reader \<Rightarrow> bool" where
  "reads_back K R \<longleftrightarrow>
     (\<forall>w plain key usage kvno ed. GetEncryptedData K w plain key usage kvno = Inr ed
        \<longrightarrow> DecryptMessage R (Cipher ed) key usage = Inr plain)
     \<and> (\<forall>etp b. Marshal_EncTicketPart K etp = Inr b \<longrightarrow>
          (\<exists>etp'. Unmarshal_EncTicketPart R (AddASNAppTag K b (EncTicketPart_tag K)) = Inr etp'
             \<and> AuthorizationData etp' = AuthorizationData etp))
     \<and> (\<forall>ad b. Marshal_AuthorizationData K ad = Inr b \<longrightarrow> Unmarshal_AuthorizationData R b = Inr ad)"

lemma outer_pac_embedded:
  assumes "reads_back K R" "pacAuthorizationData K pacBytes = Inr ad"
  shows "outer_pac K R ad = Inr pacBytes"
  using assms by (auto simp: pacAuthorizationData_def attempt_eq_Inr reads_back_def)

lemma extract_minted:
  assumes "reads_back K R" "DirectMinter_Mint K m w spn opts = Inr t" "pacBuilder m = Some build"
  obtains skey kvno plain kvi ci kdcKey kv pac where
    "ServiceKey (dm_keys m) spn (AES256_CTS_HMAC_SHA1_96 K) = Inr (skey, kvno)"
    "DecryptMessage R (Cipher (EncPart (mt_Ticket t))) skey (KDC_REP_TICKET K) = Inr plain"
    "build (mo_Identity opts) (toUTC (mo_AuthTime opts)) = Inr (kvi, ci)"
    "KDCSigningKey (dm_keys m) (AES256_CTS_HMAC_SHA1_96 K) = Inr (kdcKey, kv)"
    "SignAndMarshal K kvi ci skey kdcKey = Inr pac" "extractPAC K R plain = Inr pac"
proof -
  from assms(2) obtain skey kvno ad plain where
    k: "ServiceKey (dm_keys m) spn (AES256_CTS_HMAC_SHA1_96 K) = Inr (skey, kvno)"
    and a: "mint_authdata K m skey (mo_Identity opts) (toUTC (mo_AuthTime opts)) = Inr ad"
    and p: "Marshal_EncTicketPart K (ticket_part K m opts (mt_SessionKey t) ad) = Inr plain"
    and e: "GetEncryptedData K w (AddASNAppTag K plain (EncTicketPart_tag K)) skey (KDC_REP_TICKET K) kvno
       = Inr (EncPart (mt_Ticket t))"
    by (rule Mint_Inr)
  let ?plain = "AddASNAppTag K plain (EncTicketPart_tag K)"
  have d: "DecryptMessage R (Cipher (EncPart (mt_Ticket t))) skey (KDC_REP_TICKET K) = Inr ?plain"
    using assms(1) e unfolding reads_back_def by blast
  have "\<exists>etp. Unmarshal_EncTicketPart R ?plain = Inr etp
      \<and> AuthorizationData etp = AuthorizationData (ticket_part K m opts (mt_SessionKey t) ad)"
    using assms(1) p unfolding reads_back_def by blast
  then obtain etp :: EncTicketPart where u: "Unmarshal_EncTicketPart R ?plain = Inr etp" "AuthorizationData etp = ad"
    by (auto simp: ticket_part_def)
  from a assms(3) obtain kvi ci kdcKey kv pac inner where
      b: "build (mo_Identity opts) (toUTC (mo_AuthTime opts)) = Inr (kvi, ci)"
      "KDCSigningKey (dm_keys m) (AES256_CTS_HMAC_SHA1_96 K) = Inr (kdcKey, kv)"
      "SignAndMarshal K kvi ci skey kdcKey = Inr pac"
      and i: "Marshal_AuthorizationData K [\<lparr>ADType = ADWin2KPAC K, ADData = pac\<rparr>] = Inr inner"
      "ad = [\<lparr>ADType = ADIfRelevant K, ADData = inner\<rparr>]"
    by (rule mint_authdata_Inr)
  from i have w: "pacAuthorizationData K pac = Inr ad" by (simp add: pacAuthorizationData_def)
  have "extractPAC K R ?plain = Inr pac"
    using outer_pac_embedded[OF assms(1) w] u by (simp add: extractPAC_def)
  with k d b show thesis by (rule that)
qed

section \<open>A reader for the sample library\<close>

fun read_bytes :: "bytes \<Rightarrow> bytes \<times> bytes" where
  "read_bytes (t # b # r) = (if t = 1 then (let (bs, r') = read_bytes r in (b # bs, r')) else ([], b # r))"
| "read_bytes [t] = ([], [])"
| "read_bytes [] = ([], [])"

fun read_authdata :: "nat \<Rightarrow> bytes \<Rightarrow> AuthorizationData" where
  "read_authdata 0 s = []"
| "read_authdata (Suc n) [] = []"
| "read_authdata (Suc n) (t # r) =
     (if t = 0 then []
      else let (u, r1) = read_bytes r; (d, r2) = read_bytes r1
           in \<lparr>ADType = (if t = 2 then - int (length u) else int (length u)), ADData = d\<rparr> # read_authdata n r2)"

lemma read_bytes_sample: "read_bytes (sample_bytes bs @ r) = (bs, r)"
  by (induction bs) (simp_all, cases r, simp_all)

lemma read_authdata_sample: "length ad < n \<Longrightarrow> read_authdata n (sample_authdata ad) = ad"
proof (induction ad arbitrary: n)
  case Nil
  then show ?case by (cases n) simp_all
next
  case (Cons e es)
  then obtain k where "n = Suc k" by (cases n) auto
  with Cons show ?case by (cases e) (simp add: read_bytes_sample)
qed

lemma sample_authdata_length: "length ad < length (sample_authdata ad)"
  by (induction ad) auto

definition empty_part :: EncTicketPart where
  "empty_part = \<lparr>Flags = 0, Key = sample_key [], CRealm = [], CName = \<lparr>NameType = 0, NameString = []\<rparr>,
     Transited = NoTransited, AuthTime = zeroTime, StartTime = zeroTime, EndTime = zeroTime, RenewTill = zeroTime,
     AuthorizationData = []\<rparr>"

definition sample_reader :: krb5_reader where
  "sample_reader =
     \<lparr>DecryptMessage = (\<lambda>c k u. Inr (drop (length (KeyValue k)) c)),
      Unmarshal_EncTicketPart = (\<lambda>b. Inr (empty_part\<lparr>AuthorizationData := read_authdata (length b) (tl b)\<rparr>)),
      Unmarshal_AuthorizationData = (\<lambda>b. Inr (read_authdata (length b) b)),
      PAC_Unmarshal = (\<lambda>b. Inr 0), ProcessPACInfoBuffers = (\<lambda>h k. Inl (Foreign 0)),
      SID_String = (\<lambda>s. []), GetGroupMembershipSIDs = (\<lambda>k. [])\<rparr>"

lemma sample_reads_back: "reads_back sample_krb5 sample_reader"
proof -
  have "read_authdata (Suc (length (sample_authdata ad))) (sample_authdata ad) = ad" for ad
    using sample_authdata_length[of ad] by (intro read_authdata_sample) simp
  moreover have "read_authdata (length (sample_authdata ad)) (sample_authdata ad) = ad" for ad
    using sample_authdata_length[of ad] by (rule read_authdata_sample)
  ultimately show ?thesis
    by (auto simp: reads_back_def sample_krb5_def sample_reader_def simp del: read_authdata.simps)
qed

end
