(* ===== verification/ApReq.thy ===== *)
theory ApReq
  imports Minter
begin

text \<open>
  The GSS-API initial context token around an AP-REQ (\<open>src/apreq.go\<close>): the DER length field with
  its two loops, and the token.  A Go \<open>int\<close> is an integer here; the lengths are lengths of slices
  and so below \<open>2 ^ 63\<close>.
\<close>

definition krb5MechOID :: bytes where
  "krb5MechOID = [0x06, 0x09, 0x2A, 0x86, 0x48, 0x86, 0xF7, 0x12, 0x01, 0x02, 0x02]"

definition apReqTokID :: bytes where "apReqTokID = [0x01, 0x00]"

text \<open>\<open>for tmp > 0 { nBytes++; tmp >>= 8 }\<close>\<close>

function count_bytes :: "int \<Rightarrow> nat \<Rightarrow> nat" where
  "count_bytes tmp nBytes = (if tmp > 0 then count_bytes (drop_bit 8 tmp) (nBytes + 1) else nBytes)"
  by pat_completeness auto
termination by (relation "measure (\<lambda>(tmp, _). nat tmp)") (auto simp: drop_bit_eq_div)

declare count_bytes.simps [simp del]

text \<open>\<open>for i := nBytes; i >= 1; i-- { out[i] = byte(n & 0xff); n >>= 8 }\<close>\<close>

fun fill_bytes :: "bytes \<Rightarrow> int \<Rightarrow> nat \<Rightarrow> bytes" where
  "fill_bytes out n 0 = out"
| "fill_bytes out n (Suc i) = fill_bytes (out[Suc i := word_of_int (n AND 0xff)]) (drop_bit 8 n) i"

definition derLength :: "int \<Rightarrow> bytes" where
  "derLength n =
     (if n < 0x80 then [word_of_int n]
      else let nBytes = count_bytes n 0;
               out = (replicate (1 + nBytes) 0)[0 := word_of_int (0x80 OR int nBytes)]
           in fill_bytes out n nBytes)"

definition lenDERLen :: "int \<Rightarrow> nat" where
  "lenDERLen n = (if n < 0x80 then 1 else 1 + count_bytes n 0)"

definition MarshalAPReqToken :: "krb5 \<Rightarrow> world \<Rightarrow> MintedTicket \<Rightarrow> bytes result" where
  "MarshalAPReqToken K w mt =
     attempt (on_err (wrapf ''kerbexchange: build authenticator: '')
                (NewAuthenticator K w (mt_ClientRealm mt) (mt_ClientName mt))) (\<lambda>auth.
     attempt (on_err (wrapf ''kerbexchange: build AP-REQ: '')
                (NewAPReq K w (mt_Ticket mt) (mt_SessionKey mt) auth)) (\<lambda>ap.
     attempt (on_err (wrapf ''kerbexchange: marshal AP-REQ: '') (APReq_Marshal K ap)) (\<lambda>apreqDER.
     let inner = krb5MechOID @ apReqTokID @ apreqDER
     in Inr (0x60 # derLength (int (length inner)) @ inner))))"

section \<open>Reference: reading a length and a token\<close>

text \<open>
  How an acceptor reads a definite length (X.690, 8.1.3): one byte below 128 is the length, else its
  low seven bits count the big-endian length bytes that follow.
\<close>

definition be_value :: "bytes \<Rightarrow> nat" where
  "be_value bs = foldl (\<lambda>a b. a * 256 + unat b) 0 bs"

fun read_length :: "bytes \<Rightarrow> (nat \<times> bytes) option" where
  "read_length [] = None"
| "read_length (b # bs) =
     (if unat b < 0x80 then Some (unat b, bs)
      else let k = unat b - 0x80
           in if length bs < k then None else Some (be_value (take k bs), drop k bs))"

text \<open>How an acceptor takes a token apart (RFC 2743, 3.1; RFC 4121, 4.1).\<close>

definition open_token :: "bytes \<Rightarrow> bytes option" where
  "open_token tok =
     (case tok of
        b # bs \<Rightarrow>
          (if b \<noteq> 0x60 then None
           else case read_length bs of
                  None \<Rightarrow> None
                | Some (n, rest) \<Rightarrow>
                    if length rest = n \<and> take 13 rest = krb5MechOID @ apReqTokID then Some (drop 13 rest) else None)
      | [] \<Rightarrow> None)"

section \<open>The loops\<close>

fun be_bytes :: "nat \<Rightarrow> int \<Rightarrow> bytes" where
  "be_bytes 0 n = []"
| "be_bytes (Suc k) n = be_bytes k (n div 256) @ [word_of_int (n mod 256)]"

lemma length_be_bytes [simp]: "length (be_bytes k n) = k"
  by (induction k arbitrary: n) auto

lemma drop_bit_8: "drop_bit 8 n = n div 256" for n :: int
  by (simp add: drop_bit_eq_div)

lemma and_ff: "n AND 0xff = n mod 256" for n :: int
proof -
  have "n AND 0xff = take_bit 8 n" by (simp add: take_bit_eq_mask mask_eq_exp_minus_1)
  then show ?thesis by (simp add: take_bit_eq_mod)
qed

lemma fill_bytes_eq:
  "fill_bytes (b # xs @ ys) n (length xs) = b # be_bytes (length xs) n @ ys"
proof (induction xs arbitrary: n ys rule: rev_induct)
  case (snoc x xs)
  have "(b # (xs @ [x]) @ ys)[Suc (length xs) := word_of_int (n AND 0xff)]
      = b # xs @ word_of_int (n mod 256) # ys"
    by (simp add: and_ff)
  with snoc[where n = "n div 256" and ys = "word_of_int (n mod 256) # ys"]
  show ?case by (simp only: length_append_singleton fill_bytes.simps drop_bit_8 be_bytes.simps) simp
qed simp

lemma count_bytes_bounds:
  "0 \<le> n \<Longrightarrow> \<exists>k. (\<forall>a. count_bytes n a = a + k) \<and> n < 256 ^ k \<and> (0 < n \<longrightarrow> 0 < k \<and> 256 ^ (k - 1) \<le> n)"
proof (induction "nat n" arbitrary: n rule: less_induct)
  case less
  show ?case
  proof (cases "n > 0")
    case False
    with less(2) show ?thesis by (intro exI[of _ 0]) (simp add: count_bytes.simps)
  next
    case True
    then have "nat (n div 256) < nat n" "0 \<le> n div 256" by auto
    from less(1)[OF this] obtain k where k: "\<And>a. count_bytes (n div 256) a = a + k"
      "n div 256 < 256 ^ k" "0 < n div 256 \<Longrightarrow> 0 < k \<and> 256 ^ (k - 1) \<le> n div 256" by blast
    have "count_bytes n a = a + Suc k" for a
      using True k(1) by (simp add: count_bytes.simps[of n] drop_bit_8)
    moreover have "n < 256 ^ Suc k" using k(2) by simp
    moreover have "256 ^ k \<le> n"
    proof (cases "0 < n div 256")
      case True
      have "256 * 256 ^ (k - 1) \<le> 256 * (n div 256)" using k(3)[OF True] by simp
      also have "\<dots> \<le> n" by simp
      finally have "256 * 256 ^ (k - 1) \<le> n" .
      with k(3)[OF True] show ?thesis by (cases k) auto
    next
      case False
      with \<open>n > 0\<close> have "count_bytes (n div 256) 0 = 0" by (simp add: count_bytes.simps)
      with k(1)[of 0] \<open>n > 0\<close> show ?thesis by simp
    qed
    ultimately show ?thesis by (intro exI[of _ "Suc k"]) simp
  qed
qed

lemma be_value_snoc: "be_value (bs @ [b]) = be_value bs * 256 + unat b"
  by (simp add: be_value_def)

lemma be_value_be_bytes: "0 \<le> n \<Longrightarrow> int (be_value (be_bytes k n)) = n mod 256 ^ k"
proof (induction k arbitrary: n)
  case 0
  then show ?case by (simp add: be_value_def)
next
  case (Suc k)
  have "int (unat (word_of_int (n mod 256) :: byte)) = n mod 256"
    by (simp add: unsigned_of_int take_bit_eq_mod)
  moreover have "n mod 256 ^ Suc k = n div 256 mod 256 ^ k * 256 + n mod 256"
    using mod_mult2_eq'[of n 256 "256 ^ k"] by simp
  ultimately show ?case using Suc.IH[of "n div 256"] Suc.prems by (simp add: be_value_snoc)
qed

lemma derLength_long:
  assumes "0x80 \<le> n" "n < 2 ^ 63"
  obtains k where "0 < k" "k \<le> 8" "256 ^ (k - 1) \<le> n" "n < 256 ^ k" "count_bytes n 0 = k"
    "derLength n = word_of_nat (0x80 + k) # be_bytes k n"
proof -
  from assms(1) obtain k where k: "count_bytes n 0 = k" "n < 256 ^ k" "0 < k" "256 ^ (k - 1) \<le> n"
    using count_bytes_bounds[of n] by auto
  have "k \<le> 8"
  proof (rule ccontr)
    assume "\<not> k \<le> 8"
    then have "(256 :: int) ^ 8 \<le> 256 ^ (k - 1)" by (intro power_increasing) auto
    with k(4) assms(2) show False by simp
  qed
  then have "(0x80 :: int) OR int k = 0x80 + int k"
    using k(3) by (cases k rule: nat.exhaust) (auto simp: le_Suc_eq numeral_eq_Suc)
  then have "derLength n = fill_bytes (word_of_nat (0x80 + k) # replicate k 0 @ []) n (length (replicate k (0::byte)))"
    using assms(1) k(1) by (simp add: derLength_def Let_def)
  then have "derLength n = word_of_nat (0x80 + k) # be_bytes k n"
    by (simp only: fill_bytes_eq) simp
  with k \<open>k \<le> 8\<close> show thesis by (intro that) auto
qed

lemma read_derLength:
  assumes "0 \<le> n" "n < 2 ^ 63"
  shows "read_length (derLength n @ rest) = Some (nat n, rest)"
proof (cases "n < 0x80")
  case True
  then have "unat (word_of_int n :: byte) = nat n"
    using assms(1) by (simp add: unsigned_of_int take_bit_eq_mod)
  moreover have "nat n < 0x80" using True by simp
  ultimately show ?thesis using True by (simp add: derLength_def)
next
  case False
  then obtain k where k: "k \<le> 8" "n < 256 ^ k" "derLength n = word_of_nat (0x80 + k) # be_bytes k n"
    using assms(2) derLength_long[of n] by (metis linorder_not_less)
  have "unat (word_of_nat (0x80 + k) :: byte) = 0x80 + k"
    unfolding unat_of_nat using k(1) by simp
  moreover have "be_value (be_bytes k n) = nat n"
    using be_value_be_bytes[OF assms(1), of k] k(2) assms(1) by simp
  ultimately show ?thesis using k(3) by (simp add: Let_def del: of_nat_add)
qed

lemma length_derLength:
  assumes "0 \<le> n" "n < 2 ^ 63"
  shows "length (derLength n) = lenDERLen n"
proof (cases "n < 0x80")
  case False
  then have "0x80 \<le> n" by simp
  from this assms(2) show ?thesis by (rule derLength_long) (use False in \<open>simp add: lenDERLen_def\<close>)
qed (simp add: derLength_def lenDERLen_def)

lemma be_value_less: "be_value bs < 256 ^ length bs"
proof (induction bs rule: rev_induct)
  case (snoc b bs)
  have "unat b < 256" using unsigned_less[of b, where ?'a = nat] by simp
  with snoc show ?case by (simp add: be_value_snoc)
qed (simp add: be_value_def)

lemma read_length_minimal:
  assumes "0 \<le> n" "n < 2 ^ 63" "read_length bs = Some (nat n, [])"
  shows "lenDERLen n \<le> length bs"
proof (cases "n < 0x80")
  case True
  with assms(3) show ?thesis by (cases bs) (auto simp: lenDERLen_def)
next
  case False
  then obtain k where k: "0 < k" "256 ^ (k - 1) \<le> n" "count_bytes n 0 = k"
    using assms(2) derLength_long[of n] by (metis linorder_not_less)
  from assms(3) False obtain b cs where bs: "bs = b # cs" "nat n = be_value cs"
    by (cases bs) (auto simp: Let_def split: if_splits)
  then have "n < 256 ^ length cs" using be_value_less[of cs] assms(1)
    by (metis nat_less_iff of_nat_numeral of_nat_power int_nat_eq zless_nat_conj of_nat_less_iff)
  with k(2) have "(256::int) ^ (k - 1) < 256 ^ length cs" by linarith
  then have "k - 1 < length cs" by (rule power_less_imp_less_exp[rotated]) simp
  with k(1,3) bs(1) False show ?thesis by (simp add: lenDERLen_def)
qed

section \<open>Properties\<close>

text \<open>
  C22.  The DER length field: for every length a slice can have, a reader gets the length and the
  bytes after it back, \<open>lenDERLen\<close> is the number of bytes \<open>derLength\<close> writes, and no encoding
  of that length is shorter (DER requires the shortest).
\<close>

theorem derLength_correct:
  assumes "0 \<le> n" "n < 2 ^ 63"
  shows "read_length (derLength n @ rest) = Some (nat n, rest)
    \<and> length (derLength n) = lenDERLen n
    \<and> (\<forall>bs. read_length bs = Some (nat n, []) \<longrightarrow> length (derLength n) \<le> length bs)"
  using read_derLength[OF assms] length_derLength[OF assms] read_length_minimal[OF assms] by simp

theorem derLength_correct_witness:
  "read_length (derLength 300 @ [7]) = Some (300, [7]) \<and> length (derLength 300) = 3"
proof -
  have "lenDERLen 300 = 3" by (simp add: lenDERLen_def count_bytes.simps drop_bit_eq_div)
  then show ?thesis using derLength_correct[of 300 "[7]"] by simp
qed

text \<open>
  C23.  An acceptor that takes the token apart by RFC 2743 (tag 0x60, a length that spans exactly
  the rest, the Kerberos mechanism, the AP-REQ token identifier) finds the library's AP-REQ for the
  ticket and session key; the capacity reserved for the token is exact.
\<close>

theorem MarshalAPReqToken_opens:
  assumes "MarshalAPReqToken K w mt = Inr tok" "length tok < 2 ^ 63"
  shows "\<exists>auth ap der. NewAuthenticator K w (mt_ClientRealm mt) (mt_ClientName mt) = Inr auth
      \<and> NewAPReq K w (mt_Ticket mt) (mt_SessionKey mt) auth = Inr ap \<and> APReq_Marshal K ap = Inr der
      \<and> open_token tok = Some der
      \<and> length tok = 1 + lenDERLen (int (13 + length der)) + (13 + length der)"
proof -
  from assms(1) obtain auth ap der where r: "NewAuthenticator K w (mt_ClientRealm mt) (mt_ClientName mt) = Inr auth"
      "NewAPReq K w (mt_Ticket mt) (mt_SessionKey mt) auth = Inr ap" "APReq_Marshal K ap = Inr der"
    and t: "tok = 0x60 # derLength (int (length (krb5MechOID @ apReqTokID @ der))) @ krb5MechOID @ apReqTokID @ der"
    by (auto simp: MarshalAPReqToken_def result_simps Let_def)
  have l: "length (krb5MechOID @ apReqTokID @ der) = 13 + length der"
    "length (krb5MechOID @ apReqTokID) = 13"
    by (simp_all add: krb5MechOID_def apReqTokID_def)
  have "13 + length der < 2 ^ 63" using assms(2) t l(1) by simp
  then have n: "0 \<le> int (13 + length der)" "int (13 + length der) < 2 ^ 63" by auto
  have "read_length (derLength (int (13 + length der)) @ krb5MechOID @ apReqTokID @ der)
      = Some (13 + length der, krb5MechOID @ apReqTokID @ der)"
    using read_derLength[OF n] by (simp only: nat_int)
  moreover have "take 13 (krb5MechOID @ apReqTokID @ der) = krb5MechOID @ apReqTokID"
    "drop 13 (krb5MechOID @ apReqTokID @ der) = der"
    by (simp_all add: krb5MechOID_def apReqTokID_def)
  ultimately have "open_token tok = Some der"
    unfolding t l(1) by (simp only: open_token_def list.case if_False simp_thms option.case prod.case l(1) if_True)
  moreover have "length tok = 1 + lenDERLen (int (13 + length der)) + (13 + length der)"
    unfolding t l(1) using length_derLength[OF n] l by simp
  ultimately show ?thesis using r by blast
qed

definition sample_minted :: MintedTicket where
  "sample_minted = \<lparr>mt_Ticket = \<lparr>TktVNO = 5, TktRealm = ''EXAMPLE.COM'',
       SName = \<lparr>NameType = 3, NameString = [''HTTP'', ''web'']\<rparr>, EncPart = \<lparr>Cipher = replicate 200 1\<rparr>\<rparr>,
     mt_SessionKey = sample_key ''k'', mt_ClientName = \<lparr>NameType = 1, NameString = [''alice'']\<rparr>,
     mt_ClientRealm = ''EXAMPLE.COM'',
     mt_Target = \<lparr>Service = ''HTTP'', Host = ''web'', Realm = ''EXAMPLE.COM''\<rparr>,
     mt_AuthTime = \<lparr>ns = 10, zone = UTC\<rparr>, mt_EndTime = \<lparr>ns = 20, zone = UTC\<rparr>\<rparr>"

lemma sample_token:
  "MarshalAPReqToken sample_krb5 sample_world sample_minted =
     Inr (0x60 # derLength 213 @ krb5MechOID @ apReqTokID @ replicate 200 110)"
  by (simp add: MarshalAPReqToken_def sample_minted_def sample_world_def sample_krb5_def
      krb5MechOID_def apReqTokID_def Let_def del: replicate.simps)

theorem MarshalAPReqToken_opens_witness:
  "\<exists>tok. MarshalAPReqToken sample_krb5 sample_world sample_minted = Inr tok
     \<and> open_token tok = Some (replicate 200 110)"
proof -
  define tok where "tok = 0x60 # derLength 213 @ krb5MechOID @ apReqTokID @ replicate 200 (110::byte)"
  have tok: "MarshalAPReqToken sample_krb5 sample_world sample_minted = Inr tok"
    unfolding tok_def by (rule sample_token)
  have len: "length tok < 2 ^ 63"
    by (simp add: tok_def length_derLength lenDERLen_def krb5MechOID_def apReqTokID_def count_bytes.simps drop_bit_eq_div)
  from MarshalAPReqToken_opens[OF tok len] tok show ?thesis
    by (auto simp: sample_krb5_def sample_minted_def simp del: replicate.simps)
qed

end
