(* ===== verification/Credential.thy ===== *)
theory Credential
  imports Principal GoTime
begin

text \<open>
  Issued credentials (\<open>src/credential.go\<close>).  A nil byte slice and an empty one are told apart by
  no operation of the type, so both are the empty list.
\<close>

definition credential_sentinels :: "(sentinel \<times> string) list" where
  "credential_sentinels =
     [(ErrNoCCache, ''kerbexchange: credential has no ccache''), (ErrNoAPReq, ''kerbexchange: credential has no AP-REQ'')]"

record Credential =
  cr_subject :: string
  cr_target :: ServicePrincipal
  cr_expiry :: gotime
  cr_ccache :: bytes
  cr_apreq :: bytes

definition NewCredential ::
    "string \<Rightarrow> ServicePrincipal \<Rightarrow> gotime \<Rightarrow> bytes \<Rightarrow> bytes \<Rightarrow> Credential" where
  "NewCredential subject target expiry ccache apreq =
     \<lparr>cr_subject = subject, cr_target = target, cr_expiry = expiry,
      cr_ccache = ccache, cr_apreq = apreq\<rparr>"

definition Cred_Subject :: "Credential \<Rightarrow> string" where "Cred_Subject c = cr_subject c"
definition Cred_Target :: "Credential \<Rightarrow> ServicePrincipal" where "Cred_Target c = cr_target c"
definition Cred_Expiry :: "Credential \<Rightarrow> gotime" where "Cred_Expiry c = cr_expiry c"

definition Cred_CCache :: "Credential \<Rightarrow> bytes result" where
  "Cred_CCache c = (if cr_ccache c = [] then Inl (Sentinel ErrNoCCache) else Inr (cr_ccache c))"

definition Cred_APReq :: "Credential \<Rightarrow> bytes result" where
  "Cred_APReq c = (if cr_apreq c = [] then Inl (Sentinel ErrNoAPReq) else Inr (cr_apreq c))"

lemma NewCredential_sel [simp]:
  "Cred_Subject (NewCredential s t x cc ap) = s"
  "Cred_Target (NewCredential s t x cc ap) = t"
  "Cred_Expiry (NewCredential s t x cc ap) = x"
  "Cred_CCache (NewCredential s t x cc ap)
     = (if cc = [] then Inl (Sentinel ErrNoCCache) else Inr cc)"
  "Cred_APReq (NewCredential s t x cc ap)
     = (if ap = [] then Inl (Sentinel ErrNoAPReq) else Inr ap)"
  by (simp_all add: NewCredential_def Cred_Subject_def Cred_Target_def Cred_Expiry_def
      Cred_CCache_def Cred_APReq_def)

end
