(* ===== verification/TokenType.thy ===== *)
theory TokenType
  imports GoStrconv
begin

text \<open>
  The output representations and their token-type URIs (\<open>src/tokentype.go\<close>).  Go's
  \<open>OutputType\<close> is an \<open>int\<close>: values other than the two constants exist, and each function has a
  branch for them.
\<close>

definition KrbCCacheTokenType :: string where
  "KrbCCacheTokenType =
     ''https://github.com/hstern/go-oauth2-kerberos-exchange/token-type/krb5-ccache''"

definition KrbAPReqTokenType :: string where
  "KrbAPReqTokenType =
     ''https://github.com/hstern/go-oauth2-kerberos-exchange/token-type/krb5-apreq''"

definition tokentype_sentinels :: "(sentinel \<times> string) list" where
  "tokentype_sentinels = [(ErrUnknownTokenType, ''kerbexchange: unknown requested token type'')]"

type_synonym OutputType = int

definition OutputCCache :: OutputType where "OutputCCache = 0"
definition OutputAPReq :: OutputType where "OutputAPReq = 1"

definition OutputType_String :: "OutputType \<Rightarrow> string" where
  "OutputType_String o' =
     (if o' = OutputCCache then ''ccache''
      else if o' = OutputAPReq then ''apreq''
      else ''OutputType('' @ show_int o' @ '')'')"

definition OutputType_TokenType :: "OutputType \<Rightarrow> string" where
  "OutputType_TokenType o' =
     (if o' = OutputCCache then KrbCCacheTokenType
      else if o' = OutputAPReq then KrbAPReqTokenType
      else [])"

definition OutputTypeFromTokenType :: "string \<Rightarrow> OutputType result" where
  "OutputTypeFromTokenType uri =
     (if uri = [] \<or> uri = KrbCCacheTokenType then Inr OutputCCache
      else if uri = KrbAPReqTokenType then Inr OutputAPReq
      else Inl (Errorf [WrapW (Sentinel ErrUnknownTokenType), Lit '': '', Quoted uri]))"

section \<open>Facts\<close>

lemmas output_defs = OutputCCache_def OutputAPReq_def

lemma token_types_distinct [simp]:
  "KrbCCacheTokenType \<noteq> KrbAPReqTokenType" "KrbAPReqTokenType \<noteq> KrbCCacheTokenType"
  "KrbCCacheTokenType \<noteq> []" "KrbAPReqTokenType \<noteq> []"
  by (simp_all add: KrbCCacheTokenType_def KrbAPReqTokenType_def)

lemma outputs_distinct [simp]: "OutputCCache \<noteq> OutputAPReq" "OutputAPReq \<noteq> OutputCCache"
  by (simp_all add: output_defs)

lemma OutputType_String_inj: "OutputType_String o1 = OutputType_String o2 \<Longrightarrow> o1 = o2"
  by (auto simp: OutputType_String_def dest: show_int_inj split: if_splits)

lemma OutputType_String_no_nul: "CHR 0x00 \<notin> set (OutputType_String o')"
  using show_int_no_nul by (auto simp: OutputType_String_def)

lemma FromTokenType_Inr:
  "OutputTypeFromTokenType uri = Inr o' \<longleftrightarrow>
     o' = OutputCCache \<and> (uri = [] \<or> uri = OutputType_TokenType OutputCCache)
   \<or> o' = OutputAPReq \<and> uri = OutputType_TokenType OutputAPReq"
  by (auto simp: OutputTypeFromTokenType_def OutputType_TokenType_def)

lemma FromTokenType_error:
  "OutputTypeFromTokenType uri = Inl e \<Longrightarrow> errors_Is e ErrUnknownTokenType"
  by (auto simp: OutputTypeFromTokenType_def split: if_splits)

end
