(* ===== verification/Issue.thy ===== *)
theory Issue
  imports ApReq Credential TokenType
begin

text \<open>
  From a minted ticket to a credential (\<open>src/issue.go\<close>, \<open>src/ccache_write.go\<close>).
\<close>

definition MarshalCCache :: "krb5 \<Rightarrow> MintedTicket \<Rightarrow> bytes result" where
  "MarshalCCache K mt =
     attempt (Ticket_Marshal K (mt_Ticket mt)) (\<lambda>tkt.
     let client = NewPrincipal K (mt_ClientName mt) (mt_ClientRealm mt);
         server = NewPrincipal K
           \<lparr>NameType = KRB_NT_SRV_HST K, NameString = [Service (mt_Target mt), Host (mt_Target mt)]\<rparr>
           (Realm (mt_Target mt));
         cred = \<lparr>cc_Client = client, cc_Server = server, cc_Key = mt_SessionKey mt,
                 cc_AuthTime = mt_AuthTime mt, cc_StartTime = mt_AuthTime mt, cc_EndTime = mt_EndTime mt,
                 cc_RenewTill = Unix 0, cc_TicketFlags = NewKrbFlags K, cc_Ticket = tkt\<rparr>;
         cc = NewV4CCache K;
         cc = SetDefaultPrincipal K cc client;
         cc = AddCredential K cc cred
     in CCache_Marshal K cc)"

definition MintedTicket_Credential ::
    "krb5 \<Rightarrow> world \<Rightarrow> MintedTicket \<Rightarrow> OutputType \<Rightarrow> Credential result" where
  "MintedTicket_Credential K w mt output =
     (let subject = (case NameString (mt_ClientName mt) of [] \<Rightarrow> [] | n # _ \<Rightarrow> n) in
      if output = OutputCCache then
        attempt (MarshalCCache K mt) (\<lambda>ccache.
          Inr (NewCredential subject (mt_Target mt) (mt_EndTime mt) ccache []))
      else if output = OutputAPReq then
        attempt (MarshalAPReqToken K w mt) (\<lambda>apreq.
          Inr (NewCredential subject (mt_Target mt) (mt_EndTime mt) [] apreq))
      else Inl (Errorf [Lit ''kerbexchange: unsupported output type '', Plain (OutputType_String output)]))"

text \<open>The cache \<open>MarshalCCache\<close> assembles around an encoded ticket.\<close>

definition ccache_of :: "krb5 \<Rightarrow> MintedTicket \<Rightarrow> bytes \<Rightarrow> handle" where
  "ccache_of K mt tkt =
     (let client = NewPrincipal K (mt_ClientName mt) (mt_ClientRealm mt);
          server = NewPrincipal K
            \<lparr>NameType = KRB_NT_SRV_HST K, NameString = [Service (mt_Target mt), Host (mt_Target mt)]\<rparr>
            (Realm (mt_Target mt))
      in AddCredential K (SetDefaultPrincipal K (NewV4CCache K) client)
           \<lparr>cc_Client = client, cc_Server = server, cc_Key = mt_SessionKey mt, cc_AuthTime = mt_AuthTime mt,
            cc_StartTime = mt_AuthTime mt, cc_EndTime = mt_EndTime mt, cc_RenewTill = Unix 0,
            cc_TicketFlags = NewKrbFlags K, cc_Ticket = tkt\<rparr>)"

lemma MarshalCCache_of:
  "MarshalCCache K mt = attempt (Ticket_Marshal K (mt_Ticket mt)) (\<lambda>tkt. CCache_Marshal K (ccache_of K mt tkt))"
  by (simp add: MarshalCCache_def ccache_of_def Let_def)

lemma MarshalAPReqToken_nonempty: "MarshalAPReqToken K w mt = Inr tok \<Longrightarrow> tok \<noteq> []"
  by (auto simp: MarshalAPReqToken_def result_simps Let_def)

lemma Credential_cases:
  assumes "MintedTicket_Credential K w mt out = Inr c"
  obtains (ccache) cc where "out = OutputCCache" "MarshalCCache K mt = Inr cc"
      "c = NewCredential (case NameString (mt_ClientName mt) of [] \<Rightarrow> [] | n # _ \<Rightarrow> n) (mt_Target mt) (mt_EndTime mt) cc []"
    | (apreq) tok where "out = OutputAPReq" "MarshalAPReqToken K w mt = Inr tok" "tok \<noteq> []"
      "c = NewCredential (case NameString (mt_ClientName mt) of [] \<Rightarrow> [] | n # _ \<Rightarrow> n) (mt_Target mt) (mt_EndTime mt) [] tok"
proof (cases "out = OutputCCache")
  case True
  with assms that(1) show thesis by (auto simp: MintedTicket_Credential_def Let_def attempt_eq_Inr)
next
  case False
  with assms have "out = OutputAPReq" by (auto simp: MintedTicket_Credential_def Let_def split: if_splits)
  with assms that(2) show thesis
    by (auto simp: MintedTicket_Credential_def Let_def attempt_eq_Inr dest: MarshalAPReqToken_nonempty)
qed

lemma Credential_Inr:
  assumes "MintedTicket_Credential K w mt out = Inr c"
  shows "Cred_Subject c = (case NameString (mt_ClientName mt) of [] \<Rightarrow> [] | n # _ \<Rightarrow> n)"
    and "Cred_Target c = mt_Target mt" "Cred_Expiry c = mt_EndTime mt"
    and "out = OutputCCache \<or> out = OutputAPReq"
  using assms by (cases rule: Credential_cases; simp)+

lemma Credential_Inl:
  assumes "MintedTicket_Credential K w mt out = Inl e"
  shows "(e = Errorf [Lit ''kerbexchange: unsupported output type '', Plain (OutputType_String out)]
                  \<and> out \<notin> {OutputCCache, OutputAPReq}) \<or> (out = OutputCCache \<and> MarshalCCache K mt = Inl e)
                \<or> (out = OutputAPReq \<and> MarshalAPReqToken K w mt = Inl e)"
  using assms
  by (cases "out = OutputCCache"; cases "out = OutputAPReq")
    (simp_all add: MintedTicket_Credential_def Let_def attempt_eq_Inl)

section \<open>What a credential carries\<close>

text \<open>
  A credential carries the representation asked for and only that one: for an AP-REQ the
  token of the minted ticket (never empty) and no ccache, for a ccache the library's encoding of
  the ticket's cache and no AP-REQ; the accessor of the other representation returns its sentinel
  error.  Its subject is the first component of the client name, its target and expiry are the
  ticket's.  Any other output type is an error.
\<close>

lemma Credential_carries_output:
  "case MintedTicket_Credential K w mt out of
     Inl e \<Rightarrow> (e = Errorf [Lit ''kerbexchange: unsupported output type '', Plain (OutputType_String out)]
                  \<and> out \<notin> {OutputCCache, OutputAPReq}) \<or> (out = OutputCCache \<and> MarshalCCache K mt = Inl e)
                \<or> (out = OutputAPReq \<and> MarshalAPReqToken K w mt = Inl e)
   | Inr c \<Rightarrow>
       (out = OutputAPReq \<and> Cred_APReq c = MarshalAPReqToken K w mt \<and> Cred_CCache c = Inl (Sentinel ErrNoCCache)
        \<or> out = OutputCCache \<and> MarshalCCache K mt = Inr (cr_ccache c) \<and> Cred_APReq c = Inl (Sentinel ErrNoAPReq))
       \<and> Cred_Target c = mt_Target mt \<and> Cred_Expiry c = mt_EndTime mt
       \<and> Cred_Subject c = (case NameString (mt_ClientName mt) of [] \<Rightarrow> [] | n # _ \<Rightarrow> n)"
proof (cases "MintedTicket_Credential K w mt out")
  case (Inl e)
  with Credential_Inl[OF Inl] show ?thesis by simp
next
  case (Inr c)
  show ?thesis unfolding Inr sum.case
    by (rule Credential_cases[OF Inr]) (simp_all add: NewCredential_def Cred_APReq_def
        Cred_CCache_def Cred_Target_def Cred_Expiry_def Cred_Subject_def)
qed

end
