(* ===== verification/Cache.thy ===== *)
theory Cache
  imports Credential TokenType
begin

text \<open>
  The credential cache (\<open>src/cache.go\<close>).  \<open>MemoryCache\<close> holds its mutex for the whole of
  \<open>Get\<close> and \<open>Put\<close>, so each is one atomic step on the store (shown in \<open>Locking\<close>); \<open>Get\<close> takes the reading of
  \<open>time.Now()\<close> it makes as an argument and returns the store it leaves behind (an expired entry
  is deleted on the way).  The interface \<open>Cache\<close> is the locale \<open>credential_cache\<close>.
\<close>

section \<open>Operations\<close>

record MemoryCache =
  store :: "string \<rightharpoonup> Credential"

definition NewMemoryCache :: MemoryCache where
  "NewMemoryCache = \<lparr>store = Map.empty\<rparr>"

definition MemoryCache_Get :: "MemoryCache \<Rightarrow> gotime \<Rightarrow> string \<Rightarrow> Credential option \<times> MemoryCache" where
  "MemoryCache_Get m now key =
     (case store m key of
        None \<Rightarrow> (None, m)
      | Some cred \<Rightarrow>
          if Before (Cred_Expiry cred) now then (None, m\<lparr>store := (store m)(key := None)\<rparr>)
          else (Some cred, m))"

definition MemoryCache_Put :: "MemoryCache \<Rightarrow> string \<Rightarrow> Credential \<Rightarrow> MemoryCache" where
  "MemoryCache_Put m key cred = m\<lparr>store := (store m)(key \<mapsto> cred)\<rparr>"

definition CacheKey :: "string \<Rightarrow> ServicePrincipal \<Rightarrow> OutputType \<Rightarrow> string" where
  "CacheKey subject spn output =
     subject @ [CHR 0x00] @ SPN_String spn @ [CHR 0x00] @ OutputType_String output"

section \<open>The interface\<close>

text \<open>
  What a client of a cache may rely on, over the entries it holds: a hit is an entry that has not
  expired, a lookup forgets at most an expired entry under the key it was asked for, and a store
  changes its own key only.
\<close>

definition live :: "gotime \<Rightarrow> Credential \<Rightarrow> bool" where
  "live now cred = (\<not> Before (Cred_Expiry cred) now)"

locale credential_cache =
  fixes new :: 'c
    and get :: "'c \<Rightarrow> gotime \<Rightarrow> string \<Rightarrow> Credential option \<times> 'c"
    and put :: "'c \<Rightarrow> string \<Rightarrow> Credential \<Rightarrow> 'c"
    and entries :: "'c \<Rightarrow> string \<rightharpoonup> Credential"
  assumes entries_new: "entries new = Map.empty"
    and get_result: "fst (get c t k) =
      (case entries c k of None \<Rightarrow> None | Some x \<Rightarrow> if live t x then Some x else None)"
    and get_entries: "entries (snd (get c t k)) = (if fst (get c t k) = None
      then (entries c)(k := None) else entries c)"
    and put_entries: "entries (put c k x) = (entries c)(k \<mapsto> x)"
begin

lemma get_hit: "get c t k = (Some x, c') \<Longrightarrow> entries c k = Some x \<and> live t x \<and> entries c' = entries c"
  using get_result[of c t k] get_entries[of c t k] by (auto split: option.splits if_splits)

lemma get_after_put: "live t x \<Longrightarrow> fst (get (put c k x) t k) = Some x"
  by (simp add: get_result put_entries)

lemma get_after_put_other: "k' \<noteq> k \<Longrightarrow> fst (get (put c k x) t k') = fst (get c t k')"
  by (simp add: get_result put_entries)

lemma get_shrinks: "entries (snd (get c t k)) \<subseteq>\<^sub>m entries c"
  by (auto simp: get_entries map_le_def)

lemma get_le: "get c t k = (r, c') \<Longrightarrow> entries c' \<subseteq>\<^sub>m entries c"
  using get_shrinks[of c t k] by simp

end

text \<open>A history of cache operations, oldest first, and the store it leaves.\<close>

datatype cache_op = GetOp gotime string | PutOp string Credential

fun cache_run ::
    "('c \<Rightarrow> gotime \<Rightarrow> string \<Rightarrow> Credential option \<times> 'c) \<Rightarrow>
     ('c \<Rightarrow> string \<Rightarrow> Credential \<Rightarrow> 'c) \<Rightarrow> 'c \<Rightarrow> cache_op list \<Rightarrow> 'c" where
  "cache_run get put c [] = c"
| "cache_run get put c (GetOp t k # ops) = cache_run get put (snd (get c t k)) ops"
| "cache_run get put c (PutOp k x # ops) = cache_run get put (put c k x) ops"

text \<open>The specification: the last credential stored under a key, whatever was looked up since.\<close>

fun last_put :: "(string \<rightharpoonup> Credential) \<Rightarrow> cache_op list \<Rightarrow> string \<rightharpoonup> Credential" where
  "last_put m [] = m"
| "last_put m (GetOp t k # ops) = last_put m ops"
| "last_put m (PutOp k x # ops) = last_put (m(k \<mapsto> x)) ops"

fun op_times :: "cache_op list \<Rightarrow> gotime list" where
  "op_times [] = []"
| "op_times (GetOp t k # ops) = t # op_times ops"
| "op_times (PutOp k x # ops) = op_times ops"

context credential_cache begin

lemma run_entries:
  assumes "\<And>t. t \<in> set (op_times ops) \<Longrightarrow> ns t \<le> ns now"
    and "\<And>k. entries c k = m k \<or> entries c k = None \<and> (\<forall>x. m k = Some x \<longrightarrow> \<not> live now x)"
  shows "entries (cache_run get put c ops) k = last_put m ops k \<or>
    entries (cache_run get put c ops) k = None \<and>
      (\<forall>x. last_put m ops k = Some x \<longrightarrow> \<not> live now x)"
  using assms
proof (induction ops arbitrary: c m)
  case Nil
  then show ?case by simp
next
  case (Cons opn ops)
  show ?case
  proof (cases opn)
    case (GetOp t j)
    have later: "\<not> live t x \<Longrightarrow> \<not> live now x" for x
      using Cons.prems(1)[of t] GetOp by (simp add: live_def Before_def)
    have "entries (snd (get c t j)) i = m i \<or>
        entries (snd (get c t j)) i = None \<and> (\<forall>x. m i = Some x \<longrightarrow> \<not> live now x)" for i
      using Cons.prems(2)[of i] later
      by (auto simp: get_entries get_result split: option.splits if_splits)
    with Cons.IH[of "snd (get c t j)" m] Cons.prems(1) GetOp show ?thesis by simp
  next
    case (PutOp j x)
    have "entries (put c j x) i = (m(j \<mapsto> x)) i \<or>
        entries (put c j x) i = None \<and> (\<forall>y. (m(j \<mapsto> x)) i = Some y \<longrightarrow> \<not> live now y)" for i
      using Cons.prems(2)[of i] by (auto simp: put_entries)
    then have "entries (cache_run get put (put c j x) ops) k = last_put (m(j \<mapsto> x)) ops k \<or>
        entries (cache_run get put (put c j x) ops) k = None \<and>
          (\<forall>y. last_put (m(j \<mapsto> x)) ops k = Some y \<longrightarrow> \<not> live now y)"
      using Cons.prems(1) PutOp by (intro Cons.IH) auto
    with PutOp show ?thesis by simp
  qed
qed

lemma run_get:
  assumes "\<And>t. t \<in> set (op_times ops) \<Longrightarrow> ns t \<le> ns now"
  shows "fst (get (cache_run get put new ops) now k) =
    (case last_put Map.empty ops k of None \<Rightarrow> None | Some x \<Rightarrow> if live now x then Some x else None)"
proof -
  have "entries (cache_run get put new ops) k = last_put Map.empty ops k \<or>
      entries (cache_run get put new ops) k = None \<and>
        (\<forall>x. last_put Map.empty ops k = Some x \<longrightarrow> \<not> live now x)"
    using assms by (rule run_entries) (simp_all add: entries_new)
  then show ?thesis
    by (cases "last_put Map.empty ops k") (auto simp: get_result)
qed

end

interpretation mc: credential_cache NewMemoryCache MemoryCache_Get MemoryCache_Put store
  by unfold_locales
    (auto simp: NewMemoryCache_def MemoryCache_Get_def MemoryCache_Put_def live_def
      fun_eq_iff split: option.splits)

section \<open>Keys\<close>

lemma first_sep_unique:
  fixes xs :: string
  assumes eq: "xs @ c # ys = xs' @ c # ys'" and "c \<notin> set xs" "c \<notin> set xs'"
  shows "xs = xs' \<and> ys = ys'"
proof -
  have "Some (xs, ys) = cut c (xs @ c # ys)" using assms(2) by (rule cut_append[symmetric])
  also have "\<dots> = cut c (xs' @ c # ys')" by (simp only: eq)
  also have "\<dots> = Some (xs', ys')" using assms(3) by (rule cut_append)
  finally show ?thesis by (simp only: option.inject prod.inject)
qed

lemma last_sep_unique:
  fixes xs :: string
  assumes eq: "xs @ c # ys = xs' @ c # ys'" and "c \<notin> set ys" "c \<notin> set ys'"
  shows "xs = xs' \<and> ys = ys'"
proof -
  have "rev (xs @ c # ys) = rev (xs' @ c # ys')" by (simp only: eq)
  then have "rev ys @ c # rev xs = rev ys' @ c # rev xs'"
    by (simp only: rev_append rev.simps append.simps append_assoc)
  then have "rev ys = rev ys' \<and> rev xs = rev xs'"
    by (rule first_sep_unique) (simp_all add: assms)
  then show ?thesis by (simp only: rev_is_rev_conv)
qed

lemma CacheKey_split:
  assumes "CacheKey s p o1 = CacheKey s' p' o2"
  shows "s @ CHR 0x00 # SPN_String p = s' @ CHR 0x00 # SPN_String p' \<and> o1 = o2"
proof -
  have "(s @ CHR 0x00 # SPN_String p) @ CHR 0x00 # OutputType_String o1
      = (s' @ CHR 0x00 # SPN_String p') @ CHR 0x00 # OutputType_String o2"
    using assms by (simp only: CacheKey_def append.simps append_assoc)
  from last_sep_unique[OF this OutputType_String_no_nul OutputType_String_no_nul]
  show ?thesis by (blast dest: OutputType_String_inj)
qed

lemma CacheKey_eqD:
  assumes "CacheKey s p o1 = CacheKey s' p' o2" "CHR 0x00 \<notin> set s" "CHR 0x00 \<notin> set s'"
  shows "s = s' \<and> SPN_String p = SPN_String p' \<and> o1 = o2"
  using CacheKey_split[OF assms(1)] first_sep_unique[OF _ assms(2,3)] by blast

lemma CacheKey_inj_nul_free:
  assumes "CHR 0x00 \<notin> set s" "CHR 0x00 \<notin> set s'" "wf_spn p" "wf_spn p'"
    and "CacheKey s p o1 = CacheKey s' p' o2"
  shows "s = s' \<and> p = p' \<and> o1 = o2"
  using CacheKey_eqD[OF assms(5,1,2)] SPN_String_inj[OF assms(3,4)] by blast

text \<open>
  Subjects come from tokens and principals from requests, and both may contain NUL bytes.  A request
  whose own subject and principal are free of them shares its key with no other request, whatever
  the other one contains.
\<close>

definition separable :: "string \<Rightarrow> ServicePrincipal \<Rightarrow> bool" where
  "separable subject p = (CHR 0x00 \<notin> set subject \<and> CHR 0x00 \<notin> set (SPN_String p))"

lemma CacheKey_separable:
  assumes "separable s p" "CacheKey s p o1 = CacheKey s' p' o2" "wf_spn p" "wf_spn p'"
  shows "s = s' \<and> p = p' \<and> o1 = o2"
proof -
  have nul: "CHR 0x00 \<notin> set s" "CHR 0x00 \<notin> set (SPN_String p)" using assms(1) by (simp_all add: separable_def)
  have "count_list (s @ CHR 0x00 # SPN_String p) (CHR 0x00) = count_list (s' @ CHR 0x00 # SPN_String p') (CHR 0x00)"
    using CacheKey_split[OF assms(2)] by metis
  then have "CHR 0x00 \<notin> set s'" using nul by (simp add: count_notin count_list_0_iff)
  from CacheKey_inj_nul_free[OF nul(1) this assms(3,4,2)] show ?thesis .
qed

lemma CacheKey_output: "CacheKey s p o1 = CacheKey s' p' o2 \<Longrightarrow> o1 = o2"
  by (blast dest: CacheKey_split)

section \<open>Properties\<close>

text \<open>
  C5.  The cache with lazy eviction answers like the specification: after any history of
  \<open>Get\<close> and \<open>Put\<close> on a new cache whose lookups were made no later than \<open>now\<close>, a
  \<open>Get\<close> at \<open>now\<close> returns the credential last stored under the key unless it expired before
  \<open>now\<close>, and otherwise misses.
\<close>

theorem MemoryCache_Get_last_put:
  assumes "\<And>t. t \<in> set (op_times ops) \<Longrightarrow> ns t \<le> ns now"
  shows "fst (MemoryCache_Get
      (cache_run MemoryCache_Get MemoryCache_Put NewMemoryCache ops) now key) =
    (case last_put Map.empty ops key of
       None \<Rightarrow> None
     | Some cred \<Rightarrow> if Before (Cred_Expiry cred) now then None else Some cred)"
  using mc.run_get[OF assms] by (simp add: live_def split: option.splits)

definition sample_spn :: ServicePrincipal where
  "sample_spn = \<lparr>Service = ''imap'', Host = ''h'', Realm = ''R''\<rparr>"

definition sample_cred :: "int \<Rightarrow> Credential" where
  "sample_cred t = NewCredential ''alice'' sample_spn \<lparr>ns = t, zone = UTC\<rparr> [1] []"

theorem MemoryCache_Get_last_put_witness:
  "fst (MemoryCache_Get
      (cache_run MemoryCache_Get MemoryCache_Put NewMemoryCache
        [PutOp ''a'' (sample_cred 50), GetOp \<lparr>ns = 10, zone = UTC\<rparr> ''a'',
         PutOp ''b'' (sample_cred 15)]) \<lparr>ns = 20, zone = Local\<rparr> ''a'')
    = Some (sample_cred 50)"
  by (subst MemoryCache_Get_last_put) (auto simp: sample_cred_def Before_def)

text \<open>
  C17.  Cache keys do not collide: for subjects without a NUL byte and parsed service principals,
  equal keys come from the same subject, principal and output type.
\<close>

theorem CacheKey_injective:
  assumes "CHR 0x00 \<notin> set s" "CHR 0x00 \<notin> set s'" "wf_spn p" "wf_spn p'"
    and "CacheKey s p o1 = CacheKey s' p' o2"
  shows "s = s' \<and> p = p' \<and> o1 = o2"
  using assms by (rule CacheKey_inj_nul_free)

theorem CacheKey_injective_witness:
  "CHR 0x00 \<notin> set ''alice'' \<and> wf_spn sample_spn
   \<and> CacheKey ''alice'' sample_spn OutputCCache = CacheKey (''ali'' @ ''ce'') sample_spn (OutputAPReq - 1)
   \<and> OutputCCache = OutputAPReq - 1"
proof -
  have wf: "wf_spn sample_spn" by (simp add: wf_spn_def wf_component_def sample_spn_def)
  have nul: "CHR 0x00 \<notin> set ''alice''" "CHR 0x00 \<notin> set (''ali'' @ ''ce'')" by simp_all
  have k: "CacheKey ''alice'' sample_spn OutputCCache = CacheKey (''ali'' @ ''ce'') sample_spn (OutputAPReq - 1)"
    by (simp add: output_defs)
  show ?thesis using CacheKey_injective[OF nul wf wf k] wf nul k by blast
qed

text \<open>
  C38.  The condition on subjects is needed: two token subjects, one of them containing a NUL
  byte, and two principals that \<open>ParseServicePrincipal\<close> accepts share a key, although the
  comment of \<open>CacheKey\<close> says that the separators rule this out.
\<close>

theorem CacheKey_collision:
  "\<exists>s s' p p' t t'. ParseServicePrincipal t = Inr p \<and> ParseServicePrincipal t' = Inr p' \<and>
     s \<noteq> s' \<and> p \<noteq> p' \<and> CacheKey s p OutputCCache = CacheKey s' p' OutputCCache"
proof -
  let ?s = "''a''" and ?s' = "''a'' @ [CHR 0x00] @ ''x''"
  let ?p = "\<lparr>Service = ''x'' @ [CHR 0x00] @ ''imap'', Host = ''h'', Realm = []\<rparr>"
  let ?p' = "\<lparr>Service = ''imap'', Host = ''h'', Realm = []\<rparr>"
  have "wf_spn ?p" "wf_spn ?p'" by (simp_all add: wf_spn_def wf_component_def)
  then have "ParseServicePrincipal (SPN_String ?p) = Inr ?p"
    "ParseServicePrincipal (SPN_String ?p') = Inr ?p'"
    by (simp_all only: parse_String)
  moreover have "?s \<noteq> ?s'" "?p \<noteq> ?p'"
    "CacheKey ?s ?p OutputCCache = CacheKey ?s' ?p' OutputCCache"
    by (simp_all add: CacheKey_def SPN_String_def)
  ultimately show ?thesis by blast
qed

end
