(* ===== verification/Request.thy ===== *)
theory Request
  imports Principal TokenType
begin

text \<open>
  Token-exchange requests (\<open>src/request.go\<close>, \<open>src/error_mapping.go\<close>).  The parsed request is a
  struct of \<open>github.com/hstern/go-token-exchange\<close>, of which the fields read here are modelled; the
  grant type's name is a constant of that library and so a parameter.
\<close>

record TokenExchangeRequest =
  GrantType :: string
  Resource :: "string list"
  Audience :: "string list"
  RequestedTokenType :: string
  SubjectToken :: string

definition request_sentinels :: "(sentinel \<times> string) list" where
  "request_sentinels =
     [(ErrWrongGrantType, ''kerbexchange: grant_type is not token-exchange''),
      (ErrMissingSubjectToken, ''kerbexchange: missing subject_token''),
      (ErrNoTarget, ''kerbexchange: no resource or audience names a target SPN'')]"

record ExchangeRequest =
  AccessToken :: string
  Target :: ServicePrincipal
  Output :: OutputType

fun first_in :: "string list \<Rightarrow> string option" where
  "first_in [] = None"
| "first_in (v # vs) = (if v \<noteq> [] then Some v else first_in vs)"

fun firstNonEmpty :: "string list list \<Rightarrow> string" where
  "firstNonEmpty [] = []"
| "firstNonEmpty (g # gs) = (case first_in g of Some v \<Rightarrow> v | None \<Rightarrow> firstNonEmpty gs)"

definition ExchangeRequestFromWire :: "string \<Rightarrow> TokenExchangeRequest \<Rightarrow> ExchangeRequest result" where
  "ExchangeRequestFromWire GrantTypeTokenExchange w =
     (if GrantType w \<noteq> GrantTypeTokenExchange
      then Inl (Errorf [WrapW (Sentinel ErrWrongGrantType), Lit '': '', Quoted (GrantType w)])
      else if SubjectToken w = [] then Inl (Sentinel ErrMissingSubjectToken)
      else
      attempt (OutputTypeFromTokenType (RequestedTokenType w)) (\<lambda>output.
      let raw = firstNonEmpty [Resource w, Audience w] in
      if raw = [] then Inl (Sentinel ErrNoTarget)
      else
      attempt (ParseServicePrincipal raw) (\<lambda>target.
      Inr \<lparr>AccessToken = SubjectToken w, Target = target, Output = output\<rparr>)))"

definition errCodeInvalidRequest :: string where "errCodeInvalidRequest = ''invalid_request''"
definition errCodeInvalidTarget :: string where "errCodeInvalidTarget = ''invalid_target''"

definition TokenExchangeErrorCode :: "goerror \<Rightarrow> string" where
  "TokenExchangeErrorCode err =
     (if errors_Is err ErrNoTarget then errCodeInvalidTarget
      else if errors_Is err ErrWrongGrantType \<or> errors_Is err ErrMissingSubjectToken
           \<or> errors_Is err ErrMalformedSPN \<or> errors_Is err ErrUnknownTokenType
      then errCodeInvalidRequest
      else errCodeInvalidRequest)"

lemmas code_defs = errCodeInvalidRequest_def errCodeInvalidTarget_def

lemma first_in_eq: "first_in g = find (\<lambda>v. v \<noteq> []) g"
  by (induction g) auto

lemma firstNonEmpty_eq:
  "firstNonEmpty gs = (case find (\<lambda>v. v \<noteq> []) (concat gs) of Some v \<Rightarrow> v | None \<Rightarrow> [])"
proof (induction gs)
  case (Cons g gs)
  have "find P (xs @ ys) = (case find P xs of Some v \<Rightarrow> Some v | None \<Rightarrow> find P ys)" for P and xs ys :: "string list"
    by (induction xs) auto
  with Cons show ?case by (auto simp: first_in_eq split: option.splits)
qed simp

lemma find_nonempty: "find (\<lambda>v. v \<noteq> []) vs = Some v \<Longrightarrow> v \<noteq> []"
  by (auto simp: find_Some_iff)

text \<open>The text the target is parsed from.\<close>

definition wire_target :: "TokenExchangeRequest \<Rightarrow> string option" where
  "wire_target w = find (\<lambda>v. v \<noteq> []) (Resource w @ Audience w)"

lemma wire_raw: "firstNonEmpty [Resource w, Audience w] = (case wire_target w of Some v \<Rightarrow> v | None \<Rightarrow> [])"
  by (simp only: firstNonEmpty_eq wire_target_def) simp

lemma wire_target_None: "wire_target w = None \<longleftrightarrow> (\<forall>v \<in> set (Resource w @ Audience w). v = [])"
  by (auto simp: wire_target_def find_None_iff)

lemma FromWire_eq:
  "ExchangeRequestFromWire gt w =
     (if GrantType w \<noteq> gt then Inl (Errorf [WrapW (Sentinel ErrWrongGrantType), Lit '': '', Quoted (GrantType w)])
      else if SubjectToken w = [] then Inl (Sentinel ErrMissingSubjectToken)
      else attempt (OutputTypeFromTokenType (RequestedTokenType w)) (\<lambda>output.
        case wire_target w of
          None \<Rightarrow> Inl (Sentinel ErrNoTarget)
        | Some raw \<Rightarrow> attempt (ParseServicePrincipal raw) (\<lambda>target.
            Inr \<lparr>AccessToken = SubjectToken w, Target = target, Output = output\<rparr>)))"
proof (cases "wire_target w")
  case (Some raw)
  then have "raw \<noteq> []" unfolding wire_target_def by (rule find_nonempty)
  with Some show ?thesis by (simp add: ExchangeRequestFromWire_def wire_raw del: firstNonEmpty.simps)
qed (simp add: ExchangeRequestFromWire_def wire_raw del: firstNonEmpty.simps)

lemma FromWire_wf: "ExchangeRequestFromWire gt w = Inr r \<Longrightarrow> wf_spn (Target r)"
  using parse_wf by (fastforce simp: FromWire_eq attempt_eq_Inr split: if_splits option.splits)

lemma errors_Is_token_type:
  "OutputTypeFromTokenType uri = Inl e \<Longrightarrow> errors_Is e t = (t = ErrUnknownTokenType)"
  by (auto simp: OutputTypeFromTokenType_def split: if_splits)

lemma errors_Is_spn: "ParseServicePrincipal s = Inl e \<Longrightarrow> errors_Is e t = (t = ErrMalformedSPN)"
  by (auto simp: ParseServicePrincipal_def malformedSPN_def split: option.splits if_splits prod.splits)

text \<open>The checks, in their order.\<close>

lemma FromWire_refused [consumes 1, case_names grant token type target spn]:
  assumes "ExchangeRequestFromWire gt w = Inl e"
  obtains "GrantType w \<noteq> gt" "e = Errorf [WrapW (Sentinel ErrWrongGrantType), Lit '': '', Quoted (GrantType w)]"
    | "GrantType w = gt" "SubjectToken w = []" "e = Sentinel ErrMissingSubjectToken"
    | "GrantType w = gt" "SubjectToken w \<noteq> []" "OutputTypeFromTokenType (RequestedTokenType w) = Inl e"
    | out where "GrantType w = gt" "SubjectToken w \<noteq> []" "OutputTypeFromTokenType (RequestedTokenType w) = Inr out"
        "wire_target w = None" "e = Sentinel ErrNoTarget"
    | out raw where "GrantType w = gt" "SubjectToken w \<noteq> []" "OutputTypeFromTokenType (RequestedTokenType w) = Inr out"
        "wire_target w = Some raw" "ParseServicePrincipal raw = Inl e"
  using assms by (auto simp: FromWire_eq attempt_eq_Inl split: if_splits option.splits)

section \<open>Properties\<close>

text \<open>
  C24.  What makes a request unprocessable, in the order the code checks it, and what the rest
  becomes: the target is parsed from the first non-empty resource, or else audience.
\<close>

theorem ExchangeRequestFromWire_spec:
  "ExchangeRequestFromWire gt w = Inr r \<longleftrightarrow>
     GrantType w = gt \<and> SubjectToken w \<noteq> [] \<and> AccessToken r = SubjectToken w
     \<and> (RequestedTokenType w \<in> {[], KrbCCacheTokenType} \<and> Output r = OutputCCache
        \<or> RequestedTokenType w = KrbAPReqTokenType \<and> Output r = OutputAPReq)
     \<and> (\<exists>raw. find (\<lambda>v. v \<noteq> []) (Resource w @ Audience w) = Some raw
         \<and> ParseServicePrincipal raw = Inr (Target r))"
  by (cases r; cases "wire_target w")
    (auto simp: FromWire_eq attempt_eq_Inr OutputTypeFromTokenType_def wire_target_def[symmetric])

text \<open>Which error a rejected request gets, and which code the HTTP layer reports for it.\<close>

lemma ExchangeRequestFromWire_errors:
  assumes "ExchangeRequestFromWire gt w = Inl e"
  shows "(if GrantType w \<noteq> gt then errors_Is e ErrWrongGrantType
     else if SubjectToken w = [] then errors_Is e ErrMissingSubjectToken
     else if RequestedTokenType w \<notin> {[], KrbCCacheTokenType, KrbAPReqTokenType} then errors_Is e ErrUnknownTokenType
     else if \<forall>v \<in> set (Resource w @ Audience w). v = [] then errors_Is e ErrNoTarget
     else errors_Is e ErrMalformedSPN)
    \<and> (TokenExchangeErrorCode e = ''invalid_target'' \<longleftrightarrow>
         GrantType w = gt \<and> SubjectToken w \<noteq> []
         \<and> RequestedTokenType w \<in> {[], KrbCCacheTokenType, KrbAPReqTokenType}
         \<and> (\<forall>v \<in> set (Resource w @ Audience w). v = []))
    \<and> TokenExchangeErrorCode e \<in> {''invalid_target'', ''invalid_request''}"
proof -
  from assms show ?thesis
  proof (cases rule: FromWire_refused)
    case type
    then show ?thesis
      by (auto simp: errors_Is_token_type TokenExchangeErrorCode_def code_defs OutputTypeFromTokenType_def split: if_splits)
  next
    case spn
    moreover have "\<not> (\<forall>v \<in> set (Resource w @ Audience w). v = [])" using spn wire_target_None[of w] by simp
    ultimately show ?thesis
      by (auto simp: errors_Is_spn TokenExchangeErrorCode_def code_defs OutputTypeFromTokenType_def split: if_splits)
  qed (auto simp: wire_target_None TokenExchangeErrorCode_def code_defs OutputTypeFromTokenType_def split: if_splits)
qed

end
