(* ===== verification/Resolver.thy ===== *)
theory Resolver
  imports Krb5
begin

text \<open>
  Mapping a validated identity and a requested service to Kerberos principals
  (\<open>src/resolver.go\<close>).  The interface \<open>Resolver\<close> is the locale \<open>resolver\<close>: what the exchange
  relies on is that the service and host asked for are the ones resolved, and that a realm given in
  the request is kept.
\<close>

type_synonym Resolver = "Identity \<Rightarrow> ServicePrincipal \<Rightarrow> (PrincipalName \<times> string \<times> ServicePrincipal) result"

record StaticResolver =
  DefaultRealm :: string

definition StaticResolver_Resolve :: "krb5 \<Rightarrow> StaticResolver \<Rightarrow> Resolver" where
  "StaticResolver_Resolve K r i requested =
     (let cname = \<lparr>NameType = KRB_NT_PRINCIPAL K, NameString = [Subject i]\<rparr>;
          target = (if Realm requested = [] then requested\<lparr>Realm := DefaultRealm r\<rparr> else requested)
      in Inr (cname, DefaultRealm r, target))"

locale resolver =
  fixes resolve :: Resolver
    and default_realm :: string
  assumes resolve_subject: "resolve i p = Inr (cn, cr, t) \<Longrightarrow> NameString cn = [Subject i]"
    and resolve_service: "resolve i p = Inr (cn, cr, t) \<Longrightarrow> Service t = Service p \<and> Host t = Host p"
    and resolve_realm: "resolve i p = Inr (cn, cr, t) \<Longrightarrow>
      Realm t = (if Realm p = [] then default_realm else Realm p)"
begin

lemma resolve_target:
  "resolve i p = Inr (cn, cr, t) \<Longrightarrow>
   t = p\<lparr>Realm := (if Realm p = [] then default_realm else Realm p)\<rparr>"
  using resolve_service[of i p cn cr t] resolve_realm[of i p cn cr t]
  by (cases t; cases p) simp

end

interpretation sr: resolver "StaticResolver_Resolve K r" "DefaultRealm r"
  by unfold_locales (auto simp: StaticResolver_Resolve_def Let_def split: if_splits)

end
