(* ===== verification/Exchange.thy ===== *)
theory Exchange
  imports Issue Cache Request Resolver
begin

text \<open>
  The service (\<open>src/service.go\<close>): validate, look up, resolve, mint, output, store.  The
  interfaces \<open>TokenValidator\<close>, \<open>Resolver\<close>, \<open>Minter\<close> and \<open>Cache\<close> are fields holding their
  methods; the state of the cache is threaded through \<open>Service_Exchange\<close>.  The part between a
  cache miss and the store is \<open>exchange_issue\<close>.
\<close>

record 'c CacheOps =
  cache_Get :: "'c \<Rightarrow> gotime \<Rightarrow> string \<Rightarrow> Credential option \<times> 'c"
  cache_Put :: "'c \<Rightarrow> string \<Rightarrow> Credential \<Rightarrow> 'c"

record 'c Service =
  sv_Validator :: "world \<Rightarrow> string \<Rightarrow> Identity result"
  sv_Resolver :: Resolver
  sv_Minter :: Minter
  sv_Cache :: "'c CacheOps option"
  sv_MaxLifetime :: duration

text \<open>\<open>EndTime = min(now + MaxLifetime, token exp)\<close>, the zero time standing for no expiry.\<close>

definition exchange_end :: "duration \<Rightarrow> gotime \<Rightarrow> gotime \<Rightarrow> gotime" where
  "exchange_end MaxLifetime now expiry =
     (if MaxLifetime > 0 then
        let capT = Add now MaxLifetime
        in if IsZero expiry \<or> Before capT expiry then capT else expiry
      else expiry)"

definition exchange_issue ::
    "krb5 \<Rightarrow> 'c Service \<Rightarrow> world \<Rightarrow> Identity \<Rightarrow> ExchangeRequest \<Rightarrow> Credential result" where
  "exchange_issue K s w i req =
     attempt (sv_Resolver s i (Target req)) (\<lambda>(cname, crealm, target).
     let now = now_issue w;
         end' = exchange_end (sv_MaxLifetime s) now (Expiry i)
     in
     attempt (sv_Minter s w target
       \<lparr>mo_ClientName = cname, mo_ClientRealm = crealm, mo_Identity = i, mo_AuthTime = now,
        mo_StartTime = zeroTime, mo_EndTime = end', mo_RenewTill = zeroTime\<rparr>) (\<lambda>mt.
     MintedTicket_Credential K w mt (Output req)))"

definition Service_Exchange ::
    "krb5 \<Rightarrow> 'c Service \<Rightarrow> 'c \<Rightarrow> world \<Rightarrow> ExchangeRequest \<Rightarrow> Credential result \<times> 'c" where
  "Service_Exchange K s c w req =
     (case sv_Validator s w (AccessToken req) of
        Inl e \<Rightarrow> (Inl e, c)
      | Inr i \<Rightarrow>
          let key = CacheKey (Subject i) (Target req) (Output req);
              (hit, c1) = (case sv_Cache s of
                             None \<Rightarrow> (None, c)
                           | Some ops \<Rightarrow> cache_Get ops c (now_get w) key)
          in case hit of
               Some cred \<Rightarrow> (Inr cred, c1)
             | None \<Rightarrow>
                 (case exchange_issue K s w i req of
                    Inl e \<Rightarrow> (Inl e, c1)
                  | Inr cred \<Rightarrow>
                      (Inr cred, (case sv_Cache s of
                                    None \<Rightarrow> c1
                                  | Some ops \<Rightarrow> cache_Put ops c1 key cred))))"

section \<open>The lifetime of a credential\<close>

lemma exchange_end_cap: "0 < d \<Longrightarrow> ns (exchange_end d now x) \<le> ns now + d"
  by (auto simp: exchange_end_def Add_def IsZero_def Before_def Let_def)

lemma exchange_end_expiry: "ns x \<noteq> 0 \<Longrightarrow> ns (exchange_end d now x) \<le> ns x"
  by (auto simp: exchange_end_def Add_def IsZero_def Before_def Let_def)

lemma exchange_end_min:
  "ns (exchange_end d now x) =
     (if d \<le> 0 then ns x else if ns x = 0 then ns now + d else min (ns now + d) (ns x))"
  by (auto simp: exchange_end_def Add_def IsZero_def Before_def Let_def)

section \<open>What an exchange returns, over the interfaces\<close>

text \<open>The principal a request resolves to, and the representation a credential carries.\<close>

definition defaulted :: "string \<Rightarrow> ServicePrincipal \<Rightarrow> ServicePrincipal" where
  "defaulted realm p = (if Realm p = [] then p\<lparr>Realm := realm\<rparr> else p)"

definition same_ticket :: "MintedTicket \<Rightarrow> Credential \<Rightarrow> bool" where
  "same_ticket mt cred =
     (Cred_Target cred = mt_Target mt \<and> Cred_Expiry cred = mt_EndTime mt
      \<and> Cred_Subject cred = (case NameString (mt_ClientName mt) of [] \<Rightarrow> [] | n # _ \<Rightarrow> n))"

text \<open>
  The bytes in a credential of an output type: those of one ticket that the service's minter minted,
  with the credential's subject, target and expiry, written as a ccache or wrapped as an AP-REQ token,
  and nothing in the other representation.
\<close>

definition carries :: "krb5 \<Rightarrow> 'c Service \<Rightarrow> OutputType \<Rightarrow> Credential \<Rightarrow> bool" where
  "carries K s out cred \<longleftrightarrow>
     (\<exists>w spn opts mt. sv_Minter s w spn opts = Inr mt \<and> same_ticket mt cred
        \<and> (out = OutputAPReq \<and> MarshalAPReqToken K w mt = Cred_APReq cred
             \<and> (\<exists>tok. Cred_APReq cred = Inr tok) \<and> Cred_CCache cred = Inl (Sentinel ErrNoCCache)
           \<or> out = OutputCCache \<and> MarshalCCache K mt = Inr (cr_ccache cred) \<and> Cred_APReq cred = Inl (Sentinel ErrNoAPReq)))"

text \<open>A credential fits a subject and a request: who it is for, what it opens, in which form.\<close>

definition fits ::
    "krb5 \<Rightarrow> 'c Service \<Rightarrow> string \<Rightarrow> string \<Rightarrow> ServicePrincipal \<Rightarrow> OutputType \<Rightarrow> Credential \<Rightarrow> bool" where
  "fits K s realm subject p out cred =
     (Cred_Subject cred = subject \<and> Service (Cred_Target cred) = Service p \<and> Host (Cred_Target cred) = Host p
      \<and> (Realm (defaulted realm p) \<noteq> [] \<longrightarrow> Cred_Target cred = defaulted realm p) \<and> carries K s out cred)"

text \<open>Where the entries of a cache come from: an issue for a validated token.\<close>

definition issued_for :: "krb5 \<Rightarrow> 'c Service \<Rightarrow> string \<Rightarrow> Credential \<Rightarrow> bool" where
  "issued_for K s key cred \<longleftrightarrow>
     (\<exists>w i req. sv_Validator s w (AccessToken req) = Inr i \<and> wf_spn (Target req)
        \<and> key = CacheKey (Subject i) (Target req) (Output req) \<and> exchange_issue K s w i req = Inr cred)"

text \<open>The cache states a history of exchanges of parsed requests can reach.\<close>

inductive cache_reachable :: "krb5 \<Rightarrow> 'c Service \<Rightarrow> 'c \<Rightarrow> 'c \<Rightarrow> bool" for K s c0 where
  start: "cache_reachable K s c0 c0"
| exchange: "cache_reachable K s c0 c \<Longrightarrow> wf_spn (Target req) \<Longrightarrow>
    cache_reachable K s c0 (snd (Service_Exchange K s c w req))"

locale exchange_service =
  credential_cache new get put entries + minter mint + resolver resolve default_realm
  for new :: 'c and get put entries and mint and resolve and default_realm +
  fixes K :: krb5 and s :: "'c Service"
  assumes svc_cache: "sv_Cache s = Some \<lparr>cache_Get = get, cache_Put = put\<rparr>"
    and svc_minter: "sv_Minter s = mint"
    and svc_resolver: "sv_Resolver s = resolve"
begin

lemma issue_Inr:
  assumes "exchange_issue K s w i req = Inr cred"
  shows "fits K s default_realm (Subject i) (Target req) (Output req) cred"
    and "Cred_Expiry cred = toUTC (exchange_end (sv_MaxLifetime s) (now_issue w) (Expiry i))"
    and "ns (now_issue w) < ns (Cred_Expiry cred)"
proof -
  let ?opts = "\<lambda>cn cr. \<lparr>mo_ClientName = cn, mo_ClientRealm = cr, mo_Identity = i, mo_AuthTime = now_issue w,
        mo_StartTime = zeroTime, mo_EndTime = exchange_end (sv_MaxLifetime s) (now_issue w) (Expiry i),
        mo_RenewTill = zeroTime\<rparr>"
  from assms obtain cn cr t mt where r: "resolve i (Target req) = Inr (cn, cr, t)"
    and m: "mint w t (?opts cn cr) = Inr mt" and c: "MintedTicket_Credential K w mt (Output req) = Inr cred"
    by (auto simp: exchange_issue_def svc_minter svc_resolver attempt_eq_Inr Let_def)
  have t: "t = defaulted default_realm (Target req)"
    using resolve_target[OF r] by (cases "Target req") (auto simp: defaulted_def)
  have d: "Service (defaulted r p) = Service p \<and> Host (defaulted r p) = Host p" for r p
    by (simp add: defaulted_def)
  have "same_ticket mt cred" by (simp add: same_ticket_def Credential_Inr[OF c])
  moreover have "Output req = OutputAPReq \<and> MarshalAPReqToken K w mt = Cred_APReq cred
        \<and> (\<exists>tok. Cred_APReq cred = Inr tok) \<and> Cred_CCache cred = Inl (Sentinel ErrNoCCache)
      \<or> Output req = OutputCCache \<and> MarshalCCache K mt = Inr (cr_ccache cred) \<and> Cred_APReq cred = Inl (Sentinel ErrNoAPReq)"
    by (rule Credential_cases[OF c]) (simp_all add: NewCredential_def Cred_APReq_def Cred_CCache_def)
  ultimately have "carries K s (Output req) cred" using m unfolding carries_def svc_minter by blast
  moreover have "Cred_Subject cred = Subject i"
    using mint_client[OF m] resolve_subject[OF r] by (simp add: Credential_Inr[OF c])
  ultimately show "fits K s default_realm (Subject i) (Target req) (Output req) cred"
    using mint_target[OF m] unfolding t by (simp add: fits_def Credential_Inr[OF c] d)
  show "Cred_Expiry cred = toUTC (exchange_end (sv_MaxLifetime s) (now_issue w) (Expiry i))"
    using mint_end[OF m] by (simp add: Credential_Inr[OF c])
  show "ns (now_issue w) < ns (Cred_Expiry cred)"
    using mint_lifetime_positive[OF m] by (simp add: Credential_Inr[OF c])
qed

lemma exchange_cases:
  assumes "Service_Exchange K s c w req = (r, c')"
  obtains (invalid) e where "sv_Validator s w (AccessToken req) = Inl e" "r = Inl e" "c' = c"
    | (hit) i cred where "sv_Validator s w (AccessToken req) = Inr i" "r = Inr cred"
        "entries c (CacheKey (Subject i) (Target req) (Output req)) = Some cred" "live (now_get w) cred"
        "entries c' = entries c"
    | (failed) i e where "sv_Validator s w (AccessToken req) = Inr i" "exchange_issue K s w i req = Inl e"
        "r = Inl e" "entries c' \<subseteq>\<^sub>m entries c"
    | (fresh) i cred where "sv_Validator s w (AccessToken req) = Inr i"
        "exchange_issue K s w i req = Inr cred" "r = Inr cred"
        "\<exists>m. m \<subseteq>\<^sub>m entries c \<and> entries c' = m(CacheKey (Subject i) (Target req) (Output req) \<mapsto> cred)"
proof (cases "sv_Validator s w (AccessToken req)")
  case (Inl e)
  with assms that(1) show thesis by (simp add: Service_Exchange_def)
next
  case (Inr i)
  let ?k = "CacheKey (Subject i) (Target req) (Output req)"
  obtain h c1 where g: "get c (now_get w) ?k = (h, c1)" by (cases "get c (now_get w) ?k")
  show thesis
  proof (cases h)
    case (Some cred)
    with g assms Inr have "r = Inr cred" "c' = c1" by (auto simp: Service_Exchange_def svc_cache)
    with that(2)[OF Inr] g Some get_hit[of c "now_get w" ?k cred c1] show thesis by simp
  next
    case None
    note g' = get_le[OF g]
    show thesis
    proof (cases "exchange_issue K s w i req")
      case (Inl e)
      with None g assms \<open>sv_Validator s w (AccessToken req) = Inr i\<close> have "r = Inl e" "c' = c1"
        by (auto simp: Service_Exchange_def svc_cache)
      with that(3)[OF \<open>sv_Validator s w (AccessToken req) = Inr i\<close> Inl] g' show thesis by simp
    next
      case (Inr cred)
      with None g assms \<open>sv_Validator s w (AccessToken req) = Inr i\<close> have "r = Inr cred" "c' = put c1 ?k cred"
        by (auto simp: Service_Exchange_def svc_cache)
      with that(4)[OF \<open>sv_Validator s w (AccessToken req) = Inr i\<close> Inr] g' show thesis by (auto simp: put_entries)
    qed
  qed
qed

lemma reachable_issued:
  "cache_reachable K s new c \<Longrightarrow> entries c k = Some cred \<Longrightarrow> issued_for K s k cred"
proof (induction arbitrary: k cred rule: cache_reachable.induct)
  case start
  then show ?case by (simp add: entries_new)
next
  case (exchange c req w)
  obtain r c' where e: "Service_Exchange K s c w req = (r, c')" by (cases "Service_Exchange K s c w req")
  have c': "entries c' k = Some cred" using exchange.prems e by simp
  from e show ?case
  proof (cases rule: exchange_cases)
    case (fresh i x)
    then obtain m where m: "m \<subseteq>\<^sub>m entries c" "entries c' = m(CacheKey (Subject i) (Target req) (Output req) \<mapsto> x)" by blast
    show ?thesis
    proof (cases "k = CacheKey (Subject i) (Target req) (Output req)")
      case True
      with c' m fresh exchange.hyps(2) show ?thesis by (auto simp: issued_for_def)
    next
      case False
      with c' m(2) have "m k = Some cred" by simp
      with m(1) exchange.IH show ?thesis by (auto simp: map_le_def dom_def)
    qed
  qed (use c' exchange.IH in \<open>auto simp: map_le_def dom_def\<close>)
qed

text \<open>
  A credential issued under some key carries the output type in that key; and if the key is that of a
  request without NUL bytes, it was issued for that request.
\<close>

lemma issued_for_source:
  assumes "issued_for K s (CacheKey subject p out) cred" "wf_spn p"
  shows "\<exists>w i req. sv_Validator s w (AccessToken req) = Inr i \<and> wf_spn (Target req) \<and> Output req = out
      \<and> CacheKey (Subject i) (Target req) out = CacheKey subject p out
      \<and> (separable subject p \<longrightarrow> Subject i = subject \<and> Target req = p)
      \<and> exchange_issue K s w i req = Inr cred"
proof -
  from assms(1) obtain w i req where v: "sv_Validator s w (AccessToken req) = Inr i" "wf_spn (Target req)"
    and k: "CacheKey subject p out = CacheKey (Subject i) (Target req) (Output req)"
    and iss: "exchange_issue K s w i req = Inr cred"
    by (auto simp: issued_for_def)
  from CacheKey_output[OF k] CacheKey_separable[OF _ k assms(2) v(2)] v k iss show ?thesis by metis
qed

lemma issued_for_fits:
  assumes "issued_for K s (CacheKey subject p out) cred" "wf_spn p"
  shows "carries K s out cred" and "separable subject p \<Longrightarrow> fits K s default_realm subject p out cred"
  using issued_for_source[OF assms] issue_Inr(1) by (auto simp: fits_def)

text \<open>
  Where a returned credential comes from: an issue under the key of this request, either of this
  exchange or of the one that stored it; and it has not expired when it is returned.
\<close>

lemma exchange_source:
  assumes "cache_reachable K s new c" "Service_Exchange K s c w req = (Inr cred, c')" "wf_spn (Target req)"
  shows "\<exists>i. sv_Validator s w (AccessToken req) = Inr i
      \<and> issued_for K s (CacheKey (Subject i) (Target req) (Output req)) cred
      \<and> (ns (now_get w) \<le> ns (Cred_Expiry cred) \<or> ns (now_issue w) < ns (Cred_Expiry cred))"
  using assms(2)
proof (cases rule: exchange_cases)
  case (hit i x)
  then have "issued_for K s (CacheKey (Subject i) (Target req) (Output req)) cred"
    using reachable_issued[OF assms(1)] by simp
  with hit show ?thesis by (auto simp: live_def Before_def)
next
  case (fresh i x)
  then have "issued_for K s (CacheKey (Subject i) (Target req) (Output req)) cred"
    using assms(3) by (auto simp: issued_for_def)
  with fresh issue_Inr(3)[OF fresh(2)] show ?thesis by auto
qed simp_all

text \<open>With a validator that never returns a subject with a NUL byte, it was issued for this request.\<close>

lemma issued_for_nul_free:
  assumes "issued_for K s (CacheKey (Subject i) p out) cred" "wf_spn p" "sv_Validator s w tok = Inr i"
    and nul: "\<forall>w t i. sv_Validator s w t = Inr i \<longrightarrow> CHR 0x00 \<notin> set (Subject i)"
  shows "\<exists>w' i' req'. sv_Validator s w' (AccessToken req') = Inr i' \<and> Subject i' = Subject i \<and> Target req' = p
      \<and> Output req' = out \<and> exchange_issue K s w' i' req' = Inr cred"
proof -
  from issued_for_source[OF assms(1,2)] obtain w' i' req' where v: "sv_Validator s w' (AccessToken req') = Inr i'"
    and wf: "wf_spn (Target req')" and k: "CacheKey (Subject i') (Target req') out = CacheKey (Subject i) p out"
    and o: "Output req' = out" "exchange_issue K s w' i' req' = Inr cred" by blast
  have "Subject i' = Subject i \<and> Target req' = p \<and> out = out"
    using nul assms(2,3) v wf k by (intro CacheKey_inj_nul_free) blast+
  with v o show ?thesis by blast
qed

text \<open>
  A credential an exchange returns fits the validated subject and the request, whether it was
  minted or found.
\<close>

lemma exchange_fits:
  assumes "cache_reachable K s new c" "Service_Exchange K s c w req = (Inr cred, c')" "wf_spn (Target req)"
    and nul: "\<forall>w t i. sv_Validator s w t = Inr i \<longrightarrow> CHR 0x00 \<notin> set (Subject i)"
  shows "\<exists>i. sv_Validator s w (AccessToken req) = Inr i
      \<and> fits K s default_realm (Subject i) (Target req) (Output req) cred
      \<and> (ns (now_get w) \<le> ns (Cred_Expiry cred) \<or> ns (now_issue w) < ns (Cred_Expiry cred))"
  using exchange_source[OF assms(1-3)] issued_for_nul_free[OF _ assms(3) _ nul] issue_Inr(1) by metis

lemma exchange_miss_expiry:
  assumes "Service_Exchange K s c w req = (Inr cred, c')" "sv_Validator s w (AccessToken req) = Inr i"
    and "entries c (CacheKey (Subject i) (Target req) (Output req)) = None"
  shows "Cred_Expiry cred = toUTC (exchange_end (sv_MaxLifetime s) (now_issue w) (Expiry i))
    \<and> ns (now_issue w) < ns (Cred_Expiry cred)"
  using assms(1)
  by (cases rule: exchange_cases) (use assms(2,3) issue_Inr(2,3) in auto)

lemma exchange_second:
  assumes "Service_Exchange K s c w req = (Inr cred, c')" "sv_Validator s w (AccessToken req) = Inr i"
    and "sv_Validator s w2 (AccessToken req2) = Inr i2" "Subject i2 = Subject i"
    and "Target req2 = Target req" "Output req2 = Output req" "live (now_get w2) cred"
  shows "fst (Service_Exchange K s c' w2 req2) = Inr cred"
proof -
  let ?k = "CacheKey (Subject i) (Target req) (Output req)"
  have "entries c' ?k = Some cred"
    using assms(1) by (cases rule: exchange_cases) (use assms(2) in auto)
  then have "fst (get c' (now_get w2) ?k) = Some cred" using get_result[of c' "now_get w2" ?k] assms(7) by simp
  then obtain c'' where "get c' (now_get w2) ?k = (Some cred, c'')" by (metis prod.collapse)
  with assms(3-6) show ?thesis by (simp add: Service_Exchange_def svc_cache)
qed

end

section \<open>The service as the server builds it\<close>

text \<open>A service with the repository's own resolver, minter and cache, around any validator.\<close>

definition memory_ops :: "MemoryCache CacheOps" where
  "memory_ops = \<lparr>cache_Get = MemoryCache_Get, cache_Put = MemoryCache_Put\<rparr>"

definition direct_service ::
    "krb5 \<Rightarrow> (world \<Rightarrow> string \<Rightarrow> Identity result) \<Rightarrow> string \<Rightarrow> DirectMinter \<Rightarrow> duration \<Rightarrow> MemoryCache Service" where
  "direct_service K validate realm m maxLifetime =
     \<lparr>sv_Validator = validate, sv_Resolver = StaticResolver_Resolve K \<lparr>DefaultRealm = realm\<rparr>,
      sv_Minter = DirectMinter_Mint K m, sv_Cache = Some memory_ops, sv_MaxLifetime = maxLifetime\<rparr>"

interpretation ds: exchange_service NewMemoryCache MemoryCache_Get MemoryCache_Put store
    "DirectMinter_Mint K m" "StaticResolver_Resolve K \<lparr>DefaultRealm = realm\<rparr>" realm K
    "direct_service K validate realm m maxLifetime"
proof -
  have "resolver (StaticResolver_Resolve K \<lparr>DefaultRealm = realm\<rparr>) realm"
    using sr.resolver_axioms[of K "\<lparr>DefaultRealm = realm\<rparr>"] by simp
  then show "exchange_service NewMemoryCache MemoryCache_Get MemoryCache_Put store
      (DirectMinter_Mint K m) (StaticResolver_Resolve K \<lparr>DefaultRealm = realm\<rparr>) realm
      (direct_service K validate realm m maxLifetime)"
    by (intro exchange_service.intro exchange_service_axioms.intro mc.credential_cache_axioms dm.minter_axioms)
      (simp_all add: direct_service_def memory_ops_def)
qed

section \<open>When an exchange succeeds\<close>

text \<open>
  Issuing one credential calls the Kerberos library some ten times, and each of these calls can fail.
  The following predicates say that they succeed on the values they are made with: for a ticket with
  service key \<open>skey\<close> whose PAC the KDC key \<open>kdcKey\<close> signs too, the key type is known, a session
  key is generated, and signing, encoding and encrypting this ticket succeed; then this ticket can
  be written as a ccache or as an AP-REQ.
\<close>

definition ticket_calls ::
    "krb5 \<Rightarrow> world \<Rightarrow> DirectMinter \<Rightarrow> MintOptions \<Rightarrow> EncryptionKey \<Rightarrow> int \<Rightarrow> EncryptionKey
     \<Rightarrow> KerbValidationInfo \<Rightarrow> ClientInfo \<Rightarrow> bool" where
  "ticket_calls K w m opts skey kvno kdcKey kvi ci \<longleftrightarrow>
     (\<exists>et sessionKey pac ad plain ed. GetEtype K (KeyType skey) = Inr et \<and> GenerateEncryptionKey K w et = Inr sessionKey
        \<and> SignAndMarshal K kvi ci skey kdcKey = Inr pac
        \<and> Marshal_AuthorizationData K [\<lparr>ADType = ADWin2KPAC K, ADData = pac\<rparr>] = Inr ad
        \<and> Marshal_EncTicketPart K (ticket_part K m opts sessionKey [\<lparr>ADType = ADIfRelevant K, ADData = ad\<rparr>]) = Inr plain
        \<and> GetEncryptedData K w (AddASNAppTag K plain (EncTicketPart_tag K)) skey (KDC_REP_TICKET K) kvno = Inr ed)"

definition render_calls :: "krb5 \<Rightarrow> world \<Rightarrow> MintedTicket \<Rightarrow> OutputType \<Rightarrow> bool" where
  "render_calls K w mt out \<longleftrightarrow>
     (if out = OutputCCache
      then \<exists>tkt cc. Ticket_Marshal K (mt_Ticket mt) = Inr tkt \<and> CCache_Marshal K (ccache_of K mt tkt) = Inr cc
      else \<exists>auth ap der. NewAuthenticator K w (mt_ClientRealm mt) (mt_ClientName mt) = Inr auth
        \<and> NewAPReq K w (mt_Ticket mt) (mt_SessionKey mt) auth = Inr ap \<and> APReq_Marshal K ap = Inr der)"

definition issue_calls ::
    "krb5 \<Rightarrow> world \<Rightarrow> DirectMinter \<Rightarrow> ServicePrincipal \<Rightarrow> MintOptions \<Rightarrow> EncryptionKey \<Rightarrow> int \<Rightarrow> EncryptionKey
     \<Rightarrow> OutputType \<Rightarrow> bool" where
  "issue_calls K w m spn opts skey kvno kdcKey out \<longleftrightarrow>
     (\<forall>build kvi ci. pacBuilder m = Some build \<longrightarrow> build (mo_Identity opts) (toUTC (mo_AuthTime opts)) = Inr (kvi, ci)
        \<longrightarrow> ticket_calls K w m opts skey kvno kdcKey kvi ci)
     \<and> (\<forall>mt. DirectMinter_Mint K m w spn opts = Inr mt \<longrightarrow> render_calls K w mt out)"

text \<open>An encoded ccache starts with the bytes of its format version, so it is not empty.\<close>

definition ccache_header :: "krb5 \<Rightarrow> bool" where
  "ccache_header K \<longleftrightarrow> (\<forall>cc b. CCache_Marshal K cc = Inr b \<longrightarrow> b \<noteq> [])"

lemma Credential_total:
  assumes "render_calls K w mt out" "out \<in> {OutputCCache, OutputAPReq}"
  shows "\<exists>c. MintedTicket_Credential K w mt out = Inr c"
proof (cases "out = OutputCCache")
  case True
  with assms(1) have "\<exists>b. MarshalCCache K mt = Inr b" by (auto simp: render_calls_def MarshalCCache_of)
  with True show ?thesis by (auto simp: MintedTicket_Credential_def Let_def)
next
  case False
  with assms(1) have "\<exists>b. MarshalAPReqToken K w mt = Inr b" by (auto simp: render_calls_def MarshalAPReqToken_def Let_def)
  with assms(2) False show ?thesis by (auto simp: MintedTicket_Credential_def Let_def)
qed

lemma Credential_nonempty:
  assumes "ccache_header K" "MintedTicket_Credential K w mt out = Inr c"
  shows "\<exists>raw. (if out = OutputAPReq then Cred_APReq c else Cred_CCache c) = Inr raw"
  using assms(2)
proof (cases rule: Credential_cases)
  case (ccache cc)
  then have "cc \<noteq> []" using assms(1) by (auto simp: MarshalCCache_of attempt_eq_Inr ccache_header_def)
  with ccache show ?thesis by (simp add: Cred_CCache_def NewCredential_def)
qed (simp add: Cred_APReq_def NewCredential_def)

text \<open>A minter with keys from a keytab and a synthetic PAC, as the server configures it.\<close>

definition pac_minter :: "krb5 \<Rightarrow> KeytabSource \<Rightarrow> string \<Rightarrow> SyntheticPACBuilder \<Rightarrow> DirectMinter" where
  "pac_minter K ks realm b = WithPACBuilder (NewDirectMinter (keytab_keys K ks) realm) (SyntheticPACBuilder_Build K b)"

lemma pac_minter_simps [simp]:
  "dm_keys (pac_minter K ks realm b) = keytab_keys K ks"
  "pacBuilder (pac_minter K ks realm b) = Some (SyntheticPACBuilder_Build K b)"
  by (simp_all add: pac_minter_def WithPACBuilder_def NewDirectMinter_def)

lemma mint_total:
  assumes "IsZero (mo_EndTime opts) = False" "After (mo_EndTime opts) (mo_AuthTime opts)"
    and "KeytabSource_ServiceKey K ks spn (AES256_CTS_HMAC_SHA1_96 K) = Inr (skey, kvno)"
    and "KeytabSource_KDCSigningKey K ks (AES256_CTS_HMAC_SHA1_96 K) = Inr (kdcKey, kv)"
    and "builder_mapper b (mo_Identity opts) = Inr p"
    and "issue_calls K w (pac_minter K ks realm b) spn opts skey kvno kdcKey out"
  shows "\<exists>t. DirectMinter_Mint K (pac_minter K ks realm b) w spn opts = Inr t"
proof -
  let ?m = "pac_minter K ks realm b" and ?at = "toUTC (mo_AuthTime opts)"
  obtain kvi ci where build: "SyntheticPACBuilder_Build K b (mo_Identity opts) ?at = Inr (kvi, ci)"
    using assms(5) Build_error_iff[of K b "mo_Identity opts" ?at]
    by (cases "SyntheticPACBuilder_Build K b (mo_Identity opts) ?at") auto
  with assms(6) have "ticket_calls K w ?m opts skey kvno kdcKey kvi ci" by (simp add: issue_calls_def)
  then obtain et sk pac ad plain ed where c: "GetEtype K (KeyType skey) = Inr et" "GenerateEncryptionKey K w et = Inr sk"
    "SignAndMarshal K kvi ci skey kdcKey = Inr pac"
    "Marshal_AuthorizationData K [\<lparr>ADType = ADWin2KPAC K, ADData = pac\<rparr>] = Inr ad"
    "Marshal_EncTicketPart K (ticket_part K ?m opts sk [\<lparr>ADType = ADIfRelevant K, ADData = ad\<rparr>]) = Inr plain"
    "GetEncryptedData K w (AddASNAppTag K plain (EncTicketPart_tag K)) skey (KDC_REP_TICKET K) kvno = Inr ed"
    unfolding ticket_calls_def by blast
  then have "mint_authdata K ?m skey (mo_Identity opts) ?at = Inr [\<lparr>ADType = ADIfRelevant K, ADData = ad\<rparr>]"
    using build assms(4) by (simp add: mint_authdata_def pacAuthorizationData_def keytab_keys_def)
  with c assms(1,2,3) show ?thesis
    by (simp add: DirectMinter_Mint_def Let_def ticket_part_def keytab_keys_def)
qed

lemma resolve_defaulted:
  "StaticResolver_Resolve K \<lparr>DefaultRealm = realm\<rparr> i p
     = Inr (\<lparr>NameType = KRB_NT_PRINCIPAL K, NameString = [Subject i]\<rparr>, realm, defaulted realm p)"
  by (simp add: StaticResolver_Resolve_def defaulted_def)

text \<open>The options an exchange mints with, for a client that the static resolver found.\<close>

definition exchange_opts :: "krb5 \<Rightarrow> string \<Rightarrow> duration \<Rightarrow> world \<Rightarrow> Identity \<Rightarrow> MintOptions" where
  "exchange_opts K realm d w i =
     \<lparr>mo_ClientName = \<lparr>NameType = KRB_NT_PRINCIPAL K, NameString = [Subject i]\<rparr>, mo_ClientRealm = realm,
      mo_Identity = i, mo_AuthTime = now_issue w, mo_StartTime = zeroTime,
      mo_EndTime = exchange_end d (now_issue w) (Expiry i), mo_RenewTill = zeroTime\<rparr>"

lemma issue_steps:
  "exchange_issue K (direct_service K validate realm m d) w i req =
     attempt (DirectMinter_Mint K m w (defaulted realm (Target req)) (exchange_opts K realm d w i)) (\<lambda>mt.
       MintedTicket_Credential K w mt (Output req))"
  by (simp add: exchange_issue_def direct_service_def resolve_defaulted exchange_opts_def Let_def)

lemma issue_total:
  assumes "Output req \<in> {OutputCCache, OutputAPReq}"
    and "ns (exchange_end d (now_issue w) (Expiry i)) \<noteq> 0" "ns (now_issue w) < ns (exchange_end d (now_issue w) (Expiry i))"
    and "KeytabSource_ServiceKey K ks (defaulted realm (Target req)) (AES256_CTS_HMAC_SHA1_96 K) = Inr (skey, kvno)"
    and "KeytabSource_KDCSigningKey K ks (AES256_CTS_HMAC_SHA1_96 K) = Inr (kdcKey, kv)"
    and "builder_mapper b i = Inr p"
    and calls: "issue_calls K w (pac_minter K ks realm b) (defaulted realm (Target req)) (exchange_opts K realm d w i)
      skey kvno kdcKey (Output req)"
  shows "\<exists>cred. exchange_issue K (direct_service K validate realm (pac_minter K ks realm b) d) w i req = Inr cred"
proof -
  obtain mt where mt: "DirectMinter_Mint K (pac_minter K ks realm b) w (defaulted realm (Target req)) (exchange_opts K realm d w i) = Inr mt"
    using mint_total[OF _ _ assms(4,5) _ calls] assms(2,3,6) by (auto simp: exchange_opts_def IsZero_def After_def)
  with calls have "render_calls K w mt (Output req)" by (simp add: issue_calls_def)
  from Credential_total[OF this assms(1)] mt show ?thesis by (auto simp: issue_steps)
qed

text \<open>Every call succeeds on the transparent library, with a key it knows.\<close>

lemma sample_calls: "KeyType skey = 18 \<Longrightarrow> issue_calls sample_krb5 w m spn opts skey kvno kdcKey out"
  by (simp add: issue_calls_def ticket_calls_def render_calls_def sample_krb5_def)

lemma sample_ccache_header: "ccache_header sample_krb5"
  by (simp add: ccache_header_def sample_krb5_def)

section \<open>Properties\<close>

text \<open>Two tokens of one subject: a broad, long-lived one and a narrow, short-lived one.\<close>

definition sample_validate :: "world \<Rightarrow> string \<Rightarrow> Identity result" where
  "sample_validate w t =
     (if t = ''wide'' then Inr (sample_identity \<lparr>ns = 1000, zone = UTC\<rparr>)
      else if t = ''narrow'' then Inr \<lparr>Subject = ''alice'', Claims = ''{}'', Expiry = \<lparr>ns = 15, zone = UTC\<rparr>\<rparr>
      else Inl (Sentinel ErrTokenInvalid))"

definition sample_service :: "MemoryCache Service" where
  "sample_service = direct_service sample_krb5 sample_validate ''EXAMPLE.COM'' sample_minter 0"

definition sample_request :: "string \<Rightarrow> ExchangeRequest" where
  "sample_request t = \<lparr>AccessToken = t, Target = sample_target, Output = OutputCCache\<rparr>"

lemma sample_wf: "wf_spn (Target (sample_request t))"
  by (simp add: sample_request_def sample_target_def wf_spn_def wf_component_def)

lemma sample_validated: "sv_Validator sample_service w t = sample_validate w t"
  by (simp add: sample_service_def direct_service_def)

lemma sample_credential: "\<exists>c. MintedTicket_Credential sample_krb5 w mt OutputCCache = Inr c"
  by (simp add: MintedTicket_Credential_def MarshalCCache_def) (simp add: sample_krb5_def)

lemma sample_issue:
  "\<exists>c. exchange_issue sample_krb5 sample_service sample_world (sample_identity \<lparr>ns = 1000, zone = UTC\<rparr>)
     (sample_request ''wide'') = Inr c"
proof -
  let ?i = "sample_identity \<lparr>ns = 1000, zone = UTC\<rparr>"
  let ?t = "sample_target\<lparr>Realm := ''EXAMPLE.COM''\<rparr>"
  let ?cn = "\<lparr>NameType = KRB_NT_PRINCIPAL sample_krb5, NameString = [Subject ?i]\<rparr>"
  let ?opts = "\<lparr>mo_ClientName = ?cn, mo_ClientRealm = ''EXAMPLE.COM'', mo_Identity = ?i,
        mo_AuthTime = now_issue sample_world, mo_StartTime = zeroTime,
        mo_EndTime = exchange_end 0 (now_issue sample_world) (Expiry ?i), mo_RenewTill = zeroTime\<rparr>"
  obtain mt where "DirectMinter_Mint sample_krb5 sample_minter sample_world ?t ?opts = Inr mt"
    using sample_mint_any[of ?t ?opts "\<lparr>ns = 1000, zone = UTC\<rparr>" sample_world]
    by (auto simp: exchange_end_def sample_world_def IsZero_def After_def sample_target_def sample_identity_def)
  moreover obtain c where "MintedTicket_Credential sample_krb5 sample_world mt OutputCCache = Inr c"
    using sample_credential by blast
  moreover have "StaticResolver_Resolve sample_krb5 \<lparr>DefaultRealm = ''EXAMPLE.COM''\<rparr> ?i sample_target
      = Inr (?cn, ''EXAMPLE.COM'', ?t)"
    by (simp add: StaticResolver_Resolve_def sample_target_def)
  ultimately show ?thesis
    by (simp add: exchange_issue_def sample_service_def direct_service_def sample_request_def)
qed

lemma sample_exchange:
  "\<exists>cred c'. Service_Exchange sample_krb5 sample_service NewMemoryCache sample_world (sample_request ''wide'') = (Inr cred, c')"
proof -
  from sample_issue obtain c where c: "exchange_issue sample_krb5 sample_service sample_world
      (sample_identity \<lparr>ns = 1000, zone = UTC\<rparr>) (sample_request ''wide'') = Inr c" by blast
  have "sv_Cache sample_service = Some memory_ops" "AccessToken (sample_request ''wide'') = ''wide''"
    by (simp_all add: sample_service_def direct_service_def sample_request_def)
  then show ?thesis
    by (simp add: Service_Exchange_def sample_validated sample_validate_def c memory_ops_def
        MemoryCache_Get_def NewMemoryCache_def Let_def)
qed

text \<open>
  C1.  No credential is handed to the wrong party.  In every cache state a history of exchanges can
  reach, a credential that \<open>Exchange\<close> returns belongs to the subject the validator found in this
  request's token, opens the service and host asked for (in the realm asked for, or else the default
  realm), carries the representation asked for, and had not expired when it was looked up or
  issued.  The validator must not return subjects with a NUL byte, which separates the parts of a
  cache key.
\<close>

theorem Exchange_fits_request:
  assumes "cache_reachable K (direct_service K validate realm m d) NewMemoryCache c"
    and "Service_Exchange K (direct_service K validate realm m d) c w req = (Inr cred, c')"
    and "wf_spn (Target req)"
    and "\<forall>w t i. validate w t = Inr i \<longrightarrow> CHR 0x00 \<notin> set (Subject i)"
  shows "\<exists>i. validate w (AccessToken req) = Inr i
      \<and> fits K (direct_service K validate realm m d) realm (Subject i) (Target req) (Output req) cred
      \<and> (ns (now_get w) \<le> ns (Cred_Expiry cred) \<or> ns (now_issue w) < ns (Cred_Expiry cred))"
  using ds.exchange_fits[OF assms(1,2,3)] assms(4) by (simp add: direct_service_def)

theorem Exchange_fits_request_witness:
  "\<exists>cred c' i. Service_Exchange sample_krb5 sample_service NewMemoryCache sample_world (sample_request ''wide'') = (Inr cred, c')
     \<and> sample_validate sample_world ''wide'' = Inr i
     \<and> fits sample_krb5 sample_service ''EXAMPLE.COM'' (Subject i) sample_target OutputCCache cred"
proof -
  obtain cred c' where e: "Service_Exchange sample_krb5 sample_service NewMemoryCache sample_world (sample_request ''wide'') = (Inr cred, c')"
    using sample_exchange by blast
  have nul: "\<forall>w t i. sample_validate w t = Inr i \<longrightarrow> CHR 0x00 \<notin> set (Subject i)"
    by (auto simp: sample_validate_def sample_identity_def split: if_splits)
  from Exchange_fits_request[OF cache_reachable.start e[unfolded sample_service_def] sample_wf nul] e
  show ?thesis by (auto simp: sample_request_def sample_service_def)
qed

text \<open>
  C7.  The lifetime of a credential that is minted: it ends at the smaller of the token's expiry
  and \<open>now + MaxLifetime\<close> (whichever of the two exist), in UTC, and always after \<open>now\<close>; so it
  never outlives the token it was minted for.
\<close>

theorem Exchange_lifetime:
  assumes "Service_Exchange K (direct_service K validate realm m d) c w req = (Inr cred, c')"
    and "validate w (AccessToken req) = Inr i"
    and "store c (CacheKey (Subject i) (Target req) (Output req)) = None"
  shows "ns (Cred_Expiry cred) =
      (if d \<le> 0 then ns (Expiry i)
       else if IsZero (Expiry i) then ns (now_issue w) + d
       else min (ns (now_issue w) + d) (ns (Expiry i)))
    \<and> zone (Cred_Expiry cred) = UTC \<and> ns (now_issue w) < ns (Cred_Expiry cred)"
proof -
  have v: "sv_Validator (direct_service K validate realm m d) w (AccessToken req) = Inr i"
    "sv_MaxLifetime (direct_service K validate realm m d) = d" using assms(2) by (simp_all add: direct_service_def)
  note x = ds.exchange_miss_expiry[OF assms(1) v(1) assms(3), unfolded v(2)]
  moreover have "ns (toUTC t) = ns t" "zone (toUTC t) = UTC" for t by (simp_all add: toUTC_def)
  ultimately show ?thesis using conjunct2[OF x] by (simp only: exchange_end_min IsZero_def)
qed

theorem Exchange_lifetime_witness:
  "\<exists>cred c'. Service_Exchange sample_krb5 sample_service NewMemoryCache sample_world (sample_request ''wide'') = (Inr cred, c')
     \<and> ns (Cred_Expiry cred) = 1000 \<and> zone (Cred_Expiry cred) = UTC"
proof -
  obtain cred c' where e: "Service_Exchange sample_krb5 sample_service NewMemoryCache sample_world (sample_request ''wide'') = (Inr cred, c')"
    using sample_exchange by blast
  have v: "sample_validate sample_world (AccessToken (sample_request ''wide'')) = Inr (sample_identity \<lparr>ns = 1000, zone = UTC\<rparr>)"
    by (simp add: sample_validate_def sample_request_def)
  have n: "store NewMemoryCache (CacheKey (Subject (sample_identity \<lparr>ns = 1000, zone = UTC\<rparr>))
      (Target (sample_request ''wide'')) (Output (sample_request ''wide''))) = None"
    by (simp add: NewMemoryCache_def)
  from Exchange_lifetime[OF e[unfolded sample_service_def] v n] e show ?thesis
    by (simp add: sample_identity_def)
qed

text \<open>
  C15.  Fails closed: when nothing is cached for the request and the token has already expired, or
  neither the token nor the configuration bounds the lifetime, \<open>Exchange\<close> returns an error and
  stores nothing; the same holds when the validator rejects the token, whose error is returned.  (When
  a credential is cached for the request, it is served to an accepted token whatever that token's
  expiry.)
\<close>

theorem Exchange_fails_closed:
  assumes "case validate w (AccessToken req) of Inl e \<Rightarrow> True
     | Inr i \<Rightarrow> store c (CacheKey (Subject i) (Target req) (Output req)) = None
         \<and> (if IsZero (Expiry i) then d \<le> 0 \<and> 0 \<le> ns (now_issue w) else ns (Expiry i) \<le> ns (now_issue w))"
  shows "\<exists>e c'. Service_Exchange K (direct_service K validate realm m d) c w req = (Inl e, c')
     \<and> store c' \<subseteq>\<^sub>m store c \<and> (\<forall>e'. validate w (AccessToken req) = Inl e' \<longrightarrow> e' = e \<and> c' = c)"
proof (cases "Service_Exchange K (direct_service K validate realm m d) c w req")
  case (Pair r c')
  have v: "sv_Validator (direct_service K validate realm m d) = validate"
    "sv_MaxLifetime (direct_service K validate realm m d) = d" by (simp_all add: direct_service_def)
  from Pair show ?thesis
  proof (cases rule: ds.exchange_cases)
    case (fresh i cred)
    with assms v have "ns (exchange_end d (now_issue w) (Expiry i)) \<le> ns (now_issue w)"
      by (auto simp: exchange_end_min IsZero_def split: if_splits)
    with ds.issue_Inr(2,3)[OF fresh(2)] v(2) have False by (simp add: toUTC_def)
    then show ?thesis ..
  qed (use Pair assms v in auto)
qed

theorem Exchange_fails_closed_witness:
  "\<exists>e c'. Service_Exchange sample_krb5 (direct_service sample_krb5 sample_validate ''EXAMPLE.COM'' sample_minter 0)
     NewMemoryCache (sample_world\<lparr>now_issue := \<lparr>ns = 15, zone = Local\<rparr>\<rparr>) (sample_request ''narrow'') = (Inl e, c')
     \<and> store c' \<subseteq>\<^sub>m Map.empty"
  using Exchange_fails_closed[where validate = sample_validate and req = "sample_request ''narrow''"
      and c = NewMemoryCache and d = 0 and w = "sample_world\<lparr>now_issue := \<lparr>ns = 15, zone = Local\<rparr>\<rparr>"
      and K = sample_krb5 and realm = "''EXAMPLE.COM''" and m = sample_minter]
  by (auto simp: sample_validate_def sample_request_def IsZero_def NewMemoryCache_def)

text \<open>
  A valid token gets a credential: when the validator accepts the token, the lifetime it allows
  lies ahead, the keytab has the keys of the service and of the KDC, the claims can be mapped, and
  the library calls for this ticket succeed, then \<open>Exchange\<close> returns a credential, whatever the cache
  holds.  The same request then finds it in the cache for as long as it lives.
\<close>

lemma Exchange_answers:
  fixes req :: ExchangeRequest
  assumes "validate w (AccessToken req) = Inr i" "Output req \<in> {OutputCCache, OutputAPReq}"
    and "ns (exchange_end d (now_issue w) (Expiry i)) \<noteq> 0" "ns (now_issue w) < ns (exchange_end d (now_issue w) (Expiry i))"
    and "KeytabSource_ServiceKey K ks (defaulted realm (Target req)) (AES256_CTS_HMAC_SHA1_96 K) = Inr (skey, kvno)"
    and "KeytabSource_KDCSigningKey K ks (AES256_CTS_HMAC_SHA1_96 K) = Inr (kdcKey, kv)"
    and "builder_mapper b i = Inr p"
    and "issue_calls K w (pac_minter K ks realm b) (defaulted realm (Target req)) (exchange_opts K realm d w i)
      skey kvno kdcKey (Output req)"
  shows "\<exists>cred c'. Service_Exchange K (direct_service K validate realm (pac_minter K ks realm b) d) c w req = (Inr cred, c')
     \<and> (\<forall>now. fst (MemoryCache_Get c' now (CacheKey (Subject i) (Target req) (Output req)))
         = (if ns now \<le> ns (Cred_Expiry cred) then Some cred else None))"
proof -
  let ?s = "direct_service K validate realm (pac_minter K ks realm b) d"
  let ?key = "CacheKey (Subject i) (Target req) (Output req)"
  obtain cred where cred: "exchange_issue K ?s w i req = Inr cred" using issue_total[OF assms(2-8)] by blast
  obtain hit c1 where g: "MemoryCache_Get c (now_get w) ?key = (hit, c1)" by fastforce
  show ?thesis
  proof (cases hit)
    case None
    with assms(1) cred g have "Service_Exchange K ?s c w req = (Inr cred, MemoryCache_Put c1 ?key cred)"
      by (simp add: Service_Exchange_def direct_service_def memory_ops_def)
    then show ?thesis
      by (auto simp: MemoryCache_Get_def MemoryCache_Put_def Before_def)
  next
    case (Some old)
    with assms(1) g have "Service_Exchange K ?s c w req = (Inr old, c1)"
      by (simp add: Service_Exchange_def direct_service_def memory_ops_def)
    moreover from g Some have "store c1 ?key = Some old"
      by (auto simp: MemoryCache_Get_def Before_def split: option.splits if_splits)
    ultimately show ?thesis by (auto simp: MemoryCache_Get_def Before_def)
  qed
qed

text \<open>
  C14.  Where cached credentials come from: in every reachable cache state, each entry was issued for
  a token the validator accepted, under the key of that token's subject and that request, and ends
  no later than that token.
\<close>

theorem Exchange_cache_provenance:
  assumes "cache_reachable K (direct_service K validate realm m d) NewMemoryCache c" "store c k = Some cred"
  shows "\<exists>w i req. validate w (AccessToken req) = Inr i
      \<and> k = CacheKey (Subject i) (Target req) (Output req)
      \<and> exchange_issue K (direct_service K validate realm m d) w i req = Inr cred
      \<and> fits K (direct_service K validate realm m d) realm (Subject i) (Target req) (Output req) cred
      \<and> (IsZero (Expiry i) \<or> ns (Cred_Expiry cred) \<le> ns (Expiry i))"
proof -
  let ?s = "direct_service K validate realm m d"
  from ds.reachable_issued[OF assms] obtain w i req where v: "validate w (AccessToken req) = Inr i"
    and k: "k = CacheKey (Subject i) (Target req) (Output req)" and e: "exchange_issue K ?s w i req = Inr cred"
    by (auto simp: issued_for_def direct_service_def)
  have "IsZero (Expiry i) \<or> ns (Cred_Expiry cred) \<le> ns (Expiry i)"
    using ds.issue_Inr(2)[OF e] exchange_end_expiry[of "Expiry i"] by (auto simp: IsZero_def toUTC_def)
  with v k e ds.issue_Inr(1)[OF e] show ?thesis by blast
qed

theorem Exchange_cache_provenance_witness:
  "\<exists>(c :: MemoryCache) k cred w i (req :: ExchangeRequest). store c k = Some cred \<and> sample_validate w (AccessToken req) = Inr i
     \<and> k = CacheKey (Subject i) (Target req) (Output req)
     \<and> (IsZero (Expiry i) \<or> ns (Cred_Expiry cred) \<le> ns (Expiry i))"
proof -
  obtain cred c' where e: "Service_Exchange sample_krb5 sample_service NewMemoryCache sample_world (sample_request ''wide'') = (Inr cred, c')"
    using sample_exchange by blast
  have "cache_reachable sample_krb5 sample_service NewMemoryCache
      (snd (Service_Exchange sample_krb5 sample_service NewMemoryCache sample_world (sample_request ''wide'')))"
    by (rule cache_reachable.exchange[OF cache_reachable.start sample_wf])
  then have r: "cache_reachable sample_krb5 sample_service NewMemoryCache c'" by (simp add: e)
  have "\<exists>k. store c' k = Some cred"
    using e unfolding sample_service_def by (cases rule: ds.exchange_cases) auto
  then obtain k where k: "store c' k = Some cred" ..
  from Exchange_cache_provenance[OF r[unfolded sample_service_def] k] obtain w i and req :: ExchangeRequest where
    "sample_validate w (AccessToken req) = Inr i" "k = CacheKey (Subject i) (Target req) (Output req)"
    "IsZero (Expiry i) \<or> ns (Cred_Expiry cred) \<le> ns (Expiry i)" by blast
  with k show ?thesis by blast
qed

text \<open>
  C37.  A cached credential is served without regard to the new token's claims and expiry.  Here one
  subject presents a token with scopes that lives until 1000, and then, for the same service, a
  token without any scope that expires at 15: the second exchange returns the first token's
  credential, whose PAC has the groups of the first token's scopes and which ends after the second
  token.
\<close>

theorem Exchange_cached_outlives_token:
  "\<exists>cred c' i1 i2 w2.
     Service_Exchange sample_krb5 sample_service NewMemoryCache sample_world (sample_request ''wide'') = (Inr cred, c')
     \<and> fst (Service_Exchange sample_krb5 sample_service c' w2 (sample_request ''narrow'')) = Inr cred
     \<and> sample_validate sample_world ''wide'' = Inr i1 \<and> sample_validate w2 ''narrow'' = Inr i2
     \<and> DefaultClaimsMapper_Map \<lparr>GroupsClaim = []\<rparr> i1 = Inr (''alice'', [''staff'', ''admins''], [''mail.read'', ''openid''])
     \<and> DefaultClaimsMapper_Map \<lparr>GroupsClaim = []\<rparr> i2 = Inr (''alice'', [], [])
     \<and> ns (now_get w2) < ns (Expiry i2) \<and> ns (Expiry i2) < ns (Cred_Expiry cred)"
proof -
  let ?i1 = "sample_identity \<lparr>ns = 1000, zone = UTC\<rparr>"
  let ?i2 = "\<lparr>Subject = ''alice'', Claims = ''{}'', Expiry = \<lparr>ns = 15, zone = UTC\<rparr>\<rparr>"
  let ?w2 = "sample_world\<lparr>now_get := \<lparr>ns = 12, zone = Local\<rparr>\<rparr>"
  obtain cred c' where e: "Service_Exchange sample_krb5 sample_service NewMemoryCache sample_world (sample_request ''wide'') = (Inr cred, c')"
    using sample_exchange by blast
  note e' = e[unfolded sample_service_def]
  have v: "sv_Validator sample_service w t = sample_validate w t" for w t by (rule sample_validated)
  have x: "ns (Cred_Expiry cred) = 1000"
    using ds.exchange_miss_expiry[OF e', of ?i1]
    by (simp add: direct_service_def sample_validate_def sample_request_def NewMemoryCache_def
        exchange_end_def toUTC_def sample_identity_def)
  have "fst (Service_Exchange sample_krb5 sample_service c' ?w2 (sample_request ''narrow'')) = Inr cred"
    unfolding sample_service_def
    by (rule ds.exchange_second[OF e', of ?i1 _ _ ?i2])
      (simp_all add: direct_service_def sample_validate_def sample_request_def sample_identity_def live_def Before_def x)
  moreover have "Unmarshal_fields ''{}'' = Some Map.empty" by (simp add: json_eval eval_nat_numeral)
  then have "DefaultClaimsMapper_Map \<lparr>GroupsClaim = []\<rparr> ?i2 = Inr (''alice'', [], [])"
    by (simp add: DefaultClaimsMapper_Map_def raw_field_def stringOrList_def)
  ultimately show ?thesis
    using e x sample_map[of "\<lparr>ns = 1000, zone = UTC\<rparr>"]
    by (intro exI[of _ cred] exI[of _ c'] exI[of _ ?i1] exI[of _ ?i2] exI[of _ ?w2])
      (simp add: sample_validate_def)
qed

end
