(* ===== verification/GoFloat.thy ===== *)
theory GoFloat
  imports GoJson
begin

text \<open>
  Go's \<open>float64\<close> where the repository uses it: \<open>strconv.ParseFloat\<close> on a JSON number literal
  (correctly rounded to the nearest double, ties to even), the comparison with 0, and the
  conversion to \<open>int64\<close>, which truncates towards zero.  A finite double is \<open>\<plusminus>m * 2 ^ q\<close>.
\<close>

record float64 =
  neg :: bool
  mant :: nat
  expo :: int

section \<open>Reading a decimal literal\<close>

definition digits_value :: "nat list \<Rightarrow> nat" where
  "digits_value ds = foldl (\<lambda>v b. v * 10 + (b - 0x30)) 0 ds"

text \<open>The exponent: \<open>ParseFloat\<close> stops accumulating it at 10000.\<close>

fun read_exponent :: "nat \<Rightarrow> nat list \<Rightarrow> nat" where
  "read_exponent e [] = e"
| "read_exponent e (b # bs) = read_exponent (if e < 10000 then e * 10 + (b - 0x30) else e) bs"

text \<open>A literal as sign, decimal mantissa and decimal exponent.\<close>

definition read_decimal :: "nat list \<Rightarrow> bool \<times> nat \<times> int" where
  "read_decimal lit =
     (let (sg, s1) = (case lit of b # r \<Rightarrow> if b = 0x2D then (True, r) else (False, lit) | [] \<Rightarrow> (False, []));
          i = takeWhile num_digit s1;
          s2 = dropWhile num_digit s1;
          (f, s3) = (case s2 of b # r \<Rightarrow> if b = 0x2E then (takeWhile num_digit r, dropWhile num_digit r) else ([], s2)
                              | [] \<Rightarrow> ([], []));
          e = (case s3 of
                 b # c # r \<Rightarrow>
                   if c = 0x2D then - int (read_exponent 0 r)
                   else if c = 0x2B then int (read_exponent 0 r)
                   else int (read_exponent 0 (c # r))
               | _ \<Rightarrow> 0)
      in (sg, digits_value (i @ f), e - int (length f)))"

section \<open>Rounding\<close>

fun log2 :: "nat \<Rightarrow> nat" where
  "log2 n = (if n < 2 then 0 else Suc (log2 (n div 2)))"

declare log2.simps [simp del]

text \<open>The largest \<open>e\<close> with \<open>2 ^ e \<le> n / d\<close>.\<close>

definition ratio_log2 :: "nat \<Rightarrow> nat \<Rightarrow> int" where
  "ratio_log2 n d =
     (let e = int (log2 n) - int (log2 d)
      in if (if e \<ge> 0 then 2 ^ nat e * d \<le> n else d \<le> n * 2 ^ nat (- e)) then e else e - 1)"

definition half_even :: "nat \<Rightarrow> nat \<Rightarrow> nat" where
  "half_even a b =
     (let m = a div b; r = a mod b
      in if 2 * r < b \<or> (2 * r = b \<and> even m) then m else m + 1)"

text \<open>The double nearest to \<open>n / d\<close>; \<open>None\<close> where \<open>ParseFloat\<close> reports a range error.\<close>

definition round_double :: "bool \<Rightarrow> nat \<Rightarrow> nat \<Rightarrow> float64 option" where
  "round_double sg n d =
     (if n = 0 then Some \<lparr>neg = sg, mant = 0, expo = 0\<rparr>
      else let q = max (ratio_log2 n d - 52) (- 1074);
               m = (if q \<ge> 0 then half_even n (d * 2 ^ nat q) else half_even (n * 2 ^ nat (- q)) d)
           in if q \<ge> 0 \<and> m * 2 ^ nat q \<ge> 2 ^ 1024 then None
              else Some \<lparr>neg = sg, mant = m, expo = q\<rparr>)"

definition ParseFloat :: "nat list \<Rightarrow> float64 option" where
  "ParseFloat lit =
     (let (sg, n, e) = read_decimal lit
      in if e \<ge> 0 then round_double sg (n * 10 ^ nat e) 1 else round_double sg n (10 ^ nat (- e)))"

section \<open>Use\<close>

definition float_zero :: float64 where "float_zero = \<lparr>neg = False, mant = 0, expo = 0\<rparr>"

definition float_is_zero :: "float64 \<Rightarrow> bool" where "float_is_zero f = (mant f = 0)"

text \<open>
  \<open>int64(f)\<close>.  Outside the range of \<open>int64\<close> the result depends on the machine, so it is the
  parameter \<open>oor\<close>.
\<close>

definition int64_of_float :: "(float64 \<Rightarrow> int) \<Rightarrow> float64 \<Rightarrow> int" where
  "int64_of_float oor f =
     (let t = (if expo f \<ge> 0 then mant f * 2 ^ nat (expo f) else mant f div 2 ^ nat (- expo f));
          v = (if neg f then - int t else int t)
      in if - (2 ^ 63) \<le> v \<and> v < 2 ^ 63 then v else oor f)"

definition float_trunc :: "float64 \<Rightarrow> nat" where
  "float_trunc f = (if expo f \<ge> 0 then mant f * 2 ^ nat (expo f) else mant f div 2 ^ nat (- expo f))"

text \<open>
  \<open>int(d.Seconds())\<close> for a duration of \<open>d\<close> nanoseconds: \<open>Seconds\<close> adds the whole seconds and the
  rounded quotient of the remaining nanoseconds by \<open>1e9\<close>, rounding the sum again.
\<close>

definition seconds_float :: "nat \<Rightarrow> float64" where
  "seconds_float a =
     (let sec = a div 1000000000; nsec = a mod 1000000000;
          f = the (round_double False nsec 1000000000);
          j = nat (- expo f)
      in the (round_double False (sec * 2 ^ j + mant f) (2 ^ j)))"

definition duration_seconds :: "int \<Rightarrow> int" where
  "duration_seconds d = sgn d * int (float_trunc (seconds_float (nat \<bar>d\<bar>)))"

section \<open>Integers below \<open>2 ^ 53\<close> are exact\<close>

lemma log2_bounds: "0 < n \<Longrightarrow> 2 ^ log2 n \<le> n \<and> n < 2 ^ Suc (log2 n)"
proof (induction n rule: log2.induct)
  case (1 n)
  show ?case
  proof (cases "n < 2")
    case True
    with 1 show ?thesis by (simp add: log2.simps[of n])
  next
    case False
    with 1 have "2 ^ log2 (n div 2) \<le> n div 2 \<and> n div 2 < 2 ^ Suc (log2 (n div 2))" by simp
    moreover have "n = 2 * (n div 2) + n mod 2" "n mod 2 < 2" by simp_all
    ultimately have "2 * 2 ^ log2 (n div 2) \<le> n \<and> n < 2 * (2 * 2 ^ log2 (n div 2))"
      unfolding power_Suc by linarith
    with False show ?thesis by (simp add: log2.simps[of n])
  qed
qed

lemma ratio_log2_one:
  assumes "0 < n"
  shows "ratio_log2 n 1 = int (log2 n)"
proof -
  have "log2 1 = 0" by (simp add: log2.simps)
  with log2_bounds[OF assms] show ?thesis by (simp add: ratio_log2_def Let_def)
qed

lemma round_integer:
  assumes "n < 2 ^ 53"
  shows "\<exists>f. round_double sg n 1 = Some f \<and> (float_is_zero f \<longleftrightarrow> n = 0)
    \<and> int64_of_float oor f = (if sg then - int n else int n)"
proof (cases "n = 0")
  case True
  then show ?thesis by (simp add: round_double_def float_is_zero_def int64_of_float_def)
next
  case False
  then have l: "2 ^ log2 n \<le> n" using log2_bounds[of n] by simp
  have "log2 n \<le> 52"
  proof (rule ccontr)
    assume "\<not> log2 n \<le> 52"
    then have "(2::nat) ^ 53 \<le> 2 ^ log2 n" by (intro power_increasing) auto
    with l assms show False by simp
  qed
  define k where "k = 52 - log2 n"
  have q: "max (ratio_log2 n 1 - 52) (- 1074) = - int k"
    using False \<open>log2 n \<le> 52\<close> ratio_log2_one[of n] by (simp add: k_def)
  have "(2::nat) ^ 53 \<le> 2 ^ 1024" by (rule power_increasing) simp_all
  with assms have big: "\<not> 2 ^ 1024 \<le> n" by simp
  have r: "round_double sg n 1 = Some \<lparr>neg = sg, mant = n * 2 ^ k, expo = - int k\<rparr>"
    using False big unfolding round_double_def Let_def q
    by (cases "k = 0") (simp_all add: half_even_def del: power_numeral)
  have "int n < 2 ^ 63" using assms by simp
  then show ?thesis
    unfolding r using False by (cases "k = 0") (simp_all add: float_is_zero_def int64_of_float_def)
qed

text \<open>A literal of digits alone is read as its value.\<close>

lemma read_decimal_digits:
  assumes "ds \<noteq> []" "\<forall>b \<in> set ds. num_digit b"
  shows "read_decimal ds = (False, digits_value ds, 0)"
proof -
  obtain b r where ds: "ds = b # r" using assms(1) by (cases ds) auto
  then have "b \<noteq> 0x2D" using assms(2) by (auto simp: num_digit_def)
  moreover have "takeWhile num_digit ds = ds" "dropWhile num_digit ds = []" using assms(2) by simp_all
  ultimately show ?thesis by (simp add: read_decimal_def ds)
qed

lemma ParseFloat_integer:
  assumes "ds \<noteq> []" "\<forall>b \<in> set ds. num_digit b" "digits_value ds < 2 ^ 53"
  shows "\<exists>f. ParseFloat ds = Some f \<and> (float_is_zero f \<longleftrightarrow> digits_value ds = 0)
    \<and> int64_of_float oor f = int (digits_value ds)"
  using round_integer[OF assms(3), of False oor]
  by (simp add: ParseFloat_def read_decimal_digits[OF assms(1,2)])

section \<open>Whole seconds of a duration\<close>

lemma half_even_upper: "0 < b \<Longrightarrow> 2 * (half_even a b * b) \<le> 2 * a + b"
proof -
  assume "0 < b"
  have a: "a = a div b * b + a mod b" by (rule div_mult_mod_eq[symmetric])
  show ?thesis
  proof (cases "2 * (a mod b) < b \<or> (2 * (a mod b) = b \<and> even (a div b))")
    case True
    then have h: "half_even a b = a div b" by (simp add: half_even_def)
    show ?thesis using a unfolding h by linarith
  next
    case False
    then have h: "half_even a b = a div b + 1" and "b \<le> 2 * (a mod b)" by (auto simp: half_even_def)
    moreover have "(a div b + 1) * b = a div b * b + b" by simp
    ultimately show ?thesis using a unfolding h by linarith
  qed
qed

lemma half_even_lower: "a div b \<le> half_even a b"
  by (simp add: half_even_def Let_def)

lemma ratio_log2_upper:
  assumes "0 < n" "0 < d" "n < 2 ^ c * d"
  shows "ratio_log2 n d \<le> int c - 1"
proof (rule ccontr)
  let ?e = "int (log2 n) - int (log2 d)"
  assume a: "\<not> ratio_log2 n d \<le> int c - 1"
  have le: "ratio_log2 n d \<le> ?e" by (simp add: ratio_log2_def Let_def)
  with a have e: "int c \<le> ?e" by simp
  show False
  proof (cases "2 ^ nat ?e * d \<le> n")
    case True
    have "(2::nat) ^ c \<le> 2 ^ nat ?e" using e by (intro power_increasing) auto
    then have "2 ^ c * d \<le> 2 ^ nat ?e * d" by (rule mult_le_mono1)
    with True assms(3) show False by simp
  next
    case False
    with e have "ratio_log2 n d = ?e - 1" by (simp add: ratio_log2_def Let_def)
    with a have "c + Suc (log2 d) \<le> log2 n" by simp
    then have "(2::nat) ^ (c + Suc (log2 d)) \<le> 2 ^ log2 n" by (rule power_increasing) simp
    also have "\<dots> \<le> n" using log2_bounds[OF assms(1)] by simp
    finally have "2 ^ c * 2 ^ Suc (log2 d) \<le> n" by (simp only: power_add)
    moreover have "2 ^ c * d \<le> 2 ^ c * 2 ^ Suc (log2 d)" using log2_bounds[OF assms(2)] by simp
    ultimately show False using assms(3) by linarith
  qed
qed

lemma round_fraction:
  assumes "0 < n" "0 < d" "ratio_log2 n d \<le> 23"
  obtains k where "29 \<le> k" "int k = - max (ratio_log2 n d - 52) (- 1074)"
    "round_double sg n d = Some \<lparr>neg = sg, mant = half_even (n * 2 ^ k) d, expo = - int k\<rparr>"
proof -
  define k where "k = nat (- max (ratio_log2 n d - 52) (- 1074))"
  have k: "29 \<le> k" "max (ratio_log2 n d - 52) (- 1074) = - int k" using assms(3) by (auto simp: k_def)
  have "round_double sg n d = Some \<lparr>neg = sg, mant = half_even (n * 2 ^ k) d, expo = - int k\<rparr>"
    using assms(1) k(1) unfolding round_double_def Let_def k(2) by simp
  with k show thesis by (intro that[of k]) auto
qed

lemma scaled_split: "n = q * d + r \<Longrightarrow> 2 * (n * 2 ^ k) = 2 * (q * 2 ^ k * d) + 2 ^ Suc k * (r :: nat)"
  by (simp add: algebra_simps)

lemma round_trunc:
  assumes "0 < n" "0 < d" "n < 2 ^ 24 * d" "d < 2 ^ 30 * (d - n mod d)"
  shows "float_trunc (the (round_double sg n d)) = n div d"
proof -
  have "ratio_log2 n d \<le> 23" using ratio_log2_upper[OF assms(1-3)] by simp
  then obtain k where k: "29 \<le> k" "round_double sg n d = Some \<lparr>neg = sg, mant = half_even (n * 2 ^ k) d, expo = - int k\<rparr>"
    by (rule round_fraction[OF assms(1,2)])
  let ?m = "half_even (n * 2 ^ k) d" and ?q = "n div d"
  have "?q * 2 ^ k \<le> n * 2 ^ k div d"
    using assms(2) by (simp add: less_eq_div_iff_mult_less_eq mult.commute mult.left_commute)
  also have "\<dots> \<le> ?m" by (rule half_even_lower)
  finally have lo: "?q * 2 ^ k \<le> ?m" .
  have n: "n = ?q * d + n mod d" and r: "n mod d < d" using assms(2) by simp_all
  have "(2::nat) ^ 30 \<le> 2 ^ Suc k" using k(1) by (intro power_increasing) auto
  then have "2 ^ 30 * (d - n mod d) \<le> 2 ^ Suc k * (d - n mod d)" by (rule mult_le_mono1)
  with assms(4) have "d < 2 ^ Suc k * (d - n mod d)" by linarith
  then have "d + 2 ^ Suc k * (n mod d) < 2 ^ Suc k * d" using r by (simp add: diff_mult_distrib2)
  moreover have "2 * (?m * d) \<le> 2 * (n * 2 ^ k) + d" using assms(2) by (rule half_even_upper)
  moreover have "2 * (n * 2 ^ k) = 2 * (?q * 2 ^ k * d) + 2 ^ Suc k * (n mod d)"
    by (rule scaled_split[OF n])
  ultimately have "?m * d < (?q * 2 ^ k + 2 ^ k) * d" by (simp add: algebra_simps)
  then have "?m < ?q * 2 ^ k + 2 ^ k" by (simp only: mult_less_cancel2)
  then have "?m < (?q + 1) * 2 ^ k" by simp
  with lo have "?m div 2 ^ k = ?q" by (simp add: div_nat_eqI mult.commute)
  then show ?thesis using k by (simp add: float_trunc_def)
qed

lemma nanos_fraction:
  assumes "0 < nsec" "nsec < 1000000000"
  obtains j m where "round_double False nsec 1000000000 = Some \<lparr>neg = False, mant = m, expo = - int j\<rparr>"
    "m < 2 ^ j" "2 ^ j < 2 ^ 30 * (2 ^ j - m :: nat)"
proof -
  have l: "ratio_log2 nsec 1000000000 \<le> - 1" using ratio_log2_upper[of nsec 1000000000 0] assms by simp
  then have "ratio_log2 nsec 1000000000 \<le> 23" by simp
  then obtain j where j: "int j = - max (ratio_log2 nsec 1000000000 - 52) (- 1074)"
    and r: "round_double False nsec 1000000000 = Some \<lparr>neg = False, mant = half_even (nsec * 2 ^ j) 1000000000, expo = - int j\<rparr>"
    using round_fraction[of nsec 1000000000 False] assms(1) by (metis zero_less_numeral)
  define X :: nat where "X = 2 ^ j"
  define m where "m = half_even (nsec * X) 1000000000"
  have "53 \<le> j" using j l by simp
  then have "(2::nat) ^ 53 \<le> X" unfolding X_def by (intro power_increasing) auto
  then have X: "9007199254740992 \<le> X" by simp
  have "2 * (m * 1000000000) \<le> 2 * (nsec * X) + 1000000000"
    unfolding m_def by (rule half_even_upper) simp
  moreover have "nsec * X \<le> 999999999 * X" using assms(2) by (intro mult_le_mono1) simp
  ultimately have m: "2000000000 * m \<le> 1999999998 * X + 1000000000" by linarith
  then have "m < X" using X by linarith
  moreover have "X < 2 ^ 30 * (X - m)" using X m \<open>m < X\<close> by simp
  ultimately show thesis using that[of m j] r unfolding m_def X_def by simp
qed

lemma seconds_trunc:
  assumes "a < 2 ^ 24 * 1000000000"
  shows "float_trunc (seconds_float a) = a div 1000000000"
proof -
  let ?sec = "a div 1000000000" and ?ns = "a mod 1000000000"
  have sec: "?sec < 2 ^ 24" by (rule less_mult_imp_div_less) (use assms in simp)
  obtain j m where r: "round_double False ?ns 1000000000 = Some \<lparr>neg = False, mant = m, expo = - int j\<rparr>"
    and m: "m < 2 ^ j" "(2::nat) ^ j < 2 ^ 30 * (2 ^ j - m)"
  proof (cases "?ns = 0")
    case True
    then show thesis using that[of 0 0] by (simp add: round_double_def)
  next
    case False
    then show thesis using nanos_fraction[of ?ns] that by (metis bot_nat_0.not_eq_extremum mod_less_divisor zero_less_numeral)
  qed
  let ?n = "?sec * 2 ^ j + m"
  have s: "seconds_float a = the (round_double False ?n (2 ^ j))" by (simp add: seconds_float_def r)
  have dv: "?n div 2 ^ j = ?sec" "?n mod 2 ^ j = m" using m(1) by simp_all
  show ?thesis
  proof (cases "?n = 0")
    case True
    then show ?thesis using s dv by (simp add: round_double_def float_trunc_def)
  next
    case False
    have "?n < (?sec + 1) * 2 ^ j" using m(1) by simp
    also have "\<dots> \<le> 2 ^ 24 * 2 ^ j" using sec by (intro mult_le_mono1) simp
    finally have "?n < 2 ^ 24 * 2 ^ j" .
    then show ?thesis unfolding s using round_trunc[of ?n "2 ^ j" False] False m(2) dv by simp
  qed
qed

lemma duration_seconds_exact:
  "0 \<le> d \<Longrightarrow> d < 2 ^ 24 * 1000000000 \<Longrightarrow> duration_seconds d = d div 1000000000"
  by (cases "d = 0") (simp_all add: duration_seconds_def seconds_trunc zdiv_int)

end
