(* ===== verification/GoUrl.thy ===== *)
theory GoUrl
  imports Prelude "HOL-Library.List_Lexorder" "HOL-Library.Char_ord"
begin

text \<open>
  The form encoding of \<open>net/url\<close>: \<open>QueryEscape\<close> and \<open>Values.Encode\<close>, and as the reference the
  decoding of a query (\<open>QueryUnescape\<close>, \<open>ParseQuery\<close>).  Values are an association list with
  distinct keys.
\<close>

section \<open>Escaping\<close>

definition unreserved :: "char \<Rightarrow> bool" where
  "unreserved c =
     (let n = (of_char c :: nat)
      in (0x61 \<le> n \<and> n \<le> 0x7A) \<or> (0x41 \<le> n \<and> n \<le> 0x5A) \<or> (0x30 \<le> n \<and> n \<le> 0x39)
         \<or> c = CHR ''-'' \<or> c = CHR ''_'' \<or> c = CHR ''.'' \<or> c = CHR ''~'')"

definition upperhex :: "nat \<Rightarrow> char" where
  "upperhex n = char_of (if n < 10 then 0x30 + n else 0x41 + (n - 10))"

definition escape_byte :: "char \<Rightarrow> string" where
  "escape_byte c =
     (if unreserved c then [c]
      else if c = CHR '' '' then ''+''
      else [CHR ''%'', upperhex (of_char c div 16), upperhex (of_char c mod 16)])"

definition QueryEscape :: "string \<Rightarrow> string" where
  "QueryEscape s = concat (map escape_byte s)"

definition encode_pair :: "string \<times> string \<Rightarrow> string" where
  "encode_pair = (\<lambda>(k, v). QueryEscape k @ ''='' @ QueryEscape v)"

definition Values_Encode :: "(string \<times> string list) list \<Rightarrow> string" where
  "Values_Encode vs =
     join_with (CHR ''&'') (map encode_pair (concat (map (\<lambda>(k, l). map (\<lambda>v. (k, v)) l) (sort_key fst vs))))"

section \<open>Reference: decoding\<close>

definition unhex :: "char \<Rightarrow> nat option" where
  "unhex c =
     (let n = of_char c
      in if 0x30 \<le> n \<and> n \<le> 0x39 then Some (n - 0x30)
         else if 0x61 \<le> n \<and> n \<le> 0x66 then Some (n - 0x61 + 10)
         else if 0x41 \<le> n \<and> n \<le> 0x46 then Some (n - 0x41 + 10)
         else None)"

fun QueryUnescape :: "string \<Rightarrow> string option" where
  "QueryUnescape [] = Some []"
| "QueryUnescape (c # cs) =
     (if c = CHR ''%'' then
        (case cs of
           a # b # r \<Rightarrow>
             (case (unhex a, unhex b) of
                (Some x, Some y) \<Rightarrow> map_option ((#) (char_of (x * 16 + y))) (QueryUnescape r)
              | _ \<Rightarrow> None)
         | _ \<Rightarrow> None)
      else map_option ((#) (if c = CHR ''+'' then CHR '' '' else c)) (QueryUnescape cs))"

definition decode_pair :: "string \<Rightarrow> (string \<times> string) option" where
  "decode_pair s =
     (case cut (CHR ''='') s of
        None \<Rightarrow> None
      | Some (k, v) \<Rightarrow>
          (case (QueryUnescape k, QueryUnescape v) of (Some k', Some v') \<Rightarrow> Some (k', v') | _ \<Rightarrow> None))"

section \<open>Round trips\<close>

lemma of_char_upperhex: "n < 16 \<Longrightarrow> (of_char (upperhex n) :: nat) = (if n < 10 then 0x30 + n else 0x41 + (n - 10))"
  by (simp add: upperhex_def)

lemma unhex_upperhex: "n < 16 \<Longrightarrow> unhex (upperhex n) = Some n"
  by (auto simp: unhex_def of_char_upperhex Let_def)

lemma of_char_less: "(of_char c :: nat) < 256"
  by (metis of_char_mod_256 mod_less_divisor zero_less_numeral)

lemma unescape_byte: "QueryUnescape (escape_byte c @ r) = map_option ((#) c) (QueryUnescape r)"
proof (cases "unreserved c \<or> c = CHR '' ''")
  case True
  then show ?thesis by (auto simp: escape_byte_def unreserved_def)
next
  case False
  have "(of_char c :: nat) div 16 < 16" by (rule less_mult_imp_div_less) (use of_char_less[of c] in simp)
  moreover have "char_of ((of_char c :: nat) div 16 * 16 + of_char c mod 16) = c"
    by (simp only: div_mult_mod_eq char_of_char)
  ultimately show ?thesis using False by (simp add: escape_byte_def unhex_upperhex)
qed

lemma QueryUnescape_Escape: "QueryUnescape (QueryEscape s) = Some s"
  by (induction s) (simp_all add: QueryEscape_def unescape_byte)

lemma unhex_special: "unhex (CHR ''='') = None" "unhex (CHR ''&'') = None"
  by (simp_all add: unhex_def)

lemma upperhex_not_special: "n < 16 \<Longrightarrow> upperhex n \<noteq> CHR ''='' \<and> upperhex n \<noteq> CHR ''&''"
  using unhex_upperhex[of n] unhex_special by (metis option.distinct(1))

lemma escape_byte_plain: "x \<in> set (escape_byte c) \<Longrightarrow> x \<noteq> CHR ''='' \<and> x \<noteq> CHR ''&''"
proof -
  have "(of_char c :: nat) div 16 < 16" by (rule less_mult_imp_div_less) (use of_char_less[of c] in simp)
  then have "upperhex (of_char c div 16) \<noteq> CHR ''='' \<and> upperhex (of_char c div 16) \<noteq> CHR ''&''"
    "upperhex (of_char c mod 16) \<noteq> CHR ''='' \<and> upperhex (of_char c mod 16) \<noteq> CHR ''&''"
    by (simp_all only: upperhex_not_special mod_less_divisor zero_less_numeral not_False_eq_True simp_thms)
  moreover have "\<not> unreserved (CHR ''='')" "\<not> unreserved (CHR ''&'')" by (simp_all add: unreserved_def)
  ultimately show "x \<in> set (escape_byte c) \<Longrightarrow> x \<noteq> CHR ''='' \<and> x \<noteq> CHR ''&''"
    by (auto simp: escape_byte_def split: if_splits)
qed

lemma QueryEscape_plain: "x \<in> set (QueryEscape s) \<Longrightarrow> x \<noteq> CHR ''='' \<and> x \<noteq> CHR ''&''"
  by (auto simp: QueryEscape_def dest: escape_byte_plain)

lemma decode_encode_pair: "decode_pair (encode_pair kv) = Some kv"
proof -
  obtain k v where kv: "kv = (k, v)" by fastforce
  have "CHR ''='' \<notin> set (QueryEscape k)" using QueryEscape_plain by blast
  then have "cut (CHR ''='') (encode_pair kv) = Some (QueryEscape k, QueryEscape v)"
    by (simp add: kv encode_pair_def cut_append)
  then show ?thesis by (simp add: decode_pair_def QueryUnescape_Escape kv)
qed

lemma encode_pair_plain: "CHR ''&'' \<notin> set (encode_pair kv)"
  using QueryEscape_plain by (auto simp: encode_pair_def split: prod.splits)

text \<open>The pairs a form holds, in the order it is written.\<close>

definition form_pairs :: "(string \<times> string list) list \<Rightarrow> (string \<times> string) list" where
  "form_pairs vs = concat (map (\<lambda>(k, l). map (\<lambda>v. (k, v)) l) (sort_key fst vs))"

lemma decode_Values_Encode:
  assumes "form_pairs vs \<noteq> []"
  shows "map decode_pair (split_on (CHR ''&'') (Values_Encode vs)) = map Some (form_pairs vs)"
proof -
  have "split_on (CHR ''&'') (Values_Encode vs) = map encode_pair (form_pairs vs)"
    unfolding Values_Encode_def form_pairs_def[symmetric] using assms
    by (intro split_on_join) (auto simp: encode_pair_plain)
  then show ?thesis by (simp add: comp_def decode_encode_pair)
qed

end
