(* ===== verification/Validators.thy ===== *)
theory Validators
  imports Krb5 GoFloat GoUrl ClaimsMap
begin

text \<open>
  The token validators: \<open>DelegatedValidator\<close> (\<open>src/validator.go\<close>), \<open>JWKSValidator\<close>
  (\<open>src/jwksvalidator.go\<close>) and \<open>IntrospectionValidator\<close> (\<open>src/introspection.go\<close>).  The JWT
  library is the parameter \<open>jwx\<close>; the HTTP transport (with the URL parser behind
  \<open>http.NewRequest\<close>) is the parameter \<open>transport\<close>.  The interface \<open>TokenValidator\<close> is the type of
  the resulting functions.
\<close>

type_synonym TokenValidator = "world \<Rightarrow> string \<Rightarrow> Identity result"

definition validator_sentinels :: "(sentinel \<times> string) list" where
  "validator_sentinels = [(ErrTokenInvalid, ''kerbexchange: invalid access token'')]"

definition tokenInvalid :: "piece list \<Rightarrow> goerror" where
  "tokenInvalid ps = Errorf (WrapW (Sentinel ErrTokenInvalid) # Lit '': '' # ps)"

section \<open>DelegatedValidator\<close>

record DelegatedValidator =
  ValidateFunc :: "TokenValidator option"

definition DelegatedValidator_Validate :: "DelegatedValidator \<Rightarrow> TokenValidator" where
  "DelegatedValidator_Validate v w accessToken =
     (case ValidateFunc v of
        None \<Rightarrow> Inl (errors_New ''kerbexchange: DelegatedValidator has no ValidateFunc'')
      | Some f \<Rightarrow> f w accessToken)"

section \<open>JWKSValidator\<close>

text \<open>
  The library: an item of a key set is a key with an algorithm or something else; \<open>jwt.Parse\<close> takes
  a list of options and returns a token, of which the subject, the expiration (the zero time when
  absent) and the JSON encoding are read.
\<close>

datatype jwk_item = JwkKey handle | JwkOther

datatype ParseOption =
    WithKeySet handle
  | WithValidate bool
  | WithAcceptableSkew duration
  | WithIssuerOption string
  | WithAudienceOption string

record jwx =
  RS256 :: handle
  ES256 :: handle
  Cache_Register :: "world \<Rightarrow> string \<Rightarrow> unit result"
  Cache_Refresh :: "world \<Rightarrow> string \<Rightarrow> handle result"
  NewCachedSet :: "string \<Rightarrow> handle"
  Set_Keys :: "world \<Rightarrow> handle \<Rightarrow> jwk_item list"
  jwt_Parse :: "world \<Rightarrow> string \<Rightarrow> ParseOption list \<Rightarrow> handle result"
  Token_Subject :: "handle \<Rightarrow> string"
  Token_Expiration :: "handle \<Rightarrow> gotime"
  Token_Marshal :: "handle \<Rightarrow> string result"

record jwksValidatorConfig =
  issuer :: string
  audience :: string
  clockSkew :: duration

type_synonym JWKSOption = "jwksValidatorConfig \<Rightarrow> jwksValidatorConfig"

definition WithIssuer :: "string \<Rightarrow> JWKSOption" where "WithIssuer iss c = c\<lparr>issuer := iss\<rparr>"
definition WithAudience :: "string \<Rightarrow> JWKSOption" where "WithAudience aud c = c\<lparr>audience := aud\<rparr>"
definition WithClockSkew :: "duration \<Rightarrow> JWKSOption" where "WithClockSkew d c = c\<lparr>clockSkew := d\<rparr>"

record JWKSValidator =
  keySet :: handle
  cfg :: jwksValidatorConfig

definition allowedAlgorithms :: "jwx \<Rightarrow> handle list" where
  "allowedAlgorithms J = [RS256 J, ES256 J]"

fun apply_options :: "jwksValidatorConfig \<Rightarrow> JWKSOption list \<Rightarrow> jwksValidatorConfig" where
  "apply_options c [] = c"
| "apply_options c (o' # os) = apply_options (o' c) os"

definition NewJWKSValidator :: "jwx \<Rightarrow> world \<Rightarrow> string \<Rightarrow> JWKSOption list \<Rightarrow> JWKSValidator result" where
  "NewJWKSValidator J w jwksURL opts =
     (let cfg0 = apply_options \<lparr>issuer = [], audience = [], clockSkew = 0\<rparr> opts in
      attempt (on_err (wrapf ''kerbexchange: register JWKS URL: '') (Cache_Register J w jwksURL)) (\<lambda>_.
      attempt (on_err (wrapf ''kerbexchange: initial JWKS fetch: '') (Cache_Refresh J w jwksURL)) (\<lambda>_.
      Inr \<lparr>keySet = NewCachedSet J jwksURL, cfg = cfg0\<rparr>)))"

text \<open>The two loops of \<open>requireAllowedKeyAlg\<close>.\<close>

fun alg_in :: "handle \<Rightarrow> handle list \<Rightarrow> bool" where
  "alg_in alg [] = False"
| "alg_in alg (a # as) = (if alg = a then True else alg_in alg as)"

fun some_allowed :: "handle list \<Rightarrow> jwk_item list \<Rightarrow> bool" where
  "some_allowed allowed [] = False"
| "some_allowed allowed (JwkOther # items) = some_allowed allowed items"
| "some_allowed allowed (JwkKey alg # items) = (if alg_in alg allowed then True else some_allowed allowed items)"

definition requireAllowedKeyAlg :: "jwx \<Rightarrow> JWKSValidator \<Rightarrow> world \<Rightarrow> unit result" where
  "requireAllowedKeyAlg J v w =
     (if some_allowed (allowedAlgorithms J) (Set_Keys J w (keySet v)) then Inr ()
      else Inl (errors_New ''no key with an allowed algorithm (RS256, ES256) found in key set''))"

definition parse_options :: "JWKSValidator \<Rightarrow> ParseOption list" where
  "parse_options v =
     [WithKeySet (keySet v), WithValidate True, WithAcceptableSkew (clockSkew (cfg v))]
     @ (if issuer (cfg v) \<noteq> [] then [WithIssuerOption (issuer (cfg v))] else [])
     @ (if audience (cfg v) \<noteq> [] then [WithAudienceOption (audience (cfg v))] else [])"

definition JWKSValidator_Validate :: "jwx \<Rightarrow> JWKSValidator \<Rightarrow> TokenValidator" where
  "JWKSValidator_Validate J v w accessToken =
     attempt (on_err (\<lambda>e. tokenInvalid [TextV e]) (requireAllowedKeyAlg J v w)) (\<lambda>_.
     attempt (on_err (\<lambda>e. tokenInvalid [TextV e]) (jwt_Parse J w accessToken (parse_options v))) (\<lambda>tok.
     attempt (on_err (\<lambda>e. tokenInvalid [Lit ''marshal claims: '', TextV e]) (Token_Marshal J tok)) (\<lambda>claimsJSON.
     Inr \<lparr>Subject = Token_Subject J tok, Claims = claimsJSON, Expiry = Token_Expiration J tok\<rparr>)))"

section \<open>IntrospectionValidator\<close>

record http_request =
  rq_method :: string
  rq_url :: string
  rq_headers :: "string \<rightharpoonup> string"
  rq_basicAuth :: "(string \<times> string) option"
  rq_body :: string

text \<open>A response: its status, and its body or the error of reading it.\<close>

record http_response =
  rs_status :: int
  rs_body :: "string result"

record transport =
  NewRequest_error :: "string \<Rightarrow> goerror option"
  Do_request :: "world \<Rightarrow> http_request \<Rightarrow> http_response result"
  float_oor :: "float64 \<Rightarrow> int"

record IntrospectionValidator =
  iv_Endpoint :: string
  iv_ClientID :: string
  iv_ClientSecret :: string
  iv_HTTPClient :: "(world \<Rightarrow> http_request \<Rightarrow> http_response result) option"

record introspectionResponse =
  ir_Active :: bool
  ir_Subject :: string
  ir_Expiry :: float64

text \<open>
  Decoding into the struct.  A member is stored into the field whose name it has, exactly or up to
  case folding (which also maps U+017F to S and U+212A to K); \<open>null\<close> leaves the field alone; a
  value of another type, or a number out of the range of \<open>float64\<close>, makes \<open>Unmarshal\<close> fail;
  later members overwrite earlier ones.
\<close>

definition fold_rune :: "nat \<Rightarrow> nat" where
  "fold_rune r =
     (if 0x61 \<le> r \<and> r \<le> 0x7A then r - 0x20
      else if r = 0x17F then 0x53
      else if r = 0x212A then 0x4B
      else r)"

definition names_field :: "string \<Rightarrow> nat list \<Rightarrow> bool" where
  "names_field f k \<longleftrightarrow> map fold_rune (runes k) = map fold_rune (bytes_of f)"

fun set_member :: "introspectionResponse \<Rightarrow> nat list \<Rightarrow> json \<Rightarrow> introspectionResponse option" where
  "set_member ir k v =
     (if names_field ''active'' k then
        (case v of JNull \<Rightarrow> Some ir | JBool b \<Rightarrow> Some (ir\<lparr>ir_Active := b\<rparr>) | _ \<Rightarrow> None)
      else if names_field ''sub'' k then
        (case v of JNull \<Rightarrow> Some ir | JString t \<Rightarrow> Some (ir\<lparr>ir_Subject := string_of t\<rparr>) | _ \<Rightarrow> None)
      else if names_field ''exp'' k then
        (case v of
           JNull \<Rightarrow> Some ir
         | JNumber n \<Rightarrow> map_option (\<lambda>f. ir\<lparr>ir_Expiry := f\<rparr>) (ParseFloat n)
         | _ \<Rightarrow> None)
      else Some ir)"

declare set_member.simps [simp del]

fun set_members :: "introspectionResponse \<Rightarrow> (nat list \<times> nat list \<times> json) list \<Rightarrow> introspectionResponse option" where
  "set_members ir [] = Some ir"
| "set_members ir ((k, raw, v) # ms) =
     (case set_member ir k v of None \<Rightarrow> None | Some ir' \<Rightarrow> set_members ir' ms)"

definition Unmarshal_introspection :: "string \<Rightarrow> introspectionResponse option" where
  "Unmarshal_introspection raw =
     (let ir = \<lparr>ir_Active = False, ir_Subject = [], ir_Expiry = float_zero\<rparr>
      in case parse_json (bytes_of raw) of
           None \<Rightarrow> None
         | Some JNull \<Rightarrow> Some ir
         | Some (JObject ms) \<Rightarrow> set_members ir ms
         | Some _ \<Rightarrow> None)"

definition IntrospectionValidator_Validate :: "transport \<Rightarrow> IntrospectionValidator \<Rightarrow> TokenValidator" where
  "IntrospectionValidator_Validate T v w accessToken =
     (let body = Values_Encode [(''token'', [accessToken])] in
      case NewRequest_error T (iv_Endpoint v) of
        Some e \<Rightarrow> Inl (wrapf ''kerbexchange: introspection: build request: '' e)
      | None \<Rightarrow>
          let req = \<lparr>rq_method = ''POST'', rq_url = iv_Endpoint v,
                     rq_headers = [''Content-Type'' \<mapsto> ''application/x-www-form-urlencoded''],
                     rq_basicAuth = (if iv_ClientID v \<noteq> [] then Some (iv_ClientID v, iv_ClientSecret v) else None),
                     rq_body = body\<rparr>;
              do_it = (case iv_HTTPClient v of None \<Rightarrow> Do_request T | Some hc \<Rightarrow> hc)
          in
          attempt (on_err (wrapf ''kerbexchange: introspection: request: '') (do_it w req)) (\<lambda>resp.
          attempt (on_err (wrapf ''kerbexchange: introspection: read body: '') (rs_body resp)) (\<lambda>raw.
          if rs_status resp \<noteq> 200
          then Inl (Errorf [Lit ''kerbexchange: introspection: server returned '', Number (rs_status resp)])
          else case Unmarshal_introspection raw of
                 None \<Rightarrow> Inl (wrapf ''kerbexchange: introspection: decode response: '' jsonError)
               | Some ir \<Rightarrow>
                   if \<not> ir_Active ir then Inl (tokenInvalid [Lit ''token not active''])
                   else let expiry = (if \<not> float_is_zero (ir_Expiry ir)
                                      then Unix (int64_of_float (float_oor T) (ir_Expiry ir)) else zeroTime)
                        in Inr \<lparr>Subject = ir_Subject ir, Claims = raw, Expiry = expiry\<rparr>)))"

section \<open>Facts\<close>

lemma errors_Is_tokenInvalid [simp]: "errors_Is (tokenInvalid ps) ErrTokenInvalid"
  by (simp add: tokenInvalid_def)

lemma alg_in_iff: "alg_in a as \<longleftrightarrow> a \<in> set as"
  by (induction as) auto

lemma some_allowed_iff: "some_allowed allowed items \<longleftrightarrow> (\<exists>alg \<in> set allowed. JwkKey alg \<in> set items)"
  by (induction allowed items rule: some_allowed.induct) (auto simp: alg_in_iff)

subsection \<open>The struct of an introspection response\<close>

text \<open>
  The reference for decoding: every member has the type of the field it names, and a field holds
  the last value that is not \<open>null\<close>.
\<close>

definition well_typed :: "nat list \<Rightarrow> json \<Rightarrow> bool" where
  "well_typed k v =
     (v = JNull
      \<or> (if names_field ''active'' k then \<exists>b. v = JBool b
         else if names_field ''sub'' k then \<exists>t. v = JString t
         else if names_field ''exp'' k then \<exists>n. v = JNumber n \<and> ParseFloat n \<noteq> None
         else True))"

definition last_member :: "string \<Rightarrow> (nat list \<times> nat list \<times> json) list \<Rightarrow> json option" where
  "last_member f ms = map_option (\<lambda>(k, raw, v). v) (find (\<lambda>(k, raw, v). names_field f k \<and> v \<noteq> JNull) (rev ms))"

definition active_of :: "json option \<Rightarrow> bool \<Rightarrow> bool" where
  "active_of j d = (case j of Some (JBool b) \<Rightarrow> b | _ \<Rightarrow> d)"
definition subject_of :: "json option \<Rightarrow> string \<Rightarrow> string" where
  "subject_of j d = (case j of Some (JString t) \<Rightarrow> string_of t | _ \<Rightarrow> d)"
definition expiry_of :: "json option \<Rightarrow> float64 \<Rightarrow> float64" where
  "expiry_of j d = (case j of Some (JNumber n) \<Rightarrow> the (ParseFloat n) | _ \<Rightarrow> d)"

lemmas member_defs = active_of_def subject_of_def expiry_of_def

lemma fields_distinct:
  "\<not> (names_field ''active'' k \<and> names_field ''sub'' k)"
  "\<not> (names_field ''active'' k \<and> names_field ''exp'' k)"
  "\<not> (names_field ''sub'' k \<and> names_field ''exp'' k)"
  by (auto simp: names_field_def bytes_of_def fold_rune_def)

lemma last_member_snoc:
  "last_member f (ms @ [(k, raw, v)]) = (if names_field f k \<and> v \<noteq> JNull then Some v else last_member f ms)"
  by (simp add: last_member_def)

lemma set_members_append:
  "set_members ir (ms @ ms') = (case set_members ir ms of None \<Rightarrow> None | Some ir' \<Rightarrow> set_members ir' ms')"
  by (induction ir ms rule: set_members.induct) (auto split: option.splits)

lemma set_members_eq:
  "set_members ir ms =
     (if \<forall>(k, raw, v) \<in> set ms. well_typed k v
      then Some \<lparr>ir_Active = active_of (last_member ''active'' ms) (ir_Active ir),
                 ir_Subject = subject_of (last_member ''sub'' ms) (ir_Subject ir),
                 ir_Expiry = expiry_of (last_member ''exp'' ms) (ir_Expiry ir)\<rparr>
      else None)"
proof (induction ms rule: rev_induct)
  case Nil
  then show ?case by (simp add: last_member_def member_defs)
next
  case (snoc m ms)
  obtain k raw v where m: "m = (k, raw, v)" by (cases m)
  show ?case
  proof (cases "\<forall>(k, raw, v) \<in> set ms. well_typed k v")
    case False
    then show ?thesis using snoc by (auto simp: set_members_append)
  next
    case True
    then show ?thesis
      using snoc fields_distinct[of k]
      by (cases v) (auto simp: set_members_append m set_member.simps well_typed_def last_member_snoc member_defs)
  qed
qed

lemma Unmarshal_introspection_Some:
  "Unmarshal_introspection raw = Some ir \<and> ir_Active ir \<longleftrightarrow>
     (\<exists>ms. parse_json (bytes_of raw) = Some (JObject ms) \<and> (\<forall>(k, raw, v) \<in> set ms. well_typed k v)
        \<and> last_member ''active'' ms = Some (JBool True)
        \<and> ir = \<lparr>ir_Active = True, ir_Subject = subject_of (last_member ''sub'' ms) [],
                ir_Expiry = expiry_of (last_member ''exp'' ms) float_zero\<rparr>)"
  (is "?l \<longleftrightarrow> ?r")
proof
  assume ?l
  then obtain ms where p: "parse_json (bytes_of raw) = Some (JObject ms)"
    and s: "set_members \<lparr>ir_Active = False, ir_Subject = [], ir_Expiry = float_zero\<rparr> ms = Some ir" and a: "ir_Active ir"
    by (auto simp: Unmarshal_introspection_def Let_def split: option.splits json.splits)
  from s have wt: "\<forall>(k, raw, v) \<in> set ms. well_typed k v"
    and ir: "ir = \<lparr>ir_Active = active_of (last_member ''active'' ms) False,
                 ir_Subject = subject_of (last_member ''sub'' ms) [],
                 ir_Expiry = expiry_of (last_member ''exp'' ms) float_zero\<rparr>"
    by (simp_all add: set_members_eq split: if_splits)
  from a ir have "last_member ''active'' ms = Some (JBool True)"
    by (auto simp: active_of_def split: option.splits json.splits)
  with p wt ir show ?r by (auto simp: active_of_def)
next
  assume ?r
  then show ?l by (auto simp: Unmarshal_introspection_def set_members_eq active_of_def)
qed

text \<open>The request an introspection sends.\<close>

definition introspection_request :: "IntrospectionValidator \<Rightarrow> string \<Rightarrow> http_request" where
  "introspection_request v accessToken =
     \<lparr>rq_method = ''POST'', rq_url = iv_Endpoint v, rq_headers = [''Content-Type'' \<mapsto> ''application/x-www-form-urlencoded''],
      rq_basicAuth = (if iv_ClientID v \<noteq> [] then Some (iv_ClientID v, iv_ClientSecret v) else None),
      rq_body = Values_Encode [(''token'', [accessToken])]\<rparr>"

definition introspection_client :: "transport \<Rightarrow> IntrospectionValidator \<Rightarrow> world \<Rightarrow> http_request \<Rightarrow> http_response result" where
  "introspection_client T v = (case iv_HTTPClient v of None \<Rightarrow> Do_request T | Some hc \<Rightarrow> hc)"

lemma introspection_body_decodes:
  "map decode_pair (split_on (CHR ''&'') (rq_body (introspection_request v accessToken))) = [Some (''token'', accessToken)]"
  using decode_Values_Encode[of "[(''token'', [accessToken])]"]
  by (simp add: introspection_request_def form_pairs_def)

lemma introspection_accepted:
  "IntrospectionValidator_Validate T v w accessToken = Inr i \<longleftrightarrow>
     NewRequest_error T (iv_Endpoint v) = None
     \<and> (\<exists>resp ms. introspection_client T v w (introspection_request v accessToken) = Inr resp
         \<and> rs_status resp = 200 \<and> rs_body resp = Inr (Claims i)
         \<and> parse_json (bytes_of (Claims i)) = Some (JObject ms)
         \<and> list_all (\<lambda>(k, raw, v). well_typed k v) ms
         \<and> last_member ''active'' ms = Some (JBool True)
         \<and> Subject i = subject_of (last_member ''sub'' ms) []
         \<and> Expiry i = (let f = expiry_of (last_member ''exp'' ms) float_zero
                       in if float_is_zero f then zeroTime else Unix (int64_of_float (float_oor T) f)))
     \<and> map decode_pair (split_on (CHR ''&'') (rq_body (introspection_request v accessToken)))
         = [Some (''token'', accessToken)]"
  (is "?l \<longleftrightarrow> ?r")
proof
  assume ?l
  then obtain resp raw ir where r: "NewRequest_error T (iv_Endpoint v) = None"
    "introspection_client T v w (introspection_request v accessToken) = Inr resp" "rs_body resp = Inr raw"
    "rs_status resp = 200" and u: "Unmarshal_introspection raw = Some ir \<and> ir_Active ir"
    and i: "i = \<lparr>Subject = ir_Subject ir, Claims = raw, Expiry = (if \<not> float_is_zero (ir_Expiry ir)
       then Unix (int64_of_float (float_oor T) (ir_Expiry ir)) else zeroTime)\<rparr>"
    by (auto simp: IntrospectionValidator_Validate_def introspection_client_def introspection_request_def
        Let_def attempt_eq_Inr on_err_eq_Inr split: option.splits if_splits)
  from u i r show ?r
    by (auto simp: Unmarshal_introspection_Some list_all_iff Let_def introspection_body_decodes)
next
  assume ?r
  then obtain resp ms where r: "NewRequest_error T (iv_Endpoint v) = None"
    "introspection_client T v w (introspection_request v accessToken) = Inr resp" "rs_body resp = Inr (Claims i)"
    "rs_status resp = 200"
    and m: "parse_json (bytes_of (Claims i)) = Some (JObject ms)" "list_all (\<lambda>(k, raw, v). well_typed k v) ms"
       "last_member ''active'' ms = Some (JBool True)"
    and i: "Subject i = subject_of (last_member ''sub'' ms) []"
       "Expiry i = (let f = expiry_of (last_member ''exp'' ms) float_zero
                       in if float_is_zero f then zeroTime else Unix (int64_of_float (float_oor T) f))"
    by blast
  define ir where "ir = \<lparr>ir_Active = True, ir_Subject = subject_of (last_member ''sub'' ms) [],
      ir_Expiry = expiry_of (last_member ''exp'' ms) float_zero\<rparr>"
  have "Unmarshal_introspection (Claims i) = Some ir \<and> ir_Active ir"
    unfolding Unmarshal_introspection_Some using m by (auto simp: ir_def list_all_iff)
  with r i show ?l
    by (cases i) (auto simp: IntrospectionValidator_Validate_def introspection_client_def[symmetric]
        introspection_request_def[symmetric] Let_def ir_def)
qed

section \<open>Properties\<close>

text \<open>
  C27.  What the JWKS validator accepts, and how it rejects.  A token is accepted exactly when the key
  set holds a key for RS256 or ES256 and the library verifies the token with the key set, claim
  validation, the configured skew and (when configured) the issuer and audience, and can encode
  its claims; the identity is the token's subject, encoded claims and expiration.  Every rejection
  is \<open>ErrTokenInvalid\<close>.
\<close>

theorem JWKS_Validate_spec:
  "(JWKSValidator_Validate J v w accessToken = Inr i \<longleftrightarrow>
      (\<exists>alg \<in> {RS256 J, ES256 J}. JwkKey alg \<in> set (Set_Keys J w (keySet v)))
      \<and> (\<exists>tok. jwt_Parse J w accessToken (parse_options v) = Inr tok \<and> Token_Marshal J tok = Inr (Claims i)
           \<and> Subject i = Token_Subject J tok \<and> Expiry i = Token_Expiration J tok))
   \<and> set (parse_options v) =
        {WithKeySet (keySet v), WithValidate True, WithAcceptableSkew (clockSkew (cfg v))}
        \<union> (if issuer (cfg v) = [] then {} else {WithIssuerOption (issuer (cfg v))})
        \<union> (if audience (cfg v) = [] then {} else {WithAudienceOption (audience (cfg v))})
   \<and> (case JWKSValidator_Validate J v w accessToken of Inl e \<Rightarrow> errors_Is e ErrTokenInvalid | Inr _ \<Rightarrow> True)"
proof -
  have k: "(requireAllowedKeyAlg J v w = Inr ()) = (\<exists>alg \<in> {RS256 J, ES256 J}. JwkKey alg \<in> set (Set_Keys J w (keySet v)))"
    by (simp add: requireAllowedKeyAlg_def some_allowed_iff allowedAlgorithms_def)
  have i: "i = \<lparr>Subject = s, Claims = c, Expiry = x\<rparr> \<longleftrightarrow> Subject i = s \<and> Claims i = c \<and> Expiry i = x" for s c x
    by (cases i) auto
  have "JWKSValidator_Validate J v w accessToken = Inr i \<longleftrightarrow> requireAllowedKeyAlg J v w = Inr ()
      \<and> (\<exists>tok. jwt_Parse J w accessToken (parse_options v) = Inr tok \<and> Token_Marshal J tok = Inr (Claims i)
           \<and> Subject i = Token_Subject J tok \<and> Expiry i = Token_Expiration J tok)"
    unfolding JWKSValidator_Validate_def attempt_eq_Inr on_err_eq_Inr
    by (simp add: eq_commute[of "Inr _" "Inr i"] eq_commute[of _ i] i)
  moreover have "errors_Is e ErrTokenInvalid" if "JWKSValidator_Validate J v w accessToken = Inl e" for e
    using that by (auto simp: JWKSValidator_Validate_def result_simps)
  moreover have "set (parse_options v) =
        {WithKeySet (keySet v), WithValidate True, WithAcceptableSkew (clockSkew (cfg v))}
        \<union> (if issuer (cfg v) = [] then {} else {WithIssuerOption (issuer (cfg v))})
        \<union> (if audience (cfg v) = [] then {} else {WithAudienceOption (audience (cfg v))})"
    by (auto simp: parse_options_def)
  ultimately show ?thesis unfolding k by (simp split: sum.split)
qed

text \<open>
  C28.  What the introspection validator accepts: the endpoint (asked with a form that decodes to the
  token) answers 200 with a JSON object whose members have the types of the fields they name and
  whose last \<open>active\<close> is \<open>true\<close>; the identity has the last \<open>sub\<close>, the body byte for byte as its
  claims, and the last \<open>exp\<close> as its expiry (none when absent or 0).
\<close>

theorem Introspection_accepts:
  "IntrospectionValidator_Validate T v w accessToken = Inr i \<longleftrightarrow>
     NewRequest_error T (iv_Endpoint v) = None
     \<and> (\<exists>resp ms. introspection_client T v w (introspection_request v accessToken) = Inr resp
         \<and> rs_status resp = 200 \<and> rs_body resp = Inr (Claims i)
         \<and> parse_json (bytes_of (Claims i)) = Some (JObject ms)
         \<and> list_all (\<lambda>(k, raw, v). well_typed k v) ms
         \<and> last_member ''active'' ms = Some (JBool True)
         \<and> Subject i = subject_of (last_member ''sub'' ms) []
         \<and> Expiry i = (let f = expiry_of (last_member ''exp'' ms) float_zero
                       in if float_is_zero f then zeroTime else Unix (int64_of_float (float_oor T) f)))
     \<and> map decode_pair (split_on (CHR ''&'') (rq_body (introspection_request v accessToken)))
         = [Some (''token'', accessToken)]"
  by (rule introspection_accepted)

text \<open>
  C30.  An \<open>exp\<close> that is a plain integer below \<open>2 ^ 53\<close> loses nothing on its way through
  \<open>float64\<close>: the identity expires at exactly that Unix second.
\<close>

theorem Introspection_exp_exact:
  assumes "IntrospectionValidator_Validate T v w accessToken = Inr i"
    and "parse_json (bytes_of (Claims i)) = Some (JObject ms)" "last_member ''exp'' ms = Some (JNumber ds)"
    and "ds \<noteq> []" "\<forall>b \<in> set ds. num_digit b" "0 < digits_value ds" "digits_value ds < 2 ^ 53"
  shows "Expiry i = Unix (int (digits_value ds))"
proof -
  obtain f where f: "ParseFloat ds = Some f" "\<not> float_is_zero f"
    "int64_of_float (float_oor T) f = int (digits_value ds)"
    using ParseFloat_integer[OF assms(4,5,7), of "float_oor T"] assms(6) by auto
  from assms(1,2) have "Expiry i = (let f = expiry_of (last_member ''exp'' ms) float_zero
                       in if float_is_zero f then zeroTime else Unix (int64_of_float (float_oor T) f))"
    by (auto simp: introspection_accepted)
  with f assms(3) show ?thesis by (simp add: expiry_of_def)
qed

definition sample_now :: world where
  "sample_now = \<lparr>now_get = zeroTime, now_issue = zeroTime, now_reply = zeroTime, outside = 0\<rparr>"

text \<open>An endpoint that answers every request with the same active response.\<close>

definition sample_body :: string where
  "sample_body = string_of ([0x7B] @ render_string (bytes_of ''active'') @ [0x3A] @ lit_true @ [0x2C]
     @ render_string (bytes_of ''exp'') @ [0x3A, 0x31, 0x35, 0x7D])"

definition sample_transport :: "int \<Rightarrow> string \<Rightarrow> transport" where
  "sample_transport status body =
     \<lparr>NewRequest_error = (\<lambda>url. if url = [] then Some (Foreign 1) else None),
      Do_request = (\<lambda>w rq. Inr \<lparr>rs_status = status, rs_body = Inr body\<rparr>), float_oor = (\<lambda>f. 0)\<rparr>"

definition sample_introspection :: IntrospectionValidator where
  "sample_introspection = \<lparr>iv_Endpoint = ''https://idp/introspect'', iv_ClientID = ''id'', iv_ClientSecret = ''s'',
     iv_HTTPClient = None\<rparr>"

lemma sample_parse:
  "parse_json (bytes_of sample_body) = Some (JObject
     [(bytes_of ''active'', lit_true, JBool True), (bytes_of ''exp'', [0x31, 0x35], JNumber [0x31, 0x35])])"
  by (simp add: sample_body_def render_string_def json_eval)

lemma runes_letters: "runes (bytes_of ''active'') = bytes_of ''active''" "runes (bytes_of ''exp'') = bytes_of ''exp''"
  by (rule runes_ascii; auto simp: bytes_of_def)+

lemma sample_names:
  "names_field ''active'' (bytes_of ''active'')" "names_field ''exp'' (bytes_of ''exp'')"
  "\<not> names_field ''exp'' (bytes_of ''active'')" "\<not> names_field ''sub'' (bytes_of ''active'')"
  "\<not> names_field ''active'' (bytes_of ''exp'')" "\<not> names_field ''sub'' (bytes_of ''exp'')"
  unfolding names_field_def runes_letters by (simp_all add: bytes_of_def fold_rune_def)

lemma sample_float: "\<exists>f. ParseFloat [0x31, 0x35] = Some f"
  using ParseFloat_integer[of "[0x31, 0x35]"] by (auto simp: num_digit_def digits_value_def)

lemma sample_introspected:
  "\<exists>i. IntrospectionValidator_Validate (sample_transport 200 sample_body) sample_introspection w tok = Inr i
     \<and> Claims i = sample_body"
proof -
  obtain f where "ParseFloat [0x31, 0x35] = Some f" using sample_float by blast
  then have "\<exists>ir. Unmarshal_introspection sample_body = Some ir \<and> ir_Active ir"
    by (simp add: Unmarshal_introspection_def sample_parse set_member.simps sample_names)
  then obtain ir where u: "Unmarshal_introspection sample_body = Some ir" "ir_Active ir" by blast
  have "NewRequest_error (sample_transport 200 sample_body) (iv_Endpoint sample_introspection) = None"
    "iv_HTTPClient sample_introspection = None"
    "Do_request (sample_transport 200 sample_body) = (\<lambda>w rq. Inr \<lparr>rs_status = 200, rs_body = Inr sample_body\<rparr>)"
    by (simp_all add: sample_transport_def sample_introspection_def)
  with u show ?thesis by (simp add: IntrospectionValidator_Validate_def)
qed

theorem Introspection_exp_exact_witness:
  "\<exists>i. IntrospectionValidator_Validate (sample_transport 200 sample_body) sample_introspection sample_now ''tok'' = Inr i
     \<and> Expiry i = Unix 15"
proof -
  obtain i where i: "IntrospectionValidator_Validate (sample_transport 200 sample_body) sample_introspection sample_now ''tok'' = Inr i"
    and c: "Claims i = sample_body" using sample_introspected by blast
  have l: "last_member ''exp'' [(bytes_of ''active'', lit_true, JBool True), (bytes_of ''exp'', [0x31, 0x35], JNumber [0x31, 0x35])]
      = Some (JNumber [0x31, 0x35])" by (simp add: last_member_def sample_names)
  have d: "[0x31, 0x35] \<noteq> ([] :: nat list)" "\<forall>b \<in> set [0x31, 0x35]. num_digit b"
    "0 < digits_value [0x31, 0x35]" "digits_value [0x31, 0x35] < 2 ^ 53"
    by (simp_all add: num_digit_def digits_value_def)
  from Introspection_exp_exact[OF i _ l d] sample_parse c i show ?thesis by (simp add: digits_value_def)
qed

text \<open>
  C29.  Only a definite answer is \<open>ErrTokenInvalid\<close>: with a transport whose own errors do not wrap
  it, the error is \<open>ErrTokenInvalid\<close> exactly when the endpoint answers 200 with a well-formed
  response that does not say \<open>active\<close>; every network failure, other status and undecodable body
  is some other error.
\<close>

theorem Introspection_errors:
  assumes "IntrospectionValidator_Validate T v w accessToken = Inl e"
    and "\<forall>url e. NewRequest_error T url = Some e \<longrightarrow> \<not> errors_Is e ErrTokenInvalid"
    and "\<forall>w rq e. introspection_client T v w rq = Inl e \<longrightarrow> \<not> errors_Is e ErrTokenInvalid"
    and "\<forall>w rq resp e. introspection_client T v w rq = Inr resp \<longrightarrow> rs_body resp = Inl e \<longrightarrow> \<not> errors_Is e ErrTokenInvalid"
  shows "errors_Is e ErrTokenInvalid \<longleftrightarrow>
    (\<exists>resp raw ir. NewRequest_error T (iv_Endpoint v) = None
       \<and> introspection_client T v w (introspection_request v accessToken) = Inr resp
       \<and> rs_status resp = 200 \<and> rs_body resp = Inr raw
       \<and> Unmarshal_introspection raw = Some ir \<and> \<not> ir_Active ir)"
proof -
  let ?do = "introspection_client T v w (introspection_request v accessToken)"
  have eq: "IntrospectionValidator_Validate T v w accessToken =
     (case NewRequest_error T (iv_Endpoint v) of
        Some e \<Rightarrow> Inl (wrapf ''kerbexchange: introspection: build request: '' e)
      | None \<Rightarrow>
          attempt (on_err (wrapf ''kerbexchange: introspection: request: '') ?do) (\<lambda>resp.
          attempt (on_err (wrapf ''kerbexchange: introspection: read body: '') (rs_body resp)) (\<lambda>raw.
          if rs_status resp \<noteq> 200
          then Inl (Errorf [Lit ''kerbexchange: introspection: server returned '', Number (rs_status resp)])
          else case Unmarshal_introspection raw of
                 None \<Rightarrow> Inl (wrapf ''kerbexchange: introspection: decode response: '' jsonError)
               | Some ir \<Rightarrow>
                   if \<not> ir_Active ir then Inl (tokenInvalid [Lit ''token not active''])
                   else Inr \<lparr>Subject = ir_Subject ir, Claims = raw, Expiry = (if \<not> float_is_zero (ir_Expiry ir)
                                      then Unix (int64_of_float (float_oor T) (ir_Expiry ir)) else zeroTime)\<rparr>)))"
    unfolding IntrospectionValidator_Validate_def introspection_client_def introspection_request_def Let_def ..
  show ?thesis
  proof (cases "NewRequest_error T (iv_Endpoint v)")
    case (Some x)
    with assms(1,2) show ?thesis by (auto simp: eq)
  next
    case None
    show ?thesis
    proof (cases ?do)
      case (Inl x)
      with None assms(1,3) show ?thesis by (auto simp: eq)
    next
      case (Inr resp)
      with None assms(1,4) show ?thesis
        by (cases "rs_body resp") (auto simp: eq jsonError_def split: if_splits option.splits)
    qed
  qed
qed

theorem Introspection_errors_witness:
  "\<exists>e. IntrospectionValidator_Validate (sample_transport 200 ''{}'') sample_introspection sample_now ''tok'' = Inl e
     \<and> errors_Is e ErrTokenInvalid"
proof -
  let ?T = "sample_transport 200 ''{}''"
  have p: "parse_json (bytes_of ''{}'') = Some (JObject [])" by (simp add: json_eval)
  have u: "Unmarshal_introspection ''{}'' = Some \<lparr>ir_Active = False, ir_Subject = [], ir_Expiry = float_zero\<rparr>"
    by (simp add: Unmarshal_introspection_def p)
  have c: "NewRequest_error ?T (iv_Endpoint sample_introspection) = None"
    "introspection_client ?T sample_introspection w rq = Inr \<lparr>rs_status = 200, rs_body = Inr ''{}''\<rparr>" for w rq
    by (simp_all add: sample_transport_def sample_introspection_def introspection_client_def)
  obtain e where e: "IntrospectionValidator_Validate ?T sample_introspection sample_now ''tok'' = Inl e"
    by (simp add: IntrospectionValidator_Validate_def sample_transport_def sample_introspection_def u)
  have "\<forall>url e. NewRequest_error ?T url = Some e \<longrightarrow> \<not> errors_Is e ErrTokenInvalid"
    by (simp add: sample_transport_def)
  from Introspection_errors[OF e this] e show ?thesis by (auto simp: c u)
qed

text \<open>
  The allow-list of algorithms does not bind each key: with a key set that holds one RS256 key
  and one key of another algorithm, whatever the library verifies is accepted, whichever key did
  it.
\<close>

lemma JWKS_mixed_key_set:
  assumes "RS256 J = 1" "ES256 J = 2" "Set_Keys J w (keySet v) = [JwkKey 1, JwkKey 9]"
    and "jwt_Parse J w accessToken (parse_options v) = Inr tok" "Token_Marshal J tok = Inr c"
  shows "JWKSValidator_Validate J v w accessToken
      = Inr \<lparr>Subject = Token_Subject J tok, Claims = c, Expiry = Token_Expiration J tok\<rparr>
    \<and> JwkKey 9 \<in> set (Set_Keys J w (keySet v)) \<and> 9 \<notin> set (allowedAlgorithms J)"
  using assms by (simp add: JWKSValidator_Validate_def requireAllowedKeyAlg_def allowedAlgorithms_def)

definition sample_jwx :: jwx where
  "sample_jwx = \<lparr>RS256 = 1, ES256 = 2, Cache_Register = (\<lambda>w u. Inr ()), Cache_Refresh = (\<lambda>w u. Inr 3),
     NewCachedSet = (\<lambda>u. 3), Set_Keys = (\<lambda>w s. [JwkKey 1, JwkKey 9]),
     jwt_Parse = (\<lambda>w t opts. if t = ''good'' then Inr 5 else Inl (Foreign 7)),
     Token_Subject = (\<lambda>t. ''alice''), Token_Expiration = (\<lambda>t. Unix 100), Token_Marshal = (\<lambda>t. Inr ''{}'')\<rparr>"

end
