(* ===== verification/GoBase64.thy ===== *)
theory GoBase64
  imports Prelude
begin

text \<open>
  \<open>base64.StdEncoding\<close>: \<open>EncodeToString\<close> with padding, and \<open>DecodeString\<close>, which skips line
  ends, requires padding and ignores the unused low bits of the last digit.
\<close>

section \<open>Digits\<close>

definition alphabet :: string where
  "alphabet = ''ABCDEFGHIJKLMNOPQRSTUVWXYZabcdefghijklmnopqrstuvwxyz0123456789+/''"

definition b64_char :: "nat \<Rightarrow> char" where
  "b64_char n = alphabet ! (n mod 64)"

definition b64_val :: "char \<Rightarrow> nat option" where
  "b64_val c =
     (let n = of_char c
      in if 0x41 \<le> n \<and> n \<le> 0x5A then Some (n - 0x41)
         else if 0x61 \<le> n \<and> n \<le> 0x7A then Some (n - 0x61 + 26)
         else if 0x30 \<le> n \<and> n \<le> 0x39 then Some (n - 0x30 + 52)
         else if n = 0x2B then Some 62
         else if n = 0x2F then Some 63
         else None)"

section \<open>Encoding and decoding\<close>

fun EncodeToString :: "bytes \<Rightarrow> string" where
  "EncodeToString [] = []"
| "EncodeToString [a] =
     (let v = unat a * 65536
      in [b64_char (v div 262144), b64_char (v div 4096), CHR ''='', CHR ''=''])"
| "EncodeToString [a, b] =
     (let v = unat a * 65536 + unat b * 256
      in [b64_char (v div 262144), b64_char (v div 4096), b64_char (v div 64), CHR ''=''])"
| "EncodeToString (a # b # c # r) =
     (let v = unat a * 65536 + unat b * 256 + unat c
      in [b64_char (v div 262144), b64_char (v div 4096), b64_char (v div 64), b64_char v] @ EncodeToString r)"

definition byte :: "nat \<Rightarrow> byte" where
  "byte n = word_of_nat n"

text \<open>The quanta of the input after line ends are dropped.\<close>

fun decode_quanta :: "string \<Rightarrow> bytes option" where
  "decode_quanta [] = Some []"
| "decode_quanta (p # q # r # s # rest) =
     (case (b64_val p, b64_val q) of
        (Some p', Some q') \<Rightarrow>
          (let v = p' * 262144 + q' * 4096 in
           if r = CHR ''='' then
             (if s = CHR ''='' \<and> rest = [] then Some [byte (v div 65536)] else None)
           else
             (case b64_val r of
                None \<Rightarrow> None
              | Some r' \<Rightarrow>
                  (let v = v + r' * 64 in
                   if s = CHR ''='' then
                     (if rest = [] then Some [byte (v div 65536), byte (v div 256)] else None)
                   else
                     (case b64_val s of
                        None \<Rightarrow> None
                      | Some s' \<Rightarrow>
                          (let v = v + s' in
                           map_option (\<lambda>bs. [byte (v div 65536), byte (v div 256), byte v] @ bs)
                             (decode_quanta rest))))))
      | _ \<Rightarrow> None)"
| "decode_quanta _ = None"

definition DecodeString :: "string \<Rightarrow> bytes option" where
  "DecodeString s = decode_quanta (filter (\<lambda>c. c \<noteq> CHR 0x0D \<and> c \<noteq> CHR 0x0A) s)"

section \<open>Round trip\<close>

lemma b64_alphabet: "list_all (\<lambda>n. b64_val (alphabet ! n) = Some n \<and> alphabet ! n \<noteq> CHR ''=''
    \<and> alphabet ! n \<noteq> CHR 0x0D \<and> alphabet ! n \<noteq> CHR 0x0A) [0..<64]"
  by (simp add: alphabet_def b64_val_def upt_rec)

lemma b64_digit:
  "b64_val (b64_char n) = Some (n mod 64)" "b64_char n \<noteq> CHR ''=''"
  "b64_char n \<noteq> CHR 0x0D" "b64_char n \<noteq> CHR 0x0A"
  using b64_alphabet unfolding list_all_iff b64_char_def by simp_all

lemma encode_no_line_ends: "filter (\<lambda>c. c \<noteq> CHR 0x0D \<and> c \<noteq> CHR 0x0A) (EncodeToString bs) = EncodeToString bs"
  by (induction bs rule: EncodeToString.induct) (simp_all add: b64_digit Let_def)

lemma byte_less: "unat (a :: byte) < 256"
  using unsigned_less[of a, where ?'a = nat] by simp

lemma byte_back: "n mod 256 = unat a \<Longrightarrow> byte n = a"
  by (simp add: byte_def word_unat_eq_iff unat_of_nat)

lemma sextets:
  fixes v :: nat
  assumes "v < 16777216"
  shows "v div 262144 mod 64 * 262144 + v div 4096 mod 64 * 4096 + v div 64 mod 64 * 64 + v mod 64 = v"
proof -
  have 1: "v div 64 * 64 + v mod 64 = v" by (rule div_mult_mod_eq)
  have 2: "v div 4096 * 64 + v div 64 mod 64 = v div 64"
    using div_mult_mod_eq[of "v div 64" 64] by (simp add: div_mult2_eq[symmetric])
  have 3: "v div 262144 * 64 + v div 4096 mod 64 = v div 4096"
    using div_mult_mod_eq[of "v div 4096" 64] by (simp add: div_mult2_eq[symmetric])
  have "v div 262144 < 64" by (rule less_mult_imp_div_less) (use assms in simp)
  then have "v div 262144 mod 64 = v div 262144" by simp
  with 1 2 3 show ?thesis by linarith
qed

lemma three_bytes:
  fixes a b c :: nat
  assumes "b < 256" "c < 256"
  shows "(a * 65536 + b * 256 + c) div 65536 = a" "(a * 65536 + b * 256 + c) div 256 mod 256 = b mod 256"
    "(a * 65536 + b * 256 + c) mod 256 = c"
proof -
  have e: "a * 65536 + b * 256 + c = c + (a * 256 + b) * 256" by simp
  have d: "(a * 65536 + b * 256 + c) div 256 = a * 256 + b"
    unfolding e using assms(2) by (simp only: div_mult_self1 div_less numeral_eq_iff zero_neq_numeral not_False_eq_True add_0)
  have "(a * 65536 + b * 256 + c) div 65536 = (a * 65536 + b * 256 + c) div 256 div 256"
    by (simp add: div_mult2_eq[symmetric])
  also have "\<dots> = (b + a * 256) div 256" unfolding d by (simp add: add.commute)
  also have "\<dots> = a" using assms(1) by (simp only: div_mult_self1 div_less zero_neq_numeral not_False_eq_True add_0)
  finally show "(a * 65536 + b * 256 + c) div 65536 = a" .
  show "(a * 65536 + b * 256 + c) div 256 mod 256 = b mod 256" unfolding d by simp
  show "(a * 65536 + b * 256 + c) mod 256 = c" unfolding e using assms(2) by (simp only: mod_mult_self1 mod_less)
qed

lemma decode_encode: "decode_quanta (EncodeToString bs) = Some bs"
proof (induction bs rule: EncodeToString.induct)
  case (2 a)
  let ?v = "unat a * 65536"
  have "?v < 16777216" using byte_less[of a] by simp
  note s = sextets[OF this]
  have "?v = 64 * (unat a * 1024)" "unat a * 1024 = 64 * (unat a * 16)" by simp_all
  then have "?v mod 64 = 0" "?v div 64 mod 64 = 0" by (metis mod_mult_self1_is_0, metis mod_mult_self1_is_0 nonzero_mult_div_cancel_left zero_neq_numeral)
  with s have "?v div 262144 mod 64 * 262144 + ?v div 4096 mod 64 * 4096 = ?v" by linarith
  moreover have "byte (?v div 65536) = a" by (rule byte_back) (use byte_less[of a] in simp)
  ultimately show ?case
    by (simp only: EncodeToString.simps decode_quanta.simps Let_def b64_digit option.case prod.case if_True simp_thms)
next
  case (3 a b)
  let ?v = "unat a * 65536 + unat b * 256"
  have "?v < 16777216" using byte_less[of a] byte_less[of b] by simp
  note s = sextets[OF this]
  have "?v = 64 * (unat a * 1024 + unat b * 4)" by simp
  then have "?v mod 64 = 0" by (metis mod_mult_self1_is_0)
  with s have "?v div 262144 mod 64 * 262144 + ?v div 4096 mod 64 * 4096 + ?v div 64 mod 64 * 64 = ?v" by linarith
  moreover have "byte (?v div 65536) = a" "byte (?v div 256) = b"
    using byte_less[of a] three_bytes[OF byte_less[of b], of 0 "unat a"] byte_less[of b] by (intro byte_back; simp)+
  ultimately show ?case
    by (simp only: EncodeToString.simps decode_quanta.simps Let_def b64_digit option.case prod.case if_True if_False simp_thms)
next
  case (4 a b c r)
  let ?v = "unat a * 65536 + unat b * 256 + unat c"
  have "?v < 16777216" using byte_less[of a] byte_less[of b] byte_less[of c] by simp
  note s = sextets[OF this]
  have "byte (?v div 65536) = a" "byte (?v div 256) = b" "byte ?v = c"
    using byte_less[of a] three_bytes[OF byte_less[of b] byte_less[of c], of "unat a"] byte_less[of b]
    by (intro byte_back; simp)+
  with 4 s show ?case
    by (simp only: EncodeToString.simps decode_quanta.simps Let_def b64_digit option.case prod.case if_True if_False
        simp_thms append.simps option.map)
qed simp

lemma DecodeString_EncodeToString: "DecodeString (EncodeToString bs) = Some bs"
  by (simp add: DecodeString_def encode_no_line_ends decode_encode)

end
