(* ===== verification/HttpExchange.thy ===== *)
theory HttpExchange
  imports Exchange Validators GoBase64
begin

text \<open>
  The HTTP endpoint and its client (\<open>src/httpexchange/handler.go\<close>, \<open>src/httpexchange/client.go\<close>).
  The library \<open>github.com/hstern/go-token-exchange\<close> is the parameter \<open>texlib\<close>: its constants,
  the parsing of a request, the writing of responses and the JSON decoding of its structs.  The
  description of an error reply is the text of an error, represented by the error itself.
\<close>

record TokenExchangeError =
  te_Code :: string
  te_Description :: goerror

record TokenExchangeResponse =
  tr_AccessToken :: string
  tr_IssuedTokenType :: string
  tr_TokenType :: string
  tr_ExpiresIn :: int

text \<open>What a handler writes: the call of the library that writes the reply, and the headers set.\<close>

datatype reply =
    ReplyError TokenExchangeError
  | ReplyToken "(string \<times> string) list" TokenExchangeResponse

record texlib =
  GrantTypeTokenExchange :: string
  TokenTypeAccessToken :: string
  ErrCodeInvalidRequest :: string
  ParseTokenExchangeRequest :: "http_request \<Rightarrow> TokenExchangeRequest result"
  WriteReply :: "reply \<Rightarrow> http_response"
  Decode_Error :: "string result \<Rightarrow> TokenExchangeError result"
  Decode_Response :: "string result \<Rightarrow> TokenExchangeResponse result"

section \<open>The handler\<close>

text \<open>The interface \<open>Exchanger\<close>, over the state \<open>'c\<close> it keeps.\<close>

type_synonym 'c Exchanger = "'c \<Rightarrow> world \<Rightarrow> ExchangeRequest \<Rightarrow> Credential result \<times> 'c"

definition NewHandler :: "texlib \<Rightarrow> 'c Exchanger \<Rightarrow> 'c \<Rightarrow> world \<Rightarrow> http_request \<Rightarrow> reply \<times> 'c" where
  "NewHandler X ex c w r =
     (case ParseTokenExchangeRequest X r of
        Inl err \<Rightarrow> (ReplyError \<lparr>te_Code = ErrCodeInvalidRequest X, te_Description = err\<rparr>, c)
      | Inr wire \<Rightarrow>
          (case ExchangeRequestFromWire (GrantTypeTokenExchange X) wire of
             Inl err \<Rightarrow> (ReplyError \<lparr>te_Code = TokenExchangeErrorCode err, te_Description = err\<rparr>, c)
           | Inr req \<Rightarrow>
               (case ex c w req of
                  (Inl err, c') \<Rightarrow> (ReplyError \<lparr>te_Code = TokenExchangeErrorCode err, te_Description = err\<rparr>, c')
                | (Inr cred, c') \<Rightarrow>
                    (case (if Output req = OutputAPReq then Cred_APReq cred else Cred_CCache cred) of
                       Inl err \<Rightarrow> (ReplyError \<lparr>te_Code = ErrCodeInvalidRequest X, te_Description = err\<rparr>, c')
                     | Inr raw \<Rightarrow>
                         (ReplyToken [(''Cache-Control'', ''no-store'')]
                            \<lparr>tr_AccessToken = EncodeToString raw,
                             tr_IssuedTokenType = OutputType_TokenType (Output req),
                             tr_TokenType = ''N_A'',
                             tr_ExpiresIn = duration_seconds (Until (now_reply w) (Cred_Expiry cred))\<rparr>, c')))))"

section \<open>The client\<close>

record Client =
  endpoint :: string
  hc :: "world \<Rightarrow> http_request \<Rightarrow> http_response result"

definition NewClient :: "transport \<Rightarrow> string \<Rightarrow> (world \<Rightarrow> http_request \<Rightarrow> http_response result) option \<Rightarrow> Client" where
  "NewClient T tokenEndpoint h =
     \<lparr>endpoint = tokenEndpoint, hc = (case h of None \<Rightarrow> Do_request T | Some h \<Rightarrow> h)\<rparr>"

text \<open>An error of the client: its own, or the error the server sent.\<close>

datatype client_error = ClientError goerror | ServerError TokenExchangeError

definition exchange_form :: "texlib \<Rightarrow> string \<Rightarrow> ServicePrincipal \<Rightarrow> OutputType \<Rightarrow> (string \<times> string list) list" where
  "exchange_form X accessToken target output =
     [(''grant_type'', [GrantTypeTokenExchange X]),
      (''subject_token'', [accessToken]),
      (''subject_token_type'', [TokenTypeAccessToken X]),
      (''requested_token_type'', [OutputType_TokenType output]),
      (''resource'', [SPN_String target])]"

text \<open>An error of the base64 decoder; its text is not modelled.\<close>

definition base64Error :: goerror where
  "base64Error = Foreign 101"

definition Client_Exchange ::
    "texlib \<Rightarrow> transport \<Rightarrow> Client \<Rightarrow> world \<Rightarrow> gotime \<Rightarrow> string \<Rightarrow> ServicePrincipal \<Rightarrow> OutputType
     \<Rightarrow> client_error + Credential" where
  "Client_Exchange X T cl w now accessToken target output =
     (case NewRequest_error T (endpoint cl) of
        Some e \<Rightarrow> Inl (ClientError (wrapf ''httpexchange: build request: '' e))
      | None \<Rightarrow>
          (case hc cl w
             \<lparr>rq_method = ''POST'', rq_url = endpoint cl, rq_headers = [''Content-Type'' \<mapsto> ''application/x-www-form-urlencoded''],
              rq_basicAuth = None, rq_body = Values_Encode (exchange_form X accessToken target output)\<rparr> of
             Inl e \<Rightarrow> Inl (ClientError (wrapf ''httpexchange: do request: '' e))
           | Inr resp \<Rightarrow>
               if rs_status resp \<noteq> 200 then
                 (case Decode_Error X (rs_body resp) of
                    Inl e \<Rightarrow> Inl (ClientError (Errorf [Lit ''httpexchange: decode error response (status '',
                               Number (rs_status resp), Lit ''): '', WrapW e]))
                  | Inr te \<Rightarrow> Inl (ServerError te))
               else
                 (case Decode_Response X (rs_body resp) of
                    Inl e \<Rightarrow> Inl (ClientError (wrapf ''httpexchange: decode response: '' e))
                  | Inr ter \<Rightarrow>
                      (case DecodeString (tr_AccessToken ter) of
                         None \<Rightarrow> Inl (ClientError (wrapf ''httpexchange: base64-decode issued token: '' base64Error))
                       | Some raw \<Rightarrow>
                           let expiry = Add now (to_int64 (to_int64 (tr_ExpiresIn ter) * 1000000000));
                               (ccache, apreq) = (if output = OutputCCache then (raw, []) else ([], raw))
                           in Inr (NewCredential [] target expiry ccache apreq)))))"

section \<open>The form\<close>

lemma exchange_form_pairs:
  "form_pairs (exchange_form X accessToken target output) =
     [(''grant_type'', GrantTypeTokenExchange X), (''requested_token_type'', OutputType_TokenType output),
      (''resource'', SPN_String target), (''subject_token'', accessToken),
      (''subject_token_type'', TokenTypeAccessToken X)]"
  by (simp add: form_pairs_def exchange_form_def less_eq_char_def less_char_def)

section \<open>Client and handler together\<close>

text \<open>The values of a form under a key.\<close>

definition form_all :: "string \<Rightarrow> (string \<times> string) list \<Rightarrow> string list" where
  "form_all k ps = map snd (filter (\<lambda>(k', v). k' = k) ps)"

text \<open>
  What is relied on in the library: a form with the grant type, a subject token and its type is
  parsed to the request with the form's parameters; a token reply has status 200 and decodes to
  itself; an error reply has another status and decodes to an error with its code.
\<close>

definition texlib_ok :: "texlib \<Rightarrow> bool" where
  "texlib_ok X \<longleftrightarrow>
     (\<forall>rq ps t. rq_method rq = ''POST'' \<longrightarrow> rq_headers rq ''Content-Type'' = Some ''application/x-www-form-urlencoded''
        \<longrightarrow> map decode_pair (split_on (CHR ''&'') (rq_body rq)) = map Some ps
        \<longrightarrow> form_all ''grant_type'' ps = [GrantTypeTokenExchange X] \<longrightarrow> form_all ''subject_token'' ps = [t] \<longrightarrow> t \<noteq> []
        \<longrightarrow> form_all ''subject_token_type'' ps = [TokenTypeAccessToken X]
        \<longrightarrow> ParseTokenExchangeRequest X rq = Inr \<lparr>GrantType = GrantTypeTokenExchange X,
              Resource = form_all ''resource'' ps, Audience = form_all ''audience'' ps,
              RequestedTokenType = concat (take 1 (form_all ''requested_token_type'' ps)), SubjectToken = t\<rparr>)
     \<and> (\<forall>h r. rs_status (WriteReply X (ReplyToken h r)) = 200
              \<and> Decode_Response X (rs_body (WriteReply X (ReplyToken h r))) = Inr r)
     \<and> (\<forall>e. rs_status (WriteReply X (ReplyError e)) \<noteq> 200
              \<and> (\<exists>te. Decode_Error X (rs_body (WriteReply X (ReplyError e))) = Inr te \<and> te_Code te = te_Code e))"

definition client_request :: "texlib \<Rightarrow> Client \<Rightarrow> string \<Rightarrow> ServicePrincipal \<Rightarrow> OutputType \<Rightarrow> http_request" where
  "client_request X cl accessToken target output =
     \<lparr>rq_method = ''POST'', rq_url = endpoint cl, rq_headers = [''Content-Type'' \<mapsto> ''application/x-www-form-urlencoded''],
      rq_basicAuth = None, rq_body = Values_Encode (exchange_form X accessToken target output)\<rparr>"

lemma client_request_parsed:
  assumes "texlib_ok X" "accessToken \<noteq> []"
  shows "ParseTokenExchangeRequest X (client_request X cl accessToken target output) =
    Inr \<lparr>GrantType = GrantTypeTokenExchange X, Resource = [SPN_String target], Audience = [],
         RequestedTokenType = OutputType_TokenType output, SubjectToken = accessToken\<rparr>"
proof -
  let ?rq = "client_request X cl accessToken target output"
  let ?ps = "form_pairs (exchange_form X accessToken target output)"
  have d: "map decode_pair (split_on (CHR ''&'') (rq_body ?rq)) = map Some ?ps"
    unfolding client_request_def by (simp add: decode_Values_Encode exchange_form_pairs del: split_on.simps)
  have f: "form_all ''grant_type'' ?ps = [GrantTypeTokenExchange X]" "form_all ''subject_token'' ?ps = [accessToken]"
    "form_all ''subject_token_type'' ?ps = [TokenTypeAccessToken X]" "form_all ''resource'' ?ps = [SPN_String target]"
    "form_all ''audience'' ?ps = []" "form_all ''requested_token_type'' ?ps = [OutputType_TokenType output]"
    by (simp_all add: form_all_def exchange_form_pairs)
  have h: "rq_method ?rq = ''POST''" "rq_headers ?rq ''Content-Type'' = Some ''application/x-www-form-urlencoded''"
    by (simp_all add: client_request_def)
  from assms(1) d h f assms(2) show ?thesis unfolding texlib_ok_def by (auto simp: f)
qed

text \<open>The output type the server sees: an unknown one is sent as the empty URI, which means a ccache.\<close>

definition wire_output :: "OutputType \<Rightarrow> OutputType" where
  "wire_output out = (if out = OutputAPReq then OutputAPReq else OutputCCache)"

lemma client_request_translated:
  assumes "texlib_ok X" "accessToken \<noteq> []" "wf_spn target"
  shows "\<exists>wire. ParseTokenExchangeRequest X (client_request X cl accessToken target output) = Inr wire
    \<and> ExchangeRequestFromWire (GrantTypeTokenExchange X) wire =
      Inr \<lparr>AccessToken = accessToken, Target = target, Output = wire_output output\<rparr>"
proof -
  have "OutputTypeFromTokenType (OutputType_TokenType output) = Inr (wire_output output)"
    by (auto simp: OutputTypeFromTokenType_def OutputType_TokenType_def wire_output_def token_types_distinct(3,4)[symmetric])
  moreover have "SPN_String target \<noteq> []" by (simp add: SPN_String_def)
  ultimately show ?thesis
    using client_request_parsed[OF assms(1,2)] parse_String[OF assms(3)] assms(2)
    by (simp add: ExchangeRequestFromWire_def)
qed

definition representation :: "OutputType \<Rightarrow> Credential \<Rightarrow> bytes result" where
  "representation out cred = (if out = OutputAPReq then Cred_APReq cred else Cred_CCache cred)"

section \<open>What the handler relies on\<close>

lemma FromWire_AccessToken:
  "ExchangeRequestFromWire g wire = Inr req \<Longrightarrow> AccessToken req = SubjectToken wire"
  by (auto simp: FromWire_eq attempt_eq_Inr split: if_splits option.splits)

text \<open>Whatever the requests are, the service only ever sees parsed service principals.\<close>

lemma handler_cache:
  "snd (NewHandler X ex c w r) = c
   \<or> (\<exists>req. wf_spn (Target req) \<and> snd (NewHandler X ex c w r) = snd (ex c w req))"
proof (cases "ParseTokenExchangeRequest X r")
  case (Inr wire)
  show ?thesis
  proof (cases "ExchangeRequestFromWire (GrantTypeTokenExchange X) wire")
    case (Inr req)
    then have "wf_spn (Target req)"
      by (rule FromWire_wf)
    moreover have "snd (NewHandler X ex c w r) = snd (ex c w req)"
      using \<open>ParseTokenExchangeRequest X r = Inr wire\<close> Inr
      by (simp add: NewHandler_def split: prod.split sum.split)
    ultimately show ?thesis by blast
  qed (simp add: NewHandler_def \<open>ParseTokenExchangeRequest X r = Inr wire\<close>)
qed (simp add: NewHandler_def)

lemma handler_token:
  assumes "fst (NewHandler X ex c w r) = ReplyToken h resp"
  obtains wire req cred c' raw where "ParseTokenExchangeRequest X r = Inr wire"
    "ExchangeRequestFromWire (GrantTypeTokenExchange X) wire = Inr req" "ex c w req = (Inr cred, c')"
    "wf_spn (Target req)" "representation (Output req) cred = Inr raw"
    "resp = \<lparr>tr_AccessToken = EncodeToString raw, tr_IssuedTokenType = OutputType_TokenType (Output req),
       tr_TokenType = ''N_A'', tr_ExpiresIn = duration_seconds (Until (now_reply w) (Cred_Expiry cred))\<rparr>"
proof -
  from assms obtain wire req cred c' raw where r: "ParseTokenExchangeRequest X r = Inr wire"
    "ExchangeRequestFromWire (GrantTypeTokenExchange X) wire = Inr req" "ex c w req = (Inr cred, c')"
    "representation (Output req) cred = Inr raw"
    "resp = \<lparr>tr_AccessToken = EncodeToString raw, tr_IssuedTokenType = OutputType_TokenType (Output req),
       tr_TokenType = ''N_A'', tr_ExpiresIn = duration_seconds (Until (now_reply w) (Cred_Expiry cred))\<rparr>"
    by (auto simp: NewHandler_def representation_def split: sum.splits prod.splits if_splits)
  moreover from r(2) have "wf_spn (Target req)"
    by (rule FromWire_wf)
  ultimately show thesis using that by blast
qed

text \<open>
  The contract of an \<open>Exchanger\<close>: on requests for parsed principals it keeps an invariant of its
  state, under which every credential it returns is right for the request (as \<open>ok\<close> says).  Behind
  the handler the invariant then holds for any request, and a token the handler writes is the text
  of a right credential.
\<close>

locale exchanger =
  fixes ex :: "'c Exchanger" and inv :: "'c \<Rightarrow> bool" and ok :: "world \<Rightarrow> ExchangeRequest \<Rightarrow> Credential \<Rightarrow> bool"
  assumes ex_inv: "inv c \<Longrightarrow> wf_spn (Target req) \<Longrightarrow> inv (snd (ex c w req))"
    and ex_ok: "inv c \<Longrightarrow> wf_spn (Target req) \<Longrightarrow> ex c w req = (Inr cred, c') \<Longrightarrow> ok w req cred"
begin

lemma handler_inv: "inv c \<Longrightarrow> inv (snd (NewHandler X ex c w r))"
  using handler_cache[of X ex c w r] by (auto simp: ex_inv)

lemma handler_token_ok:
  assumes "inv c" "fst (NewHandler X ex c w r) = ReplyToken h resp"
  shows "\<exists>wire req cred raw. ParseTokenExchangeRequest X r = Inr wire
      \<and> ExchangeRequestFromWire (GrantTypeTokenExchange X) wire = Inr req \<and> ok w req cred
      \<and> representation (Output req) cred = Inr raw \<and> DecodeString (tr_AccessToken resp) = Some raw"
  using assms(2)
proof (rule handler_token)
  fix wire req cred c' raw
  assume a: "ParseTokenExchangeRequest X r = Inr wire"
    "ExchangeRequestFromWire (GrantTypeTokenExchange X) wire = Inr req" "ex c w req = (Inr cred, c')"
    "wf_spn (Target req)" "representation (Output req) cred = Inr raw"
    "resp = \<lparr>tr_AccessToken = EncodeToString raw, tr_IssuedTokenType = OutputType_TokenType (Output req),
       tr_TokenType = ''N_A'', tr_ExpiresIn = duration_seconds (Until (now_reply w) (Cred_Expiry cred))\<rparr>"
  then have "ok w req cred" using assms(1) ex_ok by blast
  with a show ?thesis by (auto simp: DecodeString_EncodeToString)
qed

end

text \<open>
  The service keeps it, with the reachable cache states: the credential was issued under the key of
  this request, so it carries the representation asked for, and when subject and principal are free of
  NUL bytes it is for them.
\<close>

interpretation svc: exchanger "Service_Exchange K (direct_service K validate realm m d)"
    "cache_reachable K (direct_service K validate realm m d) NewMemoryCache"
    "\<lambda>w req cred. \<exists>i. validate w (AccessToken req) = Inr i
       \<and> carries K (direct_service K validate realm m d) (Output req) cred
       \<and> (separable (Subject i) (Target req)
          \<longrightarrow> fits K (direct_service K validate realm m d) realm (Subject i) (Target req) (Output req) cred)"
proof unfold_locales
  let ?s = "direct_service K validate realm m d"
  fix c and req :: ExchangeRequest and w cred c'
  assume "cache_reachable K ?s NewMemoryCache c" and wf: "wf_spn (Target req)"
    and "Service_Exchange K ?s c w req = (Inr cred, c')"
  from ds.exchange_source[OF this(1,3) wf] obtain i where "validate w (AccessToken req) = Inr i"
    and i: "issued_for K ?s (CacheKey (Subject i) (Target req) (Output req)) cred" by (auto simp: direct_service_def)
  with ds.issued_for_fits[OF i wf] show "\<exists>i. validate w (AccessToken req) = Inr i \<and> carries K ?s (Output req) cred
       \<and> (separable (Subject i) (Target req) \<longrightarrow> fits K ?s realm (Subject i) (Target req) (Output req) cred)" by blast
qed (rule cache_reachable.exchange)

section \<open>The reply to a client\<close>

lemma handler_reply:
  assumes "texlib_ok X" "accessToken \<noteq> []" "wf_spn target"
  shows "NewHandler X ex c w (client_request X cl accessToken target output) =
    (case ex c w \<lparr>AccessToken = accessToken, Target = target, Output = wire_output output\<rparr> of
       (Inl err, c') \<Rightarrow> (ReplyError \<lparr>te_Code = TokenExchangeErrorCode err, te_Description = err\<rparr>, c')
     | (Inr cred, c') \<Rightarrow>
         (case representation (wire_output output) cred of
            Inl err \<Rightarrow> (ReplyError \<lparr>te_Code = ErrCodeInvalidRequest X, te_Description = err\<rparr>, c')
          | Inr raw \<Rightarrow> (ReplyToken [(''Cache-Control'', ''no-store'')]
              \<lparr>tr_AccessToken = EncodeToString raw, tr_IssuedTokenType = OutputType_TokenType (wire_output output),
               tr_TokenType = ''N_A'', tr_ExpiresIn = duration_seconds (Until (now_reply w) (Cred_Expiry cred))\<rparr>, c')))"
proof -
  obtain wire where "ParseTokenExchangeRequest X (client_request X cl accessToken target output) = Inr wire"
    "ExchangeRequestFromWire (GrantTypeTokenExchange X) wire =
      Inr \<lparr>AccessToken = accessToken, Target = target, Output = wire_output output\<rparr>"
    using client_request_translated[OF assms] by blast
  then show ?thesis
    unfolding NewHandler_def representation_def
    by (simp split: sum.split prod.split)
qed

text \<open>A client whose requests reach the handler.\<close>

definition connected :: "texlib \<Rightarrow> transport \<Rightarrow> Client \<Rightarrow> 'c Exchanger \<Rightarrow> 'c \<Rightarrow> world \<Rightarrow> bool" where
  "connected X T cl ex c ws \<longleftrightarrow> NewRequest_error T (endpoint cl) = None
     \<and> (\<forall>w rq. hc cl w rq = Inr (WriteReply X (fst (NewHandler X ex c ws rq))))"

lemma client_token:
  assumes "texlib_ok X" "connected X T cl ex c ws" "accessToken \<noteq> []" "wf_spn target"
    and "ex c ws \<lparr>AccessToken = accessToken, Target = target, Output = wire_output output\<rparr> = (Inr cred, c')"
    and "representation (wire_output output) cred = Inr raw"
  shows "Client_Exchange X T cl w now accessToken target output =
    Inr (let expiry = Add now (to_int64 (to_int64 (duration_seconds (Until (now_reply ws) (Cred_Expiry cred))) * 1000000000))
         in if output = OutputCCache then NewCredential [] target expiry raw [] else NewCredential [] target expiry [] raw)"
proof -
  let ?r = "\<lparr>tr_AccessToken = EncodeToString raw, tr_IssuedTokenType = OutputType_TokenType (wire_output output),
       tr_TokenType = ''N_A'', tr_ExpiresIn = duration_seconds (Until (now_reply ws) (Cred_Expiry cred))\<rparr>"
  have h: "fst (NewHandler X ex c ws (client_request X cl accessToken target output)) =
      ReplyToken [(''Cache-Control'', ''no-store'')] ?r"
    using assms(5,6) by (simp add: handler_reply[OF assms(1,3,4)])
  have n: "NewRequest_error T (endpoint cl) = None"
    and d: "hc cl w (client_request X cl accessToken target output) = Inr (WriteReply X (ReplyToken [(''Cache-Control'', ''no-store'')] ?r))"
    using assms(2) h by (simp_all add: connected_def)
  have s: "rs_status (WriteReply X (ReplyToken [(''Cache-Control'', ''no-store'')] ?r)) = 200"
    "Decode_Response X (rs_body (WriteReply X (ReplyToken [(''Cache-Control'', ''no-store'')] ?r))) = Inr ?r"
    using assms(1) unfolding texlib_ok_def by blast+
  show ?thesis
    unfolding Client_Exchange_def client_request_def[symmetric]
    by (simp add: n d s DecodeString_EncodeToString)
qed

lemma client_refused:
  assumes "texlib_ok X" "connected X T cl ex c ws"
    and "fst (NewHandler X ex c ws (client_request X cl accessToken target output)) = ReplyError e"
  shows "\<exists>te. Client_Exchange X T cl w now accessToken target output = Inl (ServerError te) \<and> te_Code te = te_Code e"
proof -
  have n: "NewRequest_error T (endpoint cl) = None"
    and d: "hc cl w (client_request X cl accessToken target output) = Inr (WriteReply X (ReplyError e))"
    using assms(2,3) by (simp_all add: connected_def)
  obtain te where "rs_status (WriteReply X (ReplyError e)) \<noteq> 200"
    "Decode_Error X (rs_body (WriteReply X (ReplyError e))) = Inr te" "te_Code te = te_Code e"
    using assms(1) unfolding texlib_ok_def by blast
  then show ?thesis
    unfolding Client_Exchange_def client_request_def[symmetric] by (simp add: n d)
qed

section \<open>An instance of the library\<close>

text \<open>
  A concrete library that satisfies \<open>texlib_ok\<close>, for evaluation: it decodes the form, writes the
  fields of a response escaped and separated by \<open>&\<close>, and reads them back.
\<close>

definition write_int :: "int \<Rightarrow> string" where
  "write_int i = (if i < 0 then CHR ''-'' else CHR ''+'') # replicate (nat \<bar>i\<bar>) (CHR ''1'')"

definition read_int :: "string \<Rightarrow> int" where
  "read_int s = (if s \<noteq> [] \<and> hd s = CHR ''-'' then - int (length (tl s)) else int (length (tl s)))"

definition sample_write :: "reply \<Rightarrow> http_response" where
  "sample_write rp =
     (case rp of
        ReplyError e \<Rightarrow> \<lparr>rs_status = 400, rs_body = Inr (te_Code e)\<rparr>
      | ReplyToken h r \<Rightarrow> \<lparr>rs_status = 200, rs_body = Inr (join_with (CHR ''&'') (map QueryEscape
          [tr_AccessToken r, tr_IssuedTokenType r, tr_TokenType r, write_int (tr_ExpiresIn r)]))\<rparr>)"

definition sample_read :: "string result \<Rightarrow> TokenExchangeResponse result" where
  "sample_read body =
     attempt body (\<lambda>b.
       case map QueryUnescape (split_on (CHR ''&'') b) of
         [Some a, Some i, Some t, Some x] \<Rightarrow>
           Inr \<lparr>tr_AccessToken = a, tr_IssuedTokenType = i, tr_TokenType = t, tr_ExpiresIn = read_int x\<rparr>
       | _ \<Rightarrow> Inl (Foreign 20))"

definition sample_parse_form :: "http_request \<Rightarrow> TokenExchangeRequest result" where
  "sample_parse_form rq =
     (let kvs = map decode_pair (split_on (CHR ''&'') (rq_body rq)); ps = map the kvs
      in if None \<in> set kvs then Inl (Foreign 21)
         else Inr \<lparr>GrantType = concat (take 1 (form_all ''grant_type'' ps)),
            Resource = form_all ''resource'' ps, Audience = form_all ''audience'' ps,
            RequestedTokenType = concat (take 1 (form_all ''requested_token_type'' ps)),
            SubjectToken = concat (take 1 (form_all ''subject_token'' ps))\<rparr>)"

definition sample_texlib :: texlib where
  "sample_texlib =
     \<lparr>GrantTypeTokenExchange = ''urn:ietf:params:oauth:grant-type:token-exchange'',
      TokenTypeAccessToken = ''urn:ietf:params:oauth:token-type:access_token'',
      ErrCodeInvalidRequest = ''invalid_request'',
      ParseTokenExchangeRequest = sample_parse_form,
      WriteReply = sample_write,
      Decode_Error = (\<lambda>body. attempt body (\<lambda>b. Inr \<lparr>te_Code = b, te_Description = errors_New []\<rparr>)),
      Decode_Response = sample_read\<rparr>"

lemma read_write_int: "read_int (write_int i) = i"
  by (simp add: read_int_def write_int_def)

lemma sample_read_write: "sample_read (rs_body (sample_write (ReplyToken h r))) = Inr r"
proof -
  let ?vs = "[tr_AccessToken r, tr_IssuedTokenType r, tr_TokenType r, write_int (tr_ExpiresIn r)]"
  have "CHR ''&'' \<notin> set (QueryEscape v)" for v using QueryEscape_plain by blast
  then have "split_on (CHR ''&'') (join_with (CHR ''&'') (map QueryEscape ?vs)) = map QueryEscape ?vs"
    by (intro split_on_join) auto
  then have "map QueryUnescape (split_on (CHR ''&'') (join_with (CHR ''&'') (map QueryEscape ?vs))) = map Some ?vs"
    by (simp only: map_map comp_def QueryUnescape_Escape)
  then show ?thesis by (simp add: sample_read_def sample_write_def read_write_int)
qed

lemma sample_parse_form_eq:
  assumes "map decode_pair (split_on (CHR ''&'') (rq_body rq)) = map Some ps"
    "form_all ''grant_type'' ps = [g]" "form_all ''subject_token'' ps = [t]"
  shows "sample_parse_form rq = Inr \<lparr>GrantType = g, Resource = form_all ''resource'' ps,
      Audience = form_all ''audience'' ps,
      RequestedTokenType = concat (take 1 (form_all ''requested_token_type'' ps)), SubjectToken = t\<rparr>"
proof -
  have "None \<notin> set (map Some ps)" "map the (map Some ps) = ps" by (auto simp: comp_def)
  then show ?thesis unfolding sample_parse_form_def assms(1) Let_def using assms(2,3) by simp
qed

lemma sample_write_status:
  "rs_status (sample_write (ReplyToken h r)) = 200" "rs_status (sample_write (ReplyError e)) \<noteq> 200"
  by (simp_all add: sample_write_def)

lemma sample_texlib_ok: "texlib_ok sample_texlib"
proof -
  have sel: "ParseTokenExchangeRequest sample_texlib = sample_parse_form" "WriteReply sample_texlib = sample_write"
    "Decode_Response sample_texlib = sample_read"
    by (simp_all add: sample_texlib_def)
  have err: "\<exists>te. Decode_Error sample_texlib (rs_body (sample_write (ReplyError e))) = Inr te \<and> te_Code te = te_Code e" for e
    by (simp add: sample_texlib_def sample_write_def)
  show ?thesis
    unfolding texlib_ok_def sel
    by (intro conjI allI impI)
      (rule sample_parse_form_eq sample_read_write sample_write_status err; assumption)+
qed

definition sample_client :: "'c Exchanger \<Rightarrow> 'c \<Rightarrow> world \<Rightarrow> Client" where
  "sample_client ex c ws = \<lparr>endpoint = ''https://kx/token'',
     hc = (\<lambda>w rq. Inr (WriteReply sample_texlib (fst (NewHandler sample_texlib ex c ws rq))))\<rparr>"

lemma sample_connected: "connected sample_texlib (sample_transport 200 []) (sample_client ex c ws) ex c ws"
  by (simp add: connected_def sample_client_def sample_transport_def)

lemmas sample_service_connected =
  sample_connected[of "Service_Exchange sample_krb5 sample_service" NewMemoryCache sample_world]

lemma sample_spn_wf: "wf_spn sample_target"
  using sample_wf[of "[]"] by (simp add: sample_request_def)

lemma sample_ccache:
  assumes "MintedTicket_Credential sample_krb5 w mt OutputCCache = Inr c"
  shows "\<exists>raw. Cred_CCache c = Inr raw"
proof -
  have n: "\<exists>n. MarshalCCache sample_krb5 mt = Inr [5, 4, n]"
    by (simp add: MarshalCCache_def) (simp add: sample_krb5_def)
  from assms show ?thesis by (cases rule: Credential_cases) (use n in auto)
qed

lemma sample_served:
  "\<exists>cred c' raw. Service_Exchange sample_krb5 sample_service NewMemoryCache sample_world
       \<lparr>AccessToken = ''wide'', Target = sample_target, Output = OutputCCache\<rparr> = (Inr cred, c')
     \<and> representation OutputCCache cred = Inr raw \<and> ns (Cred_Expiry cred) = 1000"
proof -
  let ?i = "sample_identity \<lparr>ns = 1000, zone = UTC\<rparr>"
  obtain cred c' where e: "Service_Exchange sample_krb5 sample_service NewMemoryCache sample_world (sample_request ''wide'') = (Inr cred, c')"
    using sample_exchange by blast
  note e' = e[unfolded sample_service_def]
  have x: "ns (Cred_Expiry cred) = 1000"
    using ds.exchange_miss_expiry[OF e', of ?i]
    by (simp add: direct_service_def sample_validate_def sample_request_def NewMemoryCache_def
        exchange_end_def toUTC_def sample_identity_def)
  have "\<exists>raw. Cred_CCache cred = Inr raw"
    using e'
  proof (cases rule: ds.exchange_cases)
    case (fresh i x)
    then show ?thesis
      by (auto simp: exchange_issue_def attempt_eq_Inr Let_def sample_request_def intro: sample_ccache)
  qed (simp_all add: NewMemoryCache_def)
  then show ?thesis using e x by (auto simp: sample_request_def representation_def)
qed

section \<open>Properties\<close>

text \<open>
  C16.  End to end: the credential a client gets.  If a client talks to the handler and the exchange
  behind it issues a credential in the representation asked for, the client returns a credential
  for the target it asked for with exactly the issued bytes in that representation, and its expiry
  (on the client's clock) is at most the issued one and less than a second before it.  The lifetime
  left is assumed below \<open>2 ^ 24\<close> seconds (194 days), below which the seconds computed in
  floating point are exact.
\<close>

theorem Client_gets_issued_credential:
  assumes "texlib_ok X" "connected X T cl ex c ws" "accessToken \<noteq> []" "wf_spn target"
    and "output \<in> {OutputCCache, OutputAPReq}"
    and "ex c ws \<lparr>AccessToken = accessToken, Target = target, Output = output\<rparr> = (Inr cred, c')"
    and "representation output cred = Inr raw"
    and "ns (now_reply ws) \<le> ns (Cred_Expiry cred)" "ns (Cred_Expiry cred) - ns (now_reply ws) < 2 ^ 24 * 10 ^ 9"
  shows "\<exists>got. Client_Exchange X T cl w now accessToken target output = Inr got
    \<and> representation output got = Inr raw \<and> Cred_Target got = target \<and> Cred_Subject got = []
    \<and> ns (Cred_Expiry got) - ns now \<le> ns (Cred_Expiry cred) - ns (now_reply ws)
    \<and> ns (Cred_Expiry cred) - ns (now_reply ws) < ns (Cred_Expiry got) - ns now + 10 ^ 9"
proof -
  let ?d = "ns (Cred_Expiry cred) - ns (now_reply ws)"
  have o: "wire_output output = output" using assms(5) by (auto simp: wire_output_def)
  have raw: "raw \<noteq> []" using assms(7) by (auto simp: representation_def Cred_APReq_def Cred_CCache_def split: if_splits)
  have u: "Until (now_reply ws) (Cred_Expiry cred) = ?d"
    using assms(8,9) by (simp add: Until_def Sub_def minDuration_def maxDuration_def)
  have s: "duration_seconds ?d = ?d div 1000000000"
    using assms(8,9) by (intro duration_seconds_exact) simp_all
  have q: "0 \<le> ?d div 1000000000" "?d div 1000000000 * 1000000000 \<le> ?d" "?d < ?d div 1000000000 * 1000000000 + 1000000000"
    using assms(8) div_mult_mod_eq[of ?d 1000000000] pos_mod_bound[of 1000000000 ?d] pos_mod_sign[of 1000000000 ?d]
    by (simp_all add: pos_imp_zdiv_nonneg_iff)
  have w: "to_int64 (?d div 1000000000) = ?d div 1000000000"
    "to_int64 (?d div 1000000000 * 1000000000) = ?d div 1000000000 * 1000000000"
    using q assms(9) by (intro to_int64_id; simp)+
  have e: "Client_Exchange X T cl w now accessToken target output =
      Inr (if output = OutputCCache then NewCredential [] target (Add now (?d div 1000000000 * 1000000000)) raw []
           else NewCredential [] target (Add now (?d div 1000000000 * 1000000000)) [] raw)"
    using client_token[of X T cl ex c ws accessToken target "output" cred c' raw w now, unfolded o u s w Let_def] assms(1-7)
    by simp
  show ?thesis
    using assms(5) q raw by (auto simp: e representation_def Add_def)
qed

theorem Client_gets_issued_credential_witness:
  "\<exists>got raw. Client_Exchange sample_texlib (sample_transport 200 [])
       (sample_client (Service_Exchange sample_krb5 sample_service) NewMemoryCache sample_world)
       sample_now zeroTime ''wide'' sample_target OutputCCache = Inr got
     \<and> Cred_CCache got = Inr raw \<and> Cred_Target got = sample_target \<and> ns (Cred_Expiry got) \<le> 989"
proof -
  obtain cred c' raw where e: "Service_Exchange sample_krb5 sample_service NewMemoryCache sample_world
       \<lparr>AccessToken = ''wide'', Target = sample_target, Output = OutputCCache\<rparr> = (Inr cred, c')"
    and r: "representation OutputCCache cred = Inr raw" and x: "ns (Cred_Expiry cred) = 1000"
    using sample_served by blast
  have w: "ns (now_reply sample_world) = 11" by (simp add: sample_world_def)
  from Client_gets_issued_credential[OF sample_texlib_ok sample_service_connected _ sample_spn_wf _ e r,
      where w = sample_now and now = zeroTime]
  show ?thesis by (auto simp: x w representation_def zeroTime_def)
qed

text \<open>
  End to end: errors.  If the exchange fails, the client returns the server's error, with the
  code the error maps to.
\<close>

lemma Client_gets_server_error:
  assumes "texlib_ok X" "connected X T cl ex c ws" "accessToken \<noteq> []" "wf_spn target"
    and "ex c ws \<lparr>AccessToken = accessToken, Target = target, Output = wire_output output\<rparr> = (Inl err, c')"
  shows "\<exists>te. Client_Exchange X T cl w now accessToken target output = Inl (ServerError te)
    \<and> te_Code te = TokenExchangeErrorCode err"
proof -
  have "fst (NewHandler X ex c ws (client_request X cl accessToken target output)) =
      ReplyError \<lparr>te_Code = TokenExchangeErrorCode err, te_Description = err\<rparr>"
    using assms(5) by (simp add: handler_reply[OF assms(1,3,4)])
  from client_refused[OF assms(1,2) this] show ?thesis by simp
qed

text \<open>
  C40.  An output type that is neither of the two is not rejected by the client: it is sent as an
  empty URI, for which the server issues a ccache, and the client hands those bytes out as an
  AP-REQ.
\<close>

theorem Client_unknown_output:
  assumes "texlib_ok X" "connected X T cl ex c ws" "accessToken \<noteq> []" "wf_spn target"
    and "output \<notin> {OutputCCache, OutputAPReq}"
    and "ex c ws \<lparr>AccessToken = accessToken, Target = target, Output = OutputCCache\<rparr> = (Inr cred, c')"
    and "Cred_CCache cred = Inr raw"
  shows "\<exists>got. Client_Exchange X T cl w now accessToken target output = Inr got \<and> Cred_APReq got = Inr raw"
proof -
  have o: "wire_output output = OutputCCache" using assms(5) by (simp add: wire_output_def)
  have "raw \<noteq> []" using assms(7) by (auto simp: Cred_CCache_def split: if_splits)
  then show ?thesis
    using client_token[of X T cl ex c ws accessToken target "output" cred c' raw w now] assms o
    by (simp add: representation_def Let_def)
qed

theorem Client_unknown_output_witness:
  "\<exists>got raw. Client_Exchange sample_texlib (sample_transport 200 [])
       (sample_client (Service_Exchange sample_krb5 sample_service) NewMemoryCache sample_world)
       sample_now zeroTime ''wide'' sample_target 7 = Inr got \<and> Cred_APReq got = Inr raw"
proof -
  obtain cred c' raw where e: "Service_Exchange sample_krb5 sample_service NewMemoryCache sample_world
       \<lparr>AccessToken = ''wide'', Target = sample_target, Output = OutputCCache\<rparr> = (Inr cred, c')"
    and r: "representation OutputCCache cred = Inr raw"
    using sample_served by blast
  have c: "Cred_CCache cred = Inr raw" using r by (simp add: representation_def)
  have "7 \<notin> {OutputCCache, OutputAPReq}" by (simp add: output_defs)
  from Client_unknown_output[OF sample_texlib_ok sample_service_connected _ sample_spn_wf this e c,
      where w = sample_now and now = zeroTime]
  show ?thesis by auto
qed

text \<open>
  What the handler does with a request: a token is written exactly for a parsed, translated and
  exchanged request whose credential has the representation asked for, always with
  \<open>Cache-Control: no-store\<close>, the matching token type and the whole seconds left; and the state
  of the exchange changes only by the one call of \<open>Exchange\<close>, which a request that is refused
  earlier does not make.
\<close>

lemma NewHandler_token_iff:
  "((\<exists>h. fst (NewHandler X ex c w r) = ReplyToken h resp) \<longleftrightarrow>
     (\<exists>wire req cred c' raw. ParseTokenExchangeRequest X r = Inr wire
        \<and> ExchangeRequestFromWire (GrantTypeTokenExchange X) wire = Inr req \<and> ex c w req = (Inr cred, c')
        \<and> representation (Output req) cred = Inr raw
        \<and> NewHandler X ex c w r = (ReplyToken [(''Cache-Control'', ''no-store'')] resp, c')
        \<and> DecodeString (tr_AccessToken resp) = Some raw
        \<and> tr_IssuedTokenType resp = OutputType_TokenType (Output req) \<and> tr_TokenType resp = ''N_A''
        \<and> tr_ExpiresIn resp = duration_seconds (Until (now_reply w) (Cred_Expiry cred))))
   \<and> snd (NewHandler X ex c w r) =
       (case ParseTokenExchangeRequest X r of
          Inl _ \<Rightarrow> c
        | Inr wire \<Rightarrow> (case ExchangeRequestFromWire (GrantTypeTokenExchange X) wire of
                        Inl _ \<Rightarrow> c | Inr req \<Rightarrow> snd (ex c w req)))"
  (is "(?l \<longleftrightarrow> ?r) \<and> ?s")
proof (intro conjI iffI)
  assume ?l
  then show ?r
    by (auto simp: NewHandler_def representation_def DecodeString_EncodeToString
        split: sum.splits prod.splits if_splits)
next
  assume ?r
  then show ?l by auto
next
  show ?s by (auto simp: NewHandler_def split: sum.splits prod.splits)
qed

end
