(* ===== verification/ExchangeSpec.thy ===== *)
theory ExchangeSpec
  imports HttpExchange
begin

text \<open>
  What the service promises, without its cache: an abstract service remembers the credential last
  issued for each subject, principal and output type, never forgets one, and never builds a key
  string.  The service of \<open>src/service.go\<close> with the cache of \<open>src/cache.go\<close>, and the HTTP handler
  around it, answer every sequence of requests exactly like the abstract one.
\<close>

section \<open>Simulation\<close>

text \<open>The outputs of a machine on a sequence of inputs.\<close>

fun outputs :: "('s \<Rightarrow> 'i \<Rightarrow> 'o \<times> 's) \<Rightarrow> 's \<Rightarrow> 'i list \<Rightarrow> 'o list" where
  "outputs step s [] = []"
| "outputs step s (i # is) = (case step s i of (out, s') \<Rightarrow> out # outputs step s' is)"

text \<open>
  A step-by-step simulation whose relation may weaken as time goes by (entries expire): the inputs
  carry a clock, which must not run backwards.
\<close>

locale simulation =
  fixes impl :: "'s \<Rightarrow> 'i \<Rightarrow> 'o \<times> 's" and spec :: "'a \<Rightarrow> 'i \<Rightarrow> 'o \<times> 'a"
    and clock :: "'i \<Rightarrow> int" and ok :: "'i \<Rightarrow> bool" and rel :: "int \<Rightarrow> 'a \<Rightarrow> 's \<Rightarrow> bool"
  assumes sim_step: "rel t a c \<Longrightarrow> t \<le> clock i \<Longrightarrow> ok i \<Longrightarrow>
      fst (impl c i) = fst (spec a i) \<and> rel (clock i) (snd (spec a i)) (snd (impl c i))"
begin

lemma outputs_agree:
  "rel t a c \<Longrightarrow> sorted (t # map clock is) \<Longrightarrow> list_all ok is \<Longrightarrow> outputs impl c is = outputs spec a is"
proof (induction "is" arbitrary: t a c)
  case (Cons i "is")
  then have "fst (impl c i) = fst (spec a i)" "rel (clock i) (snd (spec a i)) (snd (impl c i))"
    using sim_step[of t a c i] by auto
  with Cons.IH[of "clock i" "snd (spec a i)" "snd (impl c i)"] Cons.prems(2,3) show ?case
    by (simp add: case_prod_beta)
qed simp

end

text \<open>A condition on the requests that reach the exchange, as one on what is sent to the handler.\<close>

definition handled_ok :: "texlib \<Rightarrow> (world \<Rightarrow> ExchangeRequest \<Rightarrow> bool) \<Rightarrow> world \<times> http_request \<Rightarrow> bool" where
  "handled_ok X ok = (\<lambda>(w, r). \<forall>wire req. ParseTokenExchangeRequest X r = Inr wire
     \<longrightarrow> ExchangeRequestFromWire (GrantTypeTokenExchange X) wire = Inr req \<longrightarrow> ok w req)"

text \<open>
  Two exchangers of which one simulates the other make two handlers of which one simulates the
  other.
\<close>

locale exchanger_refinement =
  fixes impl :: "'s Exchanger" and spec :: "'a Exchanger"
    and ok :: "world \<Rightarrow> ExchangeRequest \<Rightarrow> bool" and rel :: "int \<Rightarrow> 'a \<Rightarrow> 's \<Rightarrow> bool"
  assumes ex_step: "rel t a c \<Longrightarrow> t \<le> ns (now_get w) \<Longrightarrow> wf_spn (Target req) \<Longrightarrow> ok w req \<Longrightarrow>
      fst (impl c w req) = fst (spec a w req) \<and> rel (ns (now_get w)) (snd (spec a w req)) (snd (impl c w req))"
    and rel_later: "rel t a c \<Longrightarrow> t \<le> t' \<Longrightarrow> rel t' a c"

text \<open>The exchange as a handler sees it whose call has returned \<open>res\<close>.\<close>

definition returning :: "Credential result \<Rightarrow> unit Exchanger" where
  "returning res = (\<lambda>c w req. (res, c))"

text \<open>The handler's reply is a function of what the exchange returns.\<close>

lemma handler_returns:
  assumes "ParseTokenExchangeRequest X r = Inr wire" "ExchangeRequestFromWire (GrantTypeTokenExchange X) wire = Inr req"
  shows "NewHandler X ex c w r = (fst (NewHandler X (returning (fst (ex c w req))) () w r), snd (ex c w req))"
  using assms by (auto simp: NewHandler_def returning_def split: sum.splits prod.splits)

context exchanger_refinement begin

lemma handler_step:
  assumes "rel t a c" "t \<le> ns (now_get w)" "handled_ok X ok (w, r)"
  shows "fst (NewHandler X impl c w r) = fst (NewHandler X spec a w r)
    \<and> rel (ns (now_get w)) (snd (NewHandler X spec a w r)) (snd (NewHandler X impl c w r))"
proof (cases "ParseTokenExchangeRequest X r")
  case (Inr wire)
  note p = this
  show ?thesis
  proof (cases "ExchangeRequestFromWire (GrantTypeTokenExchange X) wire")
    case (Inr req)
    with p assms(3) have "ok w req" by (auto simp: handled_ok_def)
    with ex_step[OF assms(1,2) FromWire_wf[OF Inr]] show ?thesis
      by (simp add: handler_returns[OF p Inr, of impl c w] handler_returns[OF p Inr, of spec a w])
  qed (use p rel_later[OF assms(1,2)] in \<open>simp add: NewHandler_def\<close>)
qed (use rel_later[OF assms(1,2)] in \<open>simp add: NewHandler_def\<close>)

end

sublocale exchanger_refinement \<subseteq> handler: simulation
  "\<lambda>c (w, r). NewHandler X impl c w r" "\<lambda>a (w, r). NewHandler X spec a w r"
  "\<lambda>(w, r). ns (now_get w)" "handled_ok X ok" rel for X
  by unfold_locales (use handler_step in \<open>auto split: prod.splits\<close>)

section \<open>The abstract service\<close>

type_synonym issued = "string \<times> ServicePrincipal \<times> OutputType \<rightharpoonup> Credential"

definition spec_exchange :: "krb5 \<Rightarrow> 'c Service \<Rightarrow> issued Exchanger" where
  "spec_exchange K s a w req =
     (case sv_Validator s w (AccessToken req) of
        Inl e \<Rightarrow> (Inl e, a)
      | Inr i \<Rightarrow>
          let who = (Subject i, Target req, Output req)
          in case a who of
               Some cred \<Rightarrow>
                 if live (now_get w) cred then (Inr cred, a)
                 else (case exchange_issue K s w i req of
                         Inl e \<Rightarrow> (Inl e, a) | Inr new \<Rightarrow> (Inr new, a(who \<mapsto> new)))
             | None \<Rightarrow>
                 (case exchange_issue K s w i req of
                    Inl e \<Rightarrow> (Inl e, a) | Inr new \<Rightarrow> (Inr new, a(who \<mapsto> new))))"

text \<open>
  The cache holds what was issued, except for what had expired by \<open>t\<close> and was evicted; only keys
  of subjects without NUL bytes and of parsed principals count.
\<close>

definition remembers :: "int \<Rightarrow> issued \<Rightarrow> (string \<rightharpoonup> Credential) \<Rightarrow> bool" where
  "remembers t a m \<longleftrightarrow> (\<forall>subject p out. CHR 0x00 \<notin> set subject \<longrightarrow> wf_spn p \<longrightarrow>
     m (CacheKey subject p out) = a (subject, p, out)
     \<or> m (CacheKey subject p out) = None \<and> (\<exists>x. a (subject, p, out) = Some x \<and> ns (Cred_Expiry x) < t))"

definition nul_free :: "'c Service \<Rightarrow> world \<Rightarrow> ExchangeRequest \<Rightarrow> bool" where
  "nul_free s w req = (case sv_Validator s w (AccessToken req) of Inl e \<Rightarrow> True | Inr i \<Rightarrow> CHR 0x00 \<notin> set (Subject i))"

lemma remembers_later: "remembers t a m \<Longrightarrow> t \<le> t' \<Longrightarrow> remembers t' a m"
  unfolding remembers_def by (meson order_less_le_trans)

lemma remembersD:
  assumes "remembers t a m" "CHR 0x00 \<notin> set subject" "wf_spn p"
  obtains "m (CacheKey subject p out) = a (subject, p, out)"
    | x where "m (CacheKey subject p out) = None" "a (subject, p, out) = Some x" "ns (Cred_Expiry x) < t"
  using assms unfolding remembers_def by blast

text \<open>Distinct triples have distinct keys, so a change under one key is a change of one triple.\<close>

lemma remembers_update:
  assumes "remembers t a m" "CHR 0x00 \<notin> set subject" "wf_spn p"
    and "v = a' \<or> v = None \<and> (\<exists>x. a' = Some x \<and> ns (Cred_Expiry x) < t)"
  shows "remembers t (a((subject, p, out) := a')) (m(CacheKey subject p out := v))"
  unfolding remembers_def
proof (intro allI impI)
  fix subject' p' out'
  assume o: "CHR 0x00 \<notin> set subject'" "wf_spn p'"
  have "CacheKey subject' p' out' = CacheKey subject p out \<longleftrightarrow> (subject', p', out') = (subject, p, out)"
    using CacheKey_inj_nul_free[OF o(1) assms(2) o(2) assms(3)] by blast
  then show "(m(CacheKey subject p out := v)) (CacheKey subject' p' out') = (a((subject, p, out) := a')) (subject', p', out')
     \<or> (m(CacheKey subject p out := v)) (CacheKey subject' p' out') = None
       \<and> (\<exists>x. (a((subject, p, out) := a')) (subject', p', out') = Some x \<and> ns (Cred_Expiry x) < t)"
    using assms(4) remembersD[OF assms(1) o, of out'] by (cases "(subject', p', out') = (subject, p, out)") auto
qed

context exchange_service begin

lemma spec_step:
  assumes "remembers t a (entries c)" "t \<le> ns (now_get w)" "wf_spn (Target req)" "nul_free s w req"
  shows "fst (Service_Exchange K s c w req) = fst (spec_exchange K s a w req)
    \<and> remembers (ns (now_get w)) (snd (spec_exchange K s a w req)) (entries (snd (Service_Exchange K s c w req)))"
proof (cases "sv_Validator s w (AccessToken req)")
  case (Inl e)
  then show ?thesis using remembers_later[OF assms(1,2)] by (simp add: Service_Exchange_def spec_exchange_def)
next
  case (Inr i)
  let ?k = "CacheKey (Subject i) (Target req) (Output req)" and ?who = "(Subject i, Target req, Output req)"
  let ?now = "ns (now_get w)"
  note v = Inr
  have nul: "CHR 0x00 \<notin> set (Subject i)" using assms(4) v by (simp add: nul_free_def)
  note r = remembers_later[OF assms(1,2)]
  have found: "fst (get c (now_get w) ?k) = (case a ?who of None \<Rightarrow> None | Some x \<Rightarrow> if live (now_get w) x then Some x else None)"
    by (rule remembersD[OF r nul assms(3), of "Output req"])
      (auto simp: get_result live_def Before_def split: option.splits)
  obtain h c1 where g: "get c (now_get w) ?k = (h, c1)" by fastforce
  show ?thesis
  proof (cases h)
    case (Some cred)
    with found g have "a ?who = Some cred" "live (now_get w) cred" by (auto split: option.splits if_splits)
    with v g Some r get_hit[of c "now_get w" ?k cred c1] show ?thesis
      by (simp add: Service_Exchange_def spec_exchange_def svc_cache)
  next
    case None
    with found g have miss: "a ?who = None \<or> (\<exists>x. a ?who = Some x \<and> \<not> live (now_get w) x)"
      by (auto split: option.splits if_splits)
    have e: "entries c1 = (entries c)(?k := None)" using get_entries[of c "now_get w" ?k] g None by simp
    have "remembers ?now (a(?who := a ?who)) ((entries c)(?k := None))"
      using miss by (intro remembers_update[OF r nul assms(3)]) (auto simp: live_def Before_def)
    with e have r1: "remembers ?now a (entries c1)" by (simp add: fun_upd_triv)
    have "remembers ?now (a(?who \<mapsto> x)) (entries (put c1 ?k x))" for x
      using remembers_update[OF r1 nul assms(3), of "Some x" "Some x"] by (simp add: put_entries)
    with r1 miss v g None show ?thesis
      by (auto simp: Service_Exchange_def spec_exchange_def svc_cache split: sum.splits option.splits)
  qed
qed

end

interpretation ref: exchanger_refinement "Service_Exchange K (direct_service K validate realm m d)"
    "spec_exchange K (direct_service K validate realm m d)" "nul_free (direct_service K validate realm m d)"
    "\<lambda>t a c. remembers t a (store c)"
  by unfold_locales (rule ds.spec_step remembers_later; assumption)+

end
