(* ===== verification/Interleave.thy ===== *)
theory Interleave
  imports Exchange
begin

text \<open>
  Concurrent exchanges.  The HTTP server runs every request on a goroutine of its own, so several
  calls of \<open>Service.Exchange\<close> (\<open>src/service.go\<close>) overlap; they share only the cache, whose
  operations hold its mutex (\<open>src/cache.go\<close>).  A call is therefore a thread with four atomic
  steps (validate, look up, issue, store), and a run is any interleaving of the steps of all
  threads.  That the mutex makes each operation of the cache one step is shown in \<open>Locking\<close>.
\<close>

datatype phase =
    Start
  | Validated Identity
  | Missed Identity
  | Minted Identity Credential
  | Finished "Credential result"

record thread =
  th_world :: world
  th_req :: ExchangeRequest
  th_phase :: phase

definition thread_step :: "krb5 \<Rightarrow> 'c Service \<Rightarrow> 'c \<Rightarrow> thread \<Rightarrow> 'c \<times> thread" where
  "thread_step K s c t =
     (let w = th_world t; req = th_req t;
          key = (\<lambda>i. CacheKey (Subject i) (Target req) (Output req));
          become = (\<lambda>p. t\<lparr>th_phase := p\<rparr>)
      in case th_phase t of
           Start \<Rightarrow>
             (case sv_Validator s w (AccessToken req) of
                Inl e \<Rightarrow> (c, become (Finished (Inl e)))
              | Inr i \<Rightarrow> (c, become (Validated i)))
         | Validated i \<Rightarrow>
             (case sv_Cache s of
                None \<Rightarrow> (c, become (Missed i))
              | Some ops \<Rightarrow>
                  (case cache_Get ops c (now_get w) (key i) of
                     (Some cred, c1) \<Rightarrow> (c1, become (Finished (Inr cred)))
                   | (None, c1) \<Rightarrow> (c1, become (Missed i))))
         | Missed i \<Rightarrow>
             (case exchange_issue K s w i req of
                Inl e \<Rightarrow> (c, become (Finished (Inl e)))
              | Inr cred \<Rightarrow> (c, become (Minted i cred)))
         | Minted i cred \<Rightarrow>
             ((case sv_Cache s of None \<Rightarrow> c | Some ops \<Rightarrow> cache_Put ops c (key i) cred),
              become (Finished (Inr cred)))
         | Finished r \<Rightarrow> (c, t))"

definition finished :: "thread \<Rightarrow> bool" where
  "finished t = (case th_phase t of Finished r \<Rightarrow> True | _ \<Rightarrow> False)"

definition start_thread :: "world \<times> ExchangeRequest \<Rightarrow> thread" where
  "start_thread = (\<lambda>(w, req). \<lparr>th_world = w, th_req = req, th_phase = Start\<rparr>)"

text \<open>One step of the system: some unfinished thread makes its next step.\<close>

inductive sys_step :: "krb5 \<Rightarrow> 'c Service \<Rightarrow> 'c \<times> thread list \<Rightarrow> 'c \<times> thread list \<Rightarrow> bool" for K s where
  move: "j < length ts \<Longrightarrow> \<not> finished (ts ! j) \<Longrightarrow> thread_step K s c (ts ! j) = (c', t') \<Longrightarrow>
    sys_step K s (c, ts) (c', ts[j := t'])"

inductive_cases sys_stepE: "sys_step K s (c, ts) \<sigma>'"

section \<open>One thread alone\<close>

lemma thread_step_frame:
  "thread_step K s c t = (c', t') \<Longrightarrow> th_world t' = th_world t \<and> th_req t' = th_req t"
  by (cases "th_phase t")
    (auto simp: thread_step_def Let_def split: sum.splits option.splits prod.splits)

fun run_thread :: "krb5 \<Rightarrow> 'c Service \<Rightarrow> nat \<Rightarrow> 'c \<times> thread \<Rightarrow> 'c \<times> thread" where
  "run_thread K s 0 ct = ct"
| "run_thread K s (Suc n) ct = run_thread K s n (thread_step K s (fst ct) (snd ct))"

lemma run_thread_alone:
  "run_thread K s 4 (c, start_thread (w, req)) =
     (snd (Service_Exchange K s c w req),
      \<lparr>th_world = w, th_req = req, th_phase = Finished (fst (Service_Exchange K s c w req))\<rparr>)"
proof -
  have 4: "(4::nat) = Suc (Suc (Suc (Suc 0)))" by simp
  show ?thesis
  proof (cases "sv_Validator s w (AccessToken req)")
    case (Inl e)
    then show ?thesis unfolding 4 run_thread.simps by (simp add: start_thread_def thread_step_def Service_Exchange_def)
  next
    case (Inr i)
    note v = this
    obtain h c1 where g: "(case sv_Cache s of None \<Rightarrow> (None, c)
        | Some ops \<Rightarrow> cache_Get ops c (now_get w) (CacheKey (Subject i) (Target req) (Output req))) = (h, c1)" by fastforce
    show ?thesis unfolding 4 run_thread.simps
      by (cases "sv_Cache s"; cases h; cases "exchange_issue K s w i req")
        (use v g in \<open>simp_all add: start_thread_def thread_step_def Service_Exchange_def\<close>)
  qed
qed

section \<open>Invariants of interleavings\<close>

text \<open>What holds of a thread at each of its phases.\<close>

definition thread_ok :: "krb5 \<Rightarrow> 'c Service \<Rightarrow> thread \<Rightarrow> bool" where
  "thread_ok K s t \<longleftrightarrow> wf_spn (Target (th_req t)) \<and>
     (case th_phase t of
        Start \<Rightarrow> True
      | Validated i \<Rightarrow> sv_Validator s (th_world t) (AccessToken (th_req t)) = Inr i
      | Missed i \<Rightarrow> sv_Validator s (th_world t) (AccessToken (th_req t)) = Inr i
      | Minted i cred \<Rightarrow> sv_Validator s (th_world t) (AccessToken (th_req t)) = Inr i
          \<and> exchange_issue K s (th_world t) i (th_req t) = Inr cred
      | Finished (Inl e) \<Rightarrow> True
      | Finished (Inr cred) \<Rightarrow>
          (\<exists>i. sv_Validator s (th_world t) (AccessToken (th_req t)) = Inr i
             \<and> issued_for K s (CacheKey (Subject i) (Target (th_req t)) (Output (th_req t))) cred
             \<and> (ns (now_get (th_world t)) \<le> ns (Cred_Expiry cred)
                \<or> ns (now_issue (th_world t)) < ns (Cred_Expiry cred))))"

definition all_issued :: "krb5 \<Rightarrow> 'c Service \<Rightarrow> (string \<rightharpoonup> Credential) \<Rightarrow> bool" where
  "all_issued K s m \<longleftrightarrow> (\<forall>k cred. m k = Some cred \<longrightarrow> issued_for K s k cred)"

context exchange_service begin

lemma cache_ok_get: "all_issued K s (entries c) \<Longrightarrow> get c t k = (r, c') \<Longrightarrow> all_issued K s (entries c')"
  using get_le[of c t k r c'] by (auto simp: all_issued_def map_le_def dom_def)

lemma cache_ok_put: "all_issued K s (entries c) \<Longrightarrow> issued_for K s k cred \<Longrightarrow> all_issued K s (entries (put c k cred))"
  by (auto simp: all_issued_def put_entries)

lemma hit_issued:
  assumes "all_issued K s (entries c)" "get c t k = (Some cred, c')"
  shows "issued_for K s k cred \<and> ns t \<le> ns (Cred_Expiry cred)"
  using get_hit[OF assms(2)] assms(1) by (auto simp: all_issued_def live_def Before_def)

lemma thread_step_ok:
  assumes c: "all_issued K s (entries c)" and t: "thread_ok K s t" and st: "thread_step K s c t = (c', t')"
  shows "all_issued K s (entries c') \<and> thread_ok K s t'"
proof (cases "th_phase t")
  case Start
  with c t st show ?thesis by (auto simp: thread_step_def thread_ok_def Let_def split: sum.splits)
next
  case (Validated i)
  let ?k = "CacheKey (Subject i) (Target (th_req t)) (Output (th_req t))"
  obtain h c1 where g: "get c (now_get (th_world t)) ?k = (h, c1)" by fastforce
  from Validated t have v: "wf_spn (Target (th_req t))" "sv_Validator s (th_world t) (AccessToken (th_req t)) = Inr i"
    by (simp_all add: thread_ok_def)
  show ?thesis
  proof (cases h)
    case None
    with Validated g st v cache_ok_get[OF c g] show ?thesis
      by (auto simp: thread_step_def thread_ok_def svc_cache Let_def)
  next
    case (Some cred)
    with hit_issued[OF c] Validated g st v cache_ok_get[OF c g] show ?thesis
      by (auto simp: thread_step_def thread_ok_def svc_cache Let_def)
  qed
next
  case (Missed i)
  with c t st show ?thesis by (auto simp: thread_step_def thread_ok_def Let_def split: sum.splits)
next
  case (Minted i cred)
  let ?k = "CacheKey (Subject i) (Target (th_req t)) (Output (th_req t))"
  from Minted t have v: "wf_spn (Target (th_req t))" "sv_Validator s (th_world t) (AccessToken (th_req t)) = Inr i"
    "exchange_issue K s (th_world t) i (th_req t) = Inr cred" by (simp_all add: thread_ok_def)
  then have "issued_for K s ?k cred" by (auto simp: issued_for_def)
  with cache_ok_put[OF c] Minted st v issue_Inr(3)[OF v(3)] show ?thesis
    by (auto simp: thread_step_def thread_ok_def svc_cache Let_def)
next
  case (Finished r)
  with c t st show ?thesis by (simp add: thread_step_def)
qed

lemma sys_step_ok:
  assumes "sys_step K s (c, ts) (c', ts')" "all_issued K s (entries c)" "\<forall>t \<in> set ts. thread_ok K s t"
  shows "all_issued K s (entries c') \<and> (\<forall>t \<in> set ts'. thread_ok K s t)"
  using assms(1)
proof cases
  case (move j t')
  have "thread_ok K s (ts ! j)" using assms(3) move by simp
  from thread_step_ok[OF assms(2) this move(4)] assms(3) move show ?thesis
    by (auto dest: subsetD[OF set_update_subset_insert])
qed

lemma interleaving_ok:
  assumes "(sys_step K s)\<^sup>*\<^sup>* (new, map start_thread rs) (c, ts)" "\<forall>(w, req) \<in> set rs. wf_spn (Target req)"
  shows "all_issued K s (entries c) \<and> (\<forall>t \<in> set ts. thread_ok K s t)"
  using assms(1)
proof (induction "(c, ts)" arbitrary: c ts rule: rtranclp_induct)
  case base
  then show ?case using assms(2) by (auto simp: all_issued_def entries_new thread_ok_def start_thread_def)
next
  case (step \<sigma>)
  then show ?case using sys_step_ok by (cases \<sigma>) blast
qed

text \<open>What a finished thread returns, by whatever run it got there.\<close>

lemma interleaved_result:
  assumes "(sys_step K s)\<^sup>*\<^sup>* (new, map start_thread rs) (c, ts)" "\<forall>(w, req) \<in> set rs. wf_spn (Target req)"
    and "t \<in> set ts" "th_phase t = Finished (Inr cred)"
  shows "\<exists>i. sv_Validator s (th_world t) (AccessToken (th_req t)) = Inr i \<and> carries K s (Output (th_req t)) cred
     \<and> (separable (Subject i) (Target (th_req t))
        \<longrightarrow> fits K s default_realm (Subject i) (Target (th_req t)) (Output (th_req t)) cred)
     \<and> (ns (now_get (th_world t)) \<le> ns (Cred_Expiry cred) \<or> ns (now_issue (th_world t)) < ns (Cred_Expiry cred))"
proof -
  from interleaving_ok[OF assms(1,2)] assms(3) have "thread_ok K s t" by blast
  with assms(4) obtain i where
    "sv_Validator s (th_world t) (AccessToken (th_req t)) = Inr i" and wf: "wf_spn (Target (th_req t))"
    and i: "issued_for K s (CacheKey (Subject i) (Target (th_req t)) (Output (th_req t))) cred"
    and "ns (now_get (th_world t)) \<le> ns (Cred_Expiry cred) \<or> ns (now_issue (th_world t)) < ns (Cred_Expiry cred)"
    by (auto simp: thread_ok_def)
  with issued_for_fits[OF i wf] show ?thesis by blast
qed

end

section \<open>Typing\<close>

text \<open>
  A credential of an output type carries the bytes of that representation of a minted ticket, and no
  others, and ends at a UTC time; every entry of a cache has the output type in its key, and every
  result the one of its request.
\<close>

definition typed_cred :: "krb5 \<Rightarrow> 'c Service \<Rightarrow> OutputType \<Rightarrow> Credential \<Rightarrow> bool" where
  "typed_cred K s out cred = (carries K s out cred \<and> zone (Cred_Expiry cred) = UTC)"

definition typed_cache :: "krb5 \<Rightarrow> 'c Service \<Rightarrow> (string \<rightharpoonup> Credential) \<Rightarrow> bool" where
  "typed_cache K s m \<longleftrightarrow> (\<forall>k cred. m k = Some cred \<longrightarrow> (\<exists>subject p out. k = CacheKey subject p out \<and> typed_cred K s out cred))"

definition typed_thread :: "krb5 \<Rightarrow> 'c Service \<Rightarrow> thread \<Rightarrow> bool" where
  "typed_thread K s t =
     (case th_phase t of
        Minted i cred \<Rightarrow> typed_cred K s (Output (th_req t)) cred
      | Finished (Inr cred) \<Rightarrow> typed_cred K s (Output (th_req t)) cred
      | _ \<Rightarrow> True)"

lemma typed_cache_lookup: "typed_cache K s m \<Longrightarrow> m (CacheKey subject p out) = Some cred \<Longrightarrow> typed_cred K s out cred"
  unfolding typed_cache_def by (metis CacheKey_output)

lemma typed_cache_le: "typed_cache K s m \<Longrightarrow> m' \<subseteq>\<^sub>m m \<Longrightarrow> typed_cache K s m'"
  by (fastforce simp: typed_cache_def map_le_def dom_def)

lemma typed_cache_upd: "typed_cache K s m \<Longrightarrow> typed_cred K s out cred \<Longrightarrow> typed_cache K s (m(CacheKey subject p out \<mapsto> cred))"
  by (auto simp: typed_cache_def)

context exchange_service begin

lemma typed_issue: "exchange_issue K s w i req = Inr cred \<Longrightarrow> typed_cred K s (Output req) cred"
  using issue_Inr(1,2)[of w i req cred] by (simp add: typed_cred_def fits_def toUTC_def)

lemma typed_step:
  assumes "typed_cache K s (entries c)" "typed_thread K s t" "thread_step K s c t = (c', t')"
  shows "typed_cache K s (entries c') \<and> typed_thread K s t'"
proof (cases "th_phase t")
  case (Validated i)
  let ?k = "CacheKey (Subject i) (Target (th_req t)) (Output (th_req t))"
  obtain h c1 where g: "get c (now_get (th_world t)) ?k = (h, c1)" by fastforce
  have "typed_cache K s (entries c1)" using typed_cache_le[OF assms(1) get_le[OF g]] .
  moreover have "h = Some cred \<Longrightarrow> typed_cred K s (Output (th_req t)) cred" for cred
    using g get_hit[of c "now_get (th_world t)" ?k cred c1] typed_cache_lookup[OF assms(1)] by blast
  ultimately show ?thesis using Validated g assms(3)
    by (cases h) (auto simp: thread_step_def typed_thread_def svc_cache Let_def)
next
  case (Minted i cred)
  with assms show ?thesis
    by (auto simp: thread_step_def typed_thread_def svc_cache put_entries typed_cache_upd Let_def)
qed (use assms in \<open>auto simp: thread_step_def typed_thread_def Let_def dest: typed_issue split: sum.splits\<close>)

lemma typed_run:
  assumes "(sys_step K s)\<^sup>*\<^sup>* (new, map start_thread rs) (c, ts)"
  shows "typed_cache K s (entries c) \<and> list_all (typed_thread K s) ts"
  using assms
proof (induction "(c, ts)" arbitrary: c ts rule: rtranclp_induct)
  case base
  then show ?case by (auto simp: typed_cache_def entries_new list_all_iff typed_thread_def start_thread_def)
next
  case (step \<sigma>)
  obtain c0 ts0 where \<sigma>: "\<sigma> = (c0, ts0)" by fastforce
  from step(2)[unfolded \<sigma>] show ?case
  proof cases
    case (move j t')
    with step(3)[OF \<sigma>] have "typed_cache K s (entries c0)" "typed_thread K s (ts0 ! j)" by (auto simp: list_all_length)
    from typed_step[OF this move(4)] move step(3)[OF \<sigma>] show ?thesis
      by (auto simp: list_all_iff dest: subsetD[OF set_update_subset_insert])
  qed
qed

end

text \<open>Threads keep their request.\<close>

lemma run_frame:
  "(sys_step K s)\<^sup>*\<^sup>* (c0, map start_thread rs) (c, ts) \<Longrightarrow> map (\<lambda>t. (th_world t, th_req t)) ts = rs"
proof (induction "(c, ts)" arbitrary: c ts rule: rtranclp_induct)
  case base
  then show ?case by (simp add: start_thread_def case_prod_beta comp_def)
next
  case (step \<sigma>)
  obtain c1 ts1 where \<sigma>: "\<sigma> = (c1, ts1)" by fastforce
  from step(2)[unfolded \<sigma>] show ?case
  proof cases
    case (move j t')
    with step(3)[OF \<sigma>] show ?thesis
      by (auto simp: map_update dest!: thread_step_frame intro!: list_update_same_conv[THEN iffD2])
  qed
qed

section \<open>A run of two threads\<close>

lemma sys_step_first: "thread_step K s c t = (c', t') \<Longrightarrow> \<not> finished t \<Longrightarrow> (sys_step K s)\<^sup>*\<^sup>* (c, [t, u]) (c', [t', u])"
  using sys_step.move[of 0 "[t, u]" K s c c' t'] by auto

lemma sys_step_second: "thread_step K s c u = (c', u') \<Longrightarrow> \<not> finished u \<Longrightarrow> (sys_step K s)\<^sup>*\<^sup>* (c, [t, u]) (c', [t, u'])"
  using sys_step.move[of 1 "[t, u]" K s c c' u'] by auto

text \<open>Two requests for the same service, both of which miss before either has stored a credential.\<close>

definition sample_thread :: "phase \<Rightarrow> thread" where
  "sample_thread ph = \<lparr>th_world = sample_world, th_req = sample_request ''wide'', th_phase = ph\<rparr>"

lemma sample_pair_run:
  "\<exists>i cred c. (sys_step sample_krb5 sample_service)\<^sup>*\<^sup>*
       (NewMemoryCache, map start_thread [(sample_world, sample_request ''wide''), (sample_world, sample_request ''wide'')])
       (NewMemoryCache, [sample_thread (Missed i), sample_thread (Missed i)])
     \<and> (sys_step sample_krb5 sample_service)\<^sup>*\<^sup>*
       (NewMemoryCache, [sample_thread (Missed i), sample_thread (Missed i)])
       (c, [sample_thread (Finished (Inr cred)), sample_thread (Finished (Inr cred))])
     \<and> store c (CacheKey (Subject i) sample_target OutputCCache) = Some cred
     \<and> i = sample_identity \<lparr>ns = 1000, zone = UTC\<rparr>"
proof -
  let ?S = "sys_step sample_krb5 sample_service" and ?st = "thread_step sample_krb5 sample_service" and ?T = sample_thread
  let ?i = "sample_identity \<lparr>ns = 1000, zone = UTC\<rparr>" and ?k = "CacheKey (Subject (sample_identity \<lparr>ns = 1000, zone = UTC\<rparr>)) sample_target OutputCCache"
  obtain cred where iss: "exchange_issue sample_krb5 sample_service sample_world ?i (sample_request ''wide'') = Inr cred"
    using sample_issue by blast
  have ops: "sv_Cache sample_service = Some memory_ops" by (simp add: sample_service_def direct_service_def)
  have fin: "\<not> finished (?T Start)" "\<not> finished (?T (Validated ?i))" "\<not> finished (?T (Missed ?i))" "\<not> finished (?T (Minted ?i cred))"
    by (simp_all add: finished_def sample_thread_def)
  have req: "Target (sample_request ''wide'') = sample_target" "Output (sample_request ''wide'') = OutputCCache"
    "AccessToken (sample_request ''wide'') = ''wide''" by (simp_all add: sample_request_def)
  have s1: "?st c (?T Start) = (c, ?T (Validated ?i))" for c
    by (simp add: thread_step_def sample_thread_def sample_validated sample_validate_def req)
  have s2: "?st NewMemoryCache (?T (Validated ?i)) = (NewMemoryCache, ?T (Missed ?i))"
    by (simp add: thread_step_def sample_thread_def ops memory_ops_def MemoryCache_Get_def NewMemoryCache_def)
  have s3: "?st c (?T (Missed ?i)) = (c, ?T (Minted ?i cred))" for c
    by (simp add: thread_step_def sample_thread_def iss)
  have s4: "?st c (?T (Minted ?i cred)) = (MemoryCache_Put c ?k cred, ?T (Finished (Inr cred)))" for c
    by (simp add: thread_step_def sample_thread_def ops memory_ops_def req)
  note f = sys_step_first and g = sys_step_second
  have start: "map start_thread [(sample_world, sample_request ''wide''), (sample_world, sample_request ''wide'')] = [?T Start, ?T Start]"
    by (simp add: start_thread_def sample_thread_def)
  have "?S\<^sup>*\<^sup>* (NewMemoryCache, [?T Start, ?T Start]) (NewMemoryCache, [?T (Missed ?i), ?T (Missed ?i)])"
    by (rule rtranclp_trans[OF f[OF s1 fin(1)] rtranclp_trans[OF g[OF s1 fin(1)] rtranclp_trans[OF f[OF s2 fin(2)] g[OF s2 fin(2)]]]])
  moreover have "?S\<^sup>*\<^sup>* (NewMemoryCache, [?T (Missed ?i), ?T (Missed ?i)])
      (MemoryCache_Put (MemoryCache_Put NewMemoryCache ?k cred) ?k cred, [?T (Finished (Inr cred)), ?T (Finished (Inr cred))])"
    by (rule rtranclp_trans[OF f[OF s3 fin(3)] rtranclp_trans[OF g[OF s3 fin(3)] rtranclp_trans[OF f[OF s4 fin(4)] g[OF s4 fin(4)]]]])
  moreover have "store (MemoryCache_Put (MemoryCache_Put NewMemoryCache ?k cred) ?k cred) ?k = Some cred" by (simp add: MemoryCache_Put_def)
  ultimately show ?thesis unfolding start by blast
qed

section \<open>Properties\<close>

text \<open>
  C10.  Concurrent exchanges do not mix up credentials.  Any number of exchanges, for targets as
  \<open>ParseServicePrincipal\<close> returns them, run on one new cache.  However their steps interleave, a credential
  one of them returns answers a token the validator accepted, carries the bytes of a minted ticket in the
  representation of its own request, and had not expired when it was looked up or issued; and if the
  subject of its own token and its own target contain no NUL byte (the separator of cache keys), the
  credential is for this subject and this target, whatever the other requests contain.
\<close>

theorem Interleaved_exchanges_fit:
  assumes "(sys_step K (direct_service K validate realm m d))\<^sup>*\<^sup>* (NewMemoryCache, map start_thread rs) (c, ts)"
    and "\<forall>(w, req) \<in> set rs. wf_spn (Target req)"
    and "t \<in> set ts" "th_phase t = Finished (Inr cred)"
  shows "\<exists>i. validate (th_world t) (AccessToken (th_req t)) = Inr i
     \<and> carries K (direct_service K validate realm m d) (Output (th_req t)) cred
     \<and> (separable (Subject i) (Target (th_req t))
        \<longrightarrow> fits K (direct_service K validate realm m d) realm (Subject i) (Target (th_req t)) (Output (th_req t)) cred)
     \<and> (ns (now_get (th_world t)) \<le> ns (Cred_Expiry cred) \<or> ns (now_issue (th_world t)) < ns (Cred_Expiry cred))"
  using ds.interleaved_result[OF assms] by (simp add: direct_service_def)

theorem Interleaved_exchanges_fit_witness:
  "\<exists>i cred c. (sys_step sample_krb5 sample_service)\<^sup>*\<^sup>*
       (NewMemoryCache, map start_thread [(sample_world, sample_request ''wide''), (sample_world, sample_request ''wide'')])
       (NewMemoryCache, [sample_thread (Missed i), sample_thread (Missed i)])
     \<and> (sys_step sample_krb5 sample_service)\<^sup>*\<^sup>*
       (NewMemoryCache, [sample_thread (Missed i), sample_thread (Missed i)])
       (c, [sample_thread (Finished (Inr cred)), sample_thread (Finished (Inr cred))])
     \<and> sample_validate sample_world ''wide'' = Inr i
     \<and> fits sample_krb5 sample_service ''EXAMPLE.COM'' (Subject i) sample_target OutputCCache cred"
proof -
  let ?rs = "[(sample_world, sample_request ''wide''), (sample_world, sample_request ''wide'')]"
  obtain i cred c where r1: "(sys_step sample_krb5 sample_service)\<^sup>*\<^sup>* (NewMemoryCache, map start_thread ?rs)
       (NewMemoryCache, [sample_thread (Missed i), sample_thread (Missed i)])"
    and r2: "(sys_step sample_krb5 sample_service)\<^sup>*\<^sup>* (NewMemoryCache, [sample_thread (Missed i), sample_thread (Missed i)])
       (c, [sample_thread (Finished (Inr cred)), sample_thread (Finished (Inr cred))])"
    and i: "i = sample_identity \<lparr>ns = 1000, zone = UTC\<rparr>"
    using sample_pair_run by blast
  have wf: "\<forall>(w, req) \<in> set ?rs. wf_spn (Target req)" using sample_wf by simp
  have v: "sample_validate sample_world ''wide'' = Inr i" by (simp add: i sample_validate_def)
  have "separable (Subject i) sample_target" by (simp add: i separable_def sample_identity_def sample_target_def SPN_String_def)
  with Interleaved_exchanges_fit[OF rtranclp_trans[OF r1 r2, unfolded sample_service_def] wf,
      of "sample_thread (Finished (Inr cred))" cred] v
  have "fits sample_krb5 sample_service ''EXAMPLE.COM'' (Subject i) sample_target OutputCCache cred"
    by (simp add: sample_thread_def sample_request_def sample_service_def)
  with r1 r2 v show ?thesis by blast
qed

text \<open>
  C13.  Types are kept, whoever asks: in every state any interleaving of exchanges can reach, each
  cached credential carries exactly the representation named in its key, and each credential
  returned or about to be stored exactly the one of its request: the ccache bytes, or the AP-REQ
  token, of a ticket that the minter minted for the credential's subject, target and expiry, and
  nothing in the other representation.  Expiries are UTC.  This needs no assumption on subjects or
  requests.
\<close>

theorem Interleaved_states_typed:
  assumes "(sys_step K (direct_service K validate realm m d))\<^sup>*\<^sup>* (NewMemoryCache, map start_thread rs) (c, ts)"
  shows "typed_cache K (direct_service K validate realm m d) (store c)
     \<and> list_all (typed_thread K (direct_service K validate realm m d)) ts"
  using ds.typed_run[OF assms] .

theorem Interleaved_states_typed_witness:
  "\<exists>(i :: Identity) cred c. (sys_step sample_krb5 sample_service)\<^sup>*\<^sup>*
       (NewMemoryCache, map start_thread [(sample_world, sample_request ''wide''), (sample_world, sample_request ''wide'')])
       (c, [sample_thread (Finished (Inr cred)), sample_thread (Finished (Inr cred))])
     \<and> store c (CacheKey (Subject i) sample_target OutputCCache) = Some cred
     \<and> typed_cache sample_krb5 sample_service (store c)
     \<and> typed_thread sample_krb5 sample_service (sample_thread (Finished (Inr cred)))"
proof -
  let ?rs = "[(sample_world, sample_request ''wide''), (sample_world, sample_request ''wide'')]"
  obtain i cred c where r1: "(sys_step sample_krb5 sample_service)\<^sup>*\<^sup>* (NewMemoryCache, map start_thread ?rs)
       (NewMemoryCache, [sample_thread (Missed i), sample_thread (Missed i)])"
    and r2: "(sys_step sample_krb5 sample_service)\<^sup>*\<^sup>* (NewMemoryCache, [sample_thread (Missed i), sample_thread (Missed i)])
       (c, [sample_thread (Finished (Inr cred)), sample_thread (Finished (Inr cred))])"
    and k: "store c (CacheKey (Subject i) sample_target OutputCCache) = Some cred"
    using sample_pair_run by blast
  note r = rtranclp_trans[OF r1 r2]
  from Interleaved_states_typed[OF r[unfolded sample_service_def], folded sample_service_def] r k show ?thesis
    by (intro exI[of _ i] exI[of _ cred] exI[of _ c]) simp
qed

end
