(* ===== verification/Locking.thy ===== *)
theory Locking
  imports Interleave
begin

text \<open>
  The mutex of the cache.  \<open>Interleave\<close> treats \<open>Get\<close> and \<open>Put\<close> as atomic; here they are the
  statements of \<open>src/cache.go\<close>, each a step of its own: \<open>m.mu.Lock()\<close>, the accesses to the map, and
  the deferred \<open>m.mu.Unlock()\<close>.  A goroutine that finds the mutex locked has no step, so it can wait
  forever, and goroutines that held no lock could see each other's half-done work.  Shown is that
  neither happens: at most one goroutine is between \<open>Lock\<close> and \<open>Unlock\<close>, every run of the
  statements is a run of the atomic operations, and every run goes on until all exchanges have
  returned.
\<close>

section \<open>Statements\<close>

text \<open>
  \<open>sync.Mutex\<close>: locked or not.  \<open>Lock\<close> blocks while it is locked; \<open>Unlock\<close> of an unlocked mutex is a
  fatal error.  Both are \<open>None\<close>: the goroutine does not go on.
\<close>

definition mutex_Lock :: "bool \<Rightarrow> bool option" where
  "mutex_Lock locked = (if locked then None else Some True)"

definition mutex_Unlock :: "bool \<Rightarrow> bool option" where
  "mutex_Unlock locked = (if locked then Some False else None)"

text \<open>The fields of the cache, with its mutex.\<close>

record locked_cache =
  mu :: bool
  guarded :: MemoryCache

text \<open>Where a call of \<open>Get\<close> is: before a statement, or about to unlock and return its result.\<close>

datatype get_pc = GetLock | GetRead | GetCheck Credential | GetDelete | GetUnlock "Credential option"

definition Get_step ::
    "gotime \<Rightarrow> string \<Rightarrow> locked_cache \<Rightarrow> get_pc \<Rightarrow> (locked_cache \<times> (get_pc + Credential option)) option" where
  "Get_step now key m pc =
     (case pc of
        GetLock \<Rightarrow> map_option (\<lambda>b. (m\<lparr>mu := b\<rparr>, Inl GetRead)) (mutex_Lock (mu m))
      | GetRead \<Rightarrow>
          (case store (guarded m) key of
             None \<Rightarrow> Some (m, Inl (GetUnlock None))
           | Some cred \<Rightarrow> Some (m, Inl (GetCheck cred)))
      | GetCheck cred \<Rightarrow>
          if Before (Cred_Expiry cred) now then Some (m, Inl GetDelete)
          else Some (m, Inl (GetUnlock (Some cred)))
      | GetDelete \<Rightarrow> Some (m\<lparr>guarded := (guarded m)\<lparr>store := (store (guarded m))(key := None)\<rparr>\<rparr>, Inl (GetUnlock None))
      | GetUnlock r \<Rightarrow> map_option (\<lambda>b. (m\<lparr>mu := b\<rparr>, Inr r)) (mutex_Unlock (mu m)))"

datatype put_pc = PutLock | PutWrite | PutUnlock

definition Put_step ::
    "string \<Rightarrow> Credential \<Rightarrow> locked_cache \<Rightarrow> put_pc \<Rightarrow> (locked_cache \<times> (put_pc + unit)) option" where
  "Put_step key cred m pc =
     (case pc of
        PutLock \<Rightarrow> map_option (\<lambda>b. (m\<lparr>mu := b\<rparr>, Inl PutWrite)) (mutex_Lock (mu m))
      | PutWrite \<Rightarrow> Some (m\<lparr>guarded := (guarded m)\<lparr>store := (store (guarded m))(key \<mapsto> cred)\<rparr>\<rparr>, Inl PutUnlock)
      | PutUnlock \<Rightarrow> map_option (\<lambda>b. (m\<lparr>mu := b\<rparr>, Inr ())) (mutex_Unlock (mu m)))"

text \<open>A goroutine in \<open>Exchange\<close>, inside or outside one of the two calls.\<close>

datatype gphase =
    Begin
  | Getting Identity get_pc
  | Issuing Identity
  | Putting Identity Credential put_pc
  | Returned "Credential result"

record goroutine =
  g_world :: world
  g_req :: ExchangeRequest
  g_phase :: gphase

definition go_step :: "krb5 \<Rightarrow> 'c Service \<Rightarrow> locked_cache \<Rightarrow> goroutine \<Rightarrow> (locked_cache \<times> goroutine) option" where
  "go_step K s m g =
     (let w = g_world g; req = g_req g;
          key = (\<lambda>i. CacheKey (Subject i) (Target req) (Output req));
          become = (\<lambda>p. g\<lparr>g_phase := p\<rparr>)
      in case g_phase g of
           Begin \<Rightarrow>
             (case sv_Validator s w (AccessToken req) of
                Inl e \<Rightarrow> Some (m, become (Returned (Inl e)))
              | Inr i \<Rightarrow> Some (m, become (if sv_Cache s = None then Issuing i else Getting i GetLock)))
         | Getting i pc \<Rightarrow>
             (case Get_step (now_get w) (key i) m pc of
                None \<Rightarrow> None
              | Some (m', Inl pc') \<Rightarrow> Some (m', become (Getting i pc'))
              | Some (m', Inr None) \<Rightarrow> Some (m', become (Issuing i))
              | Some (m', Inr (Some cred)) \<Rightarrow> Some (m', become (Returned (Inr cred))))
         | Issuing i \<Rightarrow>
             (case exchange_issue K s w i req of
                Inl e \<Rightarrow> Some (m, become (Returned (Inl e)))
              | Inr cred \<Rightarrow> Some (m, become (if sv_Cache s = None then Returned (Inr cred) else Putting i cred PutLock)))
         | Putting i cred pc \<Rightarrow>
             (case Put_step (key i) cred m pc of
                None \<Rightarrow> None
              | Some (m', Inl pc') \<Rightarrow> Some (m', become (Putting i cred pc'))
              | Some (m', Inr _) \<Rightarrow> Some (m', become (Returned (Inr cred))))
         | Returned r \<Rightarrow> None)"

definition start_goroutine :: "world \<times> ExchangeRequest \<Rightarrow> goroutine" where
  "start_goroutine = (\<lambda>(w, req). \<lparr>g_world = w, g_req = req, g_phase = Begin\<rparr>)"

definition returned :: "goroutine \<Rightarrow> bool" where
  "returned g = (case g_phase g of Returned r \<Rightarrow> True | _ \<Rightarrow> False)"

definition unlocked :: "MemoryCache \<Rightarrow> locked_cache" where
  "unlocked c = \<lparr>mu = False, guarded = c\<rparr>"

inductive go_sys :: "krb5 \<Rightarrow> 'c Service \<Rightarrow> locked_cache \<times> goroutine list \<Rightarrow> locked_cache \<times> goroutine list \<Rightarrow> bool" for K s where
  run: "j < length gs \<Longrightarrow> go_step K s m (gs ! j) = Some (m', g') \<Longrightarrow> go_sys K s (m, gs) (m', gs[j := g'])"

inductive_cases go_sysE: "go_sys K s (m, gs) \<sigma>'"

section \<open>Refinement with stuttering\<close>

text \<open>
  A detailed system whose steps, on states with an invariant, are steps of an abstract system or
  invisible in it.
\<close>

locale stuttering_refinement =
  fixes step :: "'s \<Rightarrow> 's \<Rightarrow> bool" and spec_step :: "'a \<Rightarrow> 'a \<Rightarrow> bool" and abs :: "'s \<Rightarrow> 'a" and inv :: "'s \<Rightarrow> bool"
  assumes step_inv: "inv \<sigma> \<Longrightarrow> step \<sigma> \<sigma>' \<Longrightarrow> inv \<sigma>'"
    and step_sim: "inv \<sigma> \<Longrightarrow> step \<sigma> \<sigma>' \<Longrightarrow> abs \<sigma>' = abs \<sigma> \<or> spec_step (abs \<sigma>) (abs \<sigma>')"
begin

lemma run_refines: "step\<^sup>*\<^sup>* \<sigma> \<sigma>' \<Longrightarrow> inv \<sigma> \<Longrightarrow> inv \<sigma>' \<and> spec_step\<^sup>*\<^sup>* (abs \<sigma>) (abs \<sigma>')"
proof (induction rule: rtranclp_induct)
  case (step \<sigma>1 \<sigma>2)
  then have i: "inv \<sigma>1" and r: "spec_step\<^sup>*\<^sup>* (abs \<sigma>) (abs \<sigma>1)" by simp_all
  from step_sim[OF i step(2)] step_inv[OF i step(2)] r show ?case by (auto intro: rtranclp.rtrancl_into_rtrancl)
qed simp

end

section \<open>The invariant\<close>

text \<open>Between \<open>Lock\<close> and \<open>Unlock\<close>.\<close>

fun inside :: "gphase \<Rightarrow> bool" where
  "inside (Getting i pc) = (pc \<noteq> GetLock)"
| "inside (Putting i cred pc) = (pc \<noteq> PutLock)"
| "inside p = False"

text \<open>What a goroutine in \<open>Get\<close> knows of the map: it has not changed since it was read.\<close>

definition knows :: "MemoryCache \<Rightarrow> goroutine \<Rightarrow> bool" where
  "knows c g =
     (case g_phase g of
        Getting i (GetCheck cred) \<Rightarrow> store c (CacheKey (Subject i) (Target (g_req g)) (Output (g_req g))) = Some cred
      | Getting i GetDelete \<Rightarrow>
          (\<exists>cred. store c (CacheKey (Subject i) (Target (g_req g)) (Output (g_req g))) = Some cred
             \<and> Before (Cred_Expiry cred) (now_get (g_world g)))
      | _ \<Rightarrow> True)"

definition holders :: "goroutine list \<Rightarrow> nat set" where
  "holders gs = {j. j < length gs \<and> inside (g_phase (gs ! j))}"

definition lock_inv :: "locked_cache \<times> goroutine list \<Rightarrow> bool" where
  "lock_inv = (\<lambda>(m, gs). (if mu m then \<exists>j. holders gs = {j} else holders gs = {}) \<and> (\<forall>g \<in> set gs. knows (guarded m) g))"

text \<open>The atomic step a goroutine has come to: \<open>Get\<close> takes effect at its last access to the map.\<close>

fun abs_phase :: "gphase \<Rightarrow> phase" where
  "abs_phase Begin = Start"
| "abs_phase (Getting i pc) =
     (case pc of GetUnlock None \<Rightarrow> Missed i | GetUnlock (Some cred) \<Rightarrow> Finished (Inr cred) | _ \<Rightarrow> Validated i)"
| "abs_phase (Issuing i) = Missed i"
| "abs_phase (Putting i cred pc) = (if pc = PutUnlock then Finished (Inr cred) else Minted i cred)"
| "abs_phase (Returned r) = Finished r"

definition abs_thread :: "goroutine \<Rightarrow> thread" where
  "abs_thread g = \<lparr>th_world = g_world g, th_req = g_req g, th_phase = abs_phase (g_phase g)\<rparr>"

definition abs_state :: "locked_cache \<times> goroutine list \<Rightarrow> MemoryCache \<times> thread list" where
  "abs_state = (\<lambda>(m, gs). (guarded m, map abs_thread gs))"

text \<open>
  What one statement does: it takes the mutex, releases it, or leaves it alone; it changes the map
  only inside; and it is the atomic step or no step.
\<close>

lemma go_step_mutex:
  assumes "go_step K s m g = Some (m', g')"
  shows "if inside (g_phase g)
      then (mu m' \<longleftrightarrow> mu m \<and> inside (g_phase g')) \<and> (inside (g_phase g') \<or> guarded m' = guarded m)
        \<and> (\<not> inside (g_phase g') \<longrightarrow> mu m)
      else guarded m' = guarded m \<and> (if inside (g_phase g') then \<not> mu m \<and> mu m' else mu m' = mu m)"
  using assms
  by (cases "g_phase g")
    (auto simp: go_step_def Let_def Get_step_def Put_step_def mutex_Lock_def mutex_Unlock_def
      split: sum.splits get_pc.splits put_pc.splits option.splits if_splits)

lemma go_step_knows:
  assumes "go_step K s m g = Some (m', g')" "sv_Cache s = Some memory_ops" "knows (guarded m) g"
  shows "knows (guarded m') g'"
  using assms
  by (cases "g_phase g")
    (auto simp: go_step_def Let_def Get_step_def Put_step_def knows_def
      split: sum.splits get_pc.splits put_pc.splits option.splits if_splits)

lemma go_step_sim:
  assumes "go_step K s m g = Some (m', g')" "sv_Cache s = Some memory_ops" "knows (guarded m) g"
  shows "(guarded m', abs_thread g') = (guarded m, abs_thread g)
    \<or> \<not> finished (abs_thread g) \<and> thread_step K s (guarded m) (abs_thread g) = (guarded m', abs_thread g')"
  using assms
  by (cases "g_phase g")
    (auto simp: go_step_def Let_def Get_step_def Put_step_def knows_def abs_thread_def thread_step_def finished_def
       memory_ops_def MemoryCache_Get_def MemoryCache_Put_def
      split: sum.splits get_pc.splits put_pc.splits option.splits if_splits)


lemma knows_outside: "\<not> inside (g_phase g) \<Longrightarrow> knows c g"
  by (cases "g_phase g") (auto simp: knows_def split: get_pc.splits)

lemma holders_update:
  "j < length gs \<Longrightarrow> holders (gs[j := g']) = (if inside (g_phase g') then insert j (holders gs) else holders gs - {j})"
  by (auto simp: holders_def nth_list_update split: if_splits)

lemma go_sys_inv:
  assumes "lock_inv (m, gs)" "go_sys K s (m, gs) (m', gs')" "sv_Cache s = Some memory_ops"
  shows "lock_inv (m', gs')"
  using assms(2)
proof cases
  case (run j g')
  let ?g = "gs ! j"
  have hold: "if mu m then \<exists>j. holders gs = {j} else holders gs = {}" and kn: "\<And>g. g \<in> set gs \<Longrightarrow> knows (guarded m) g"
    using assms(1) by (auto simp: lock_inv_def)
  have j: "j \<in> holders gs \<longleftrightarrow> inside (g_phase ?g)" using run by (simp add: holders_def)
  note mx = go_step_mutex[OF run(3)] and hu = holders_update[OF run(2), of g']
  have "if mu m' then \<exists>j. holders gs' = {j} else holders gs' = {}"
    using hold mx j unfolding run(1) hu by (auto split: if_splits)
  moreover have "knows (guarded m') (gs' ! k)" if k: "k < length gs'" for k
  proof (cases "k = j")
    case True
    with go_step_knows[OF run(3) assms(3)] kn run show ?thesis by simp
  next
    case False
    show ?thesis
    proof (cases "guarded m' = guarded m")
      case True
      with False k kn run show ?thesis by simp
    next
      case changed: False
      with mx j have "j \<in> holders gs" by (auto split: if_splits)
      with hold have "holders gs = {j}" by (auto split: if_splits)
      with False k run have "\<not> inside (g_phase (gs' ! k))" by (auto simp: holders_def)
      then show ?thesis by (rule knows_outside)
    qed
  qed
  ultimately show ?thesis by (auto simp: lock_inv_def in_set_conv_nth)
qed

lemma go_sys_sim:
  assumes "lock_inv (m, gs)" "go_sys K s (m, gs) (m', gs')" "sv_Cache s = Some memory_ops"
  shows "abs_state (m', gs') = abs_state (m, gs) \<or> sys_step K s (abs_state (m, gs)) (abs_state (m', gs'))"
  using assms(2)
proof cases
  case (run j g')
  then have "knows (guarded m) (gs ! j)" using assms(1) by (auto simp: lock_inv_def)
  from go_step_sim[OF run(3) assms(3) this] show ?thesis
  proof
    assume "(guarded m', abs_thread g') = (guarded m, abs_thread (gs ! j))"
    then have "abs_state (m', gs') = abs_state (m, gs)"
      using run by (simp add: abs_state_def map_update list_update_same_conv)
    then show ?thesis ..
  next
    assume "\<not> finished (abs_thread (gs ! j)) \<and> thread_step K s (guarded m) (abs_thread (gs ! j)) = (guarded m', abs_thread g')"
    with sys_step.move[of j "map abs_thread gs" K s "guarded m" "guarded m'" "abs_thread g'"] run
    show ?thesis by (simp add: abs_state_def map_update)
  qed
qed

interpretation lk: stuttering_refinement "go_sys K (direct_service K validate realm m d)"
    "sys_step K (direct_service K validate realm m d)" abs_state lock_inv
proof unfold_locales
  let ?s = "direct_service K validate realm m d"
  have ops: "sv_Cache ?s = Some memory_ops" by (simp add: direct_service_def)
  fix \<sigma> \<sigma>'
  assume a: "lock_inv \<sigma>" "go_sys K ?s \<sigma> \<sigma>'"
  obtain m1 gs1 m2 gs2 where e: "\<sigma> = (m1, gs1)" "\<sigma>' = (m2, gs2)" by fastforce
  from go_sys_inv[OF a[unfolded e] ops] go_sys_sim[OF a[unfolded e] ops]
  show "lock_inv \<sigma>'" "abs_state \<sigma>' = abs_state \<sigma> \<or> sys_step K ?s (abs_state \<sigma>) (abs_state \<sigma>')" by (simp_all add: e)
qed

lemma start_inv: "lock_inv (unlocked c, map start_goroutine rs)"
  by (auto simp: lock_inv_def unlocked_def holders_def start_goroutine_def knows_def split_beta)

lemma abs_start: "abs_state (unlocked c, map start_goroutine rs) = (c, map start_thread rs)"
  by (auto simp: abs_state_def unlocked_def start_goroutine_def start_thread_def abs_thread_def)

section \<open>Progress\<close>

text \<open>How many statements a goroutine has left at most.\<close>

fun left :: "gphase \<Rightarrow> nat" where
  "left Begin = 10"
| "left (Getting i pc) = (case pc of GetLock \<Rightarrow> 9 | GetRead \<Rightarrow> 8 | GetCheck cred \<Rightarrow> 7 | GetDelete \<Rightarrow> 6 | GetUnlock r \<Rightarrow> 5)"
| "left (Issuing i) = 4"
| "left (Putting i cred pc) = (case pc of PutLock \<Rightarrow> 3 | PutWrite \<Rightarrow> 2 | PutUnlock \<Rightarrow> 1)"
| "left (Returned r) = 0"

definition total_left :: "goroutine list \<Rightarrow> nat" where
  "total_left gs = sum_list (map (\<lambda>g. left (g_phase g)) gs)"

lemma go_step_decreases: "go_step K s m g = Some (m', g') \<Longrightarrow> left (g_phase g') < left (g_phase g)"
  by (cases "g_phase g")
    (auto simp: go_step_def Let_def Get_step_def Put_step_def
      split: sum.splits get_pc.splits put_pc.splits option.splits if_splits)

lemma total_left_update:
  "j < length gs \<Longrightarrow> left (g_phase g') < left (g_phase (gs ! j)) \<Longrightarrow> total_left (gs[j := g']) < total_left gs"
proof (induction gs arbitrary: j)
  case (Cons g gs)
  then show ?case by (cases j) (auto simp: total_left_def)
qed simp

lemma go_sys_decreases: "go_sys K s (m, gs) (m', gs') \<Longrightarrow> total_left gs' < total_left gs"
  by (elim go_sysE) (auto intro: total_left_update dest: go_step_decreases)

lemma go_sys_bound: "(go_sys K s ^^ n) (m, gs) (m', gs') \<Longrightarrow> n + total_left gs' \<le> total_left gs"
proof (induction n arbitrary: m' gs')
  case (Suc n)
  then obtain m1 gs1 where "(go_sys K s ^^ n) (m, gs) (m1, gs1)" "go_sys K s (m1, gs1) (m', gs')" by auto
  with Suc.IH[of m1 gs1] go_sys_decreases[of K s m1 gs1 m' gs'] show ?case by simp
qed simp

lemma total_left_start: "total_left (map start_goroutine rs) = 10 * length rs"
  by (induction rs) (auto simp: total_left_def start_goroutine_def split: prod.splits)

text \<open>A goroutine waits only for a mutex another one holds; and whoever holds it can go on.\<close>

lemma go_step_enabled:
  assumes "\<not> returned g" "mu m \<longleftrightarrow> inside (g_phase g)"
  shows "\<exists>m' g'. go_step K s m g = Some (m', g')"
  using assms
  by (cases "g_phase g")
    (auto simp: go_step_def Let_def Get_step_def Put_step_def mutex_Lock_def mutex_Unlock_def returned_def
      split: sum.splits get_pc.splits put_pc.splits option.splits if_splits)

lemma returned_outside: "returned g \<Longrightarrow> \<not> inside (g_phase g) \<and> go_step K s m g = None"
  by (cases "g_phase g") (simp_all add: returned_def go_step_def)

lemma go_sys_progress:
  assumes "lock_inv (m, gs)"
  shows "(\<nexists>\<sigma>'. go_sys K s (m, gs) \<sigma>') \<longleftrightarrow> (\<forall>g \<in> set gs. returned g)"
proof
  assume stuck: "\<nexists>\<sigma>'. go_sys K s (m, gs) \<sigma>'"
  have blocked: "\<not> (mu m \<longleftrightarrow> inside (g_phase (gs ! j)))" if "j < length gs" "\<not> returned (gs ! j)" for j
    using go_step_enabled[OF that(2), of m K s] stuck go_sys.run[OF that(1)] by blast
  show "\<forall>g \<in> set gs. returned g"
  proof (cases "mu m")
    case True
    with assms obtain j where "j < length gs" "inside (g_phase (gs ! j))" by (auto simp: lock_inv_def holders_def)
    with blocked[of j] True returned_outside[of "gs ! j"] show ?thesis by blast
  next
    case False
    with assms have "\<not> inside (g_phase (gs ! j))" if "j < length gs" for j using that by (auto simp: lock_inv_def holders_def)
    with blocked False show ?thesis by (metis in_set_conv_nth)
  qed
next
  assume "\<forall>g \<in> set gs. returned g"
  then show "\<nexists>\<sigma>'. go_sys K s (m, gs) \<sigma>'" by (auto elim!: go_sysE dest!: nth_mem simp: returned_outside)
qed

lemma all_returned_unlocked:
  assumes "lock_inv (m, gs)" "\<forall>g \<in> set gs. returned g"
  shows "\<not> mu m"
proof -
  have "\<not> inside (g_phase (gs ! j))" if "j < length gs" for j
    using assms(2) returned_outside[of "gs ! j"] nth_mem[OF that] by blast
  then have "holders gs = {}" by (auto simp: holders_def)
  with assms(1) show ?thesis by (auto simp: lock_inv_def split: if_splits)
qed

lemma go_sys_completes:
  assumes "lock_inv (m, gs)" "sv_Cache s = Some memory_ops"
  shows "\<exists>m' gs'. (go_sys K s)\<^sup>*\<^sup>* (m, gs) (m', gs') \<and> (\<forall>g \<in> set gs'. returned g) \<and> \<not> mu m'"
  using assms(1)
proof (induction "total_left gs" arbitrary: m gs rule: less_induct)
  case less
  show ?case
  proof (cases "\<forall>g \<in> set gs. returned g")
    case True
    with all_returned_unlocked[OF less.prems] show ?thesis by blast
  next
    case False
    with go_sys_progress[OF less.prems, of K s] obtain m1 gs1 where st: "go_sys K s (m, gs) (m1, gs1)" by fastforce
    from less.hyps[OF go_sys_decreases[OF st] go_sys_inv[OF less.prems st assms(2)]] st show ?thesis
      by (metis converse_rtranclp_into_rtranclp)
  qed
qed


section \<open>A run of one goroutine\<close>

lemma go_sys_solo: "go_step K s m g = Some (m', g') \<Longrightarrow> (go_sys K s)\<^sup>*\<^sup>* (m', [g']) \<sigma> \<Longrightarrow> (go_sys K s)\<^sup>*\<^sup>* (m, [g]) \<sigma>"
  using go_sys.run[of 0 "[g]" K s m m' g'] by (auto intro: converse_rtranclp_into_rtranclp)

text \<open>An exchange that finds nothing in the cache, statement by statement.\<close>

lemma go_miss_run:
  assumes "sv_Validator s w (AccessToken req) = Inr i" "sv_Cache s = Some memory_ops"
    and "store c (CacheKey (Subject i) (Target req) (Output req)) = None" "exchange_issue K s w i req = Inr cred"
  shows "(go_sys K s)\<^sup>*\<^sup>* (unlocked c, [start_goroutine (w, req)])
    (unlocked (MemoryCache_Put c (CacheKey (Subject i) (Target req) (Output req)) cred),
     [\<lparr>g_world = w, g_req = req, g_phase = Returned (Inr cred)\<rparr>])"
proof -
  let ?k = "CacheKey (Subject i) (Target req) (Output req)"
  let ?g = "\<lambda>p. \<lparr>g_world = w, g_req = req, g_phase = p\<rparr>" and ?l = "\<lambda>b c. \<lparr>mu = b, guarded = c\<rparr>"
  let ?c = "MemoryCache_Put c ?k cred"
  note d = go_step_def Let_def Get_step_def Put_step_def mutex_Lock_def mutex_Unlock_def MemoryCache_Put_def assms
  have 1: "go_step K s (?l False c) (?g Begin) = Some (?l False c, ?g (Getting i GetLock))" by (simp add: d)
  have 2: "go_step K s (?l False c) (?g (Getting i GetLock)) = Some (?l True c, ?g (Getting i GetRead))" by (simp add: d)
  have 3: "go_step K s (?l True c) (?g (Getting i GetRead)) = Some (?l True c, ?g (Getting i (GetUnlock None)))" by (simp add: d)
  have 4: "go_step K s (?l True c) (?g (Getting i (GetUnlock None))) = Some (?l False c, ?g (Issuing i))" by (simp add: d)
  have 5: "go_step K s (?l False c) (?g (Issuing i)) = Some (?l False c, ?g (Putting i cred PutLock))" by (simp add: d)
  have 6: "go_step K s (?l False c) (?g (Putting i cred PutLock)) = Some (?l True c, ?g (Putting i cred PutWrite))" by (simp add: d)
  have 7: "go_step K s (?l True c) (?g (Putting i cred PutWrite)) = Some (?l True ?c, ?g (Putting i cred PutUnlock))" by (simp add: d)
  have 8: "go_step K s (?l True ?c) (?g (Putting i cred PutUnlock)) = Some (?l False ?c, ?g (Returned (Inr cred)))" by (simp add: d)
  show ?thesis unfolding unlocked_def start_goroutine_def prod.case
    by (rule go_sys_solo, rule 1, rule go_sys_solo, rule 2, rule go_sys_solo, rule 3, rule go_sys_solo, rule 4,
        rule go_sys_solo, rule 5, rule go_sys_solo, rule 6, rule go_sys_solo, rule 7, rule go_sys_solo, rule 8, rule rtranclp.rtrancl_refl)
qed

section \<open>Properties\<close>

text \<open>
  C18.  The mutex makes \<open>Get\<close> and \<open>Put\<close> atomic.  Any number of exchanges run on one new cache, with
  the statements of \<open>Get\<close> and \<open>Put\<close> (lock, each access to the map, unlock) interleaved in any order.
  In every state such a run can reach, at most one goroutine is between \<open>Lock\<close> and \<open>Unlock\<close>, and the
  cache and what each goroutine has returned so far are those of a run in which every \<open>Get\<close> and every
  \<open>Put\<close> is one step.
\<close>

theorem Mutex_makes_atomic:
  assumes "(go_sys K (direct_service K validate realm m d))\<^sup>*\<^sup>* (unlocked NewMemoryCache, map start_goroutine rs) (l, gs)"
  shows "(sys_step K (direct_service K validate realm m d))\<^sup>*\<^sup>* (NewMemoryCache, map start_thread rs) (guarded l, map abs_thread gs)
     \<and> (\<forall>j < length gs. \<forall>k < length gs. inside (g_phase (gs ! j)) \<and> inside (g_phase (gs ! k)) \<longrightarrow> j = k)
     \<and> (\<forall>g \<in> set gs. \<forall>res. g_phase g = Returned res \<longrightarrow> th_phase (abs_thread g) = Finished res)"
proof -
  from lk.run_refines[OF assms start_inv]
  have r: "(sys_step K (direct_service K validate realm m d))\<^sup>*\<^sup>* (NewMemoryCache, map start_thread rs) (guarded l, map abs_thread gs)"
    and i: "lock_inv (l, gs)" unfolding abs_start by (simp_all add: abs_state_def)
  from i have "\<exists>j. holders gs \<subseteq> {j}" by (auto simp: lock_inv_def split: if_splits)
  with r show ?thesis by (auto simp: holders_def abs_thread_def)
qed

theorem Mutex_makes_atomic_witness:
  "\<exists>i. let rs = [(sample_world, sample_request ''wide''), (sample_world, sample_request ''wide'')];
          g = (\<lambda>p. \<lparr>g_world = sample_world, g_req = sample_request ''wide'', g_phase = p\<rparr>) in
      (go_sys sample_krb5 sample_service)\<^sup>*\<^sup>* (unlocked NewMemoryCache, map start_goroutine rs)
        (\<lparr>mu = True, guarded = NewMemoryCache\<rparr>, [g (Getting i GetRead), g (Getting i GetLock)])
      \<and> go_step sample_krb5 sample_service \<lparr>mu = True, guarded = NewMemoryCache\<rparr> (g (Getting i GetLock)) = None
      \<and> (sys_step sample_krb5 sample_service)\<^sup>*\<^sup>* (NewMemoryCache, map start_thread rs)
        (NewMemoryCache, [sample_thread (Validated i), sample_thread (Validated i)])"
proof -
  let ?rs = "[(sample_world, sample_request ''wide''), (sample_world, sample_request ''wide'')]"
  let ?g = "\<lambda>p. \<lparr>g_world = sample_world, g_req = sample_request ''wide'', g_phase = p\<rparr>"
  let ?i = "sample_identity \<lparr>ns = 1000, zone = UTC\<rparr>" and ?S = "go_sys sample_krb5 sample_service"
  let ?l = "\<lambda>b. \<lparr>mu = b, guarded = NewMemoryCache\<rparr>"
  have ops: "sv_Cache sample_service = Some memory_ops" by (simp add: sample_service_def direct_service_def)
  note d = go_step_def sample_validated sample_validate_def sample_request_def ops Get_step_def mutex_Lock_def
  have start: "(unlocked NewMemoryCache, map start_goroutine ?rs) = (?l False, [?g Begin, ?g Begin])"
    by (simp add: unlocked_def start_goroutine_def)
  have "?S (?l False, [?g Begin, ?g Begin]) (?l False, [?g (Getting ?i GetLock), ?g Begin])"
    using go_sys.run[of 0 "[?g Begin, ?g Begin]" sample_krb5 sample_service "?l False"] by (simp add: d)
  moreover have "?S (?l False, [?g (Getting ?i GetLock), ?g Begin]) (?l False, [?g (Getting ?i GetLock), ?g (Getting ?i GetLock)])"
    using go_sys.run[of 1 "[?g (Getting ?i GetLock), ?g Begin]" sample_krb5 sample_service "?l False"] by (simp add: d)
  moreover have "?S (?l False, [?g (Getting ?i GetLock), ?g (Getting ?i GetLock)]) (?l True, [?g (Getting ?i GetRead), ?g (Getting ?i GetLock)])"
    using go_sys.run[of 0 "[?g (Getting ?i GetLock), ?g (Getting ?i GetLock)]" sample_krb5 sample_service "?l False"] by (simp add: d)
  ultimately have r: "?S\<^sup>*\<^sup>* (unlocked NewMemoryCache, map start_goroutine ?rs) (?l True, [?g (Getting ?i GetRead), ?g (Getting ?i GetLock)])"
    unfolding start by (meson converse_rtranclp_into_rtranclp rtranclp.rtrancl_refl)
  have "go_step sample_krb5 sample_service (?l True) (?g (Getting ?i GetLock)) = None" by (simp add: d)
  with Mutex_makes_atomic[OF r[unfolded sample_service_def], folded sample_service_def] r show ?thesis
    unfolding Let_def by (intro exI[of _ ?i]) (simp add: abs_thread_def sample_thread_def)
qed

text \<open>
  C19.  No exchange waits forever.  Every run of \<open>n\<close> concurrent exchanges, in any order of their
  statements, has at most \<open>10 n\<close> steps; it cannot stop before every exchange has returned (no goroutine
  is left waiting for the mutex, none unlocks a mutex that is not locked), it can always go on to that
  end, and the mutex is free then.
\<close>

theorem Exchanges_return:
  assumes "(go_sys K (direct_service K validate realm m d) ^^ k) (unlocked NewMemoryCache, map start_goroutine rs) (l, gs)"
  shows "k \<le> 10 * length rs
     \<and> ((\<nexists>\<sigma>'. go_sys K (direct_service K validate realm m d) (l, gs) \<sigma>') \<longleftrightarrow> (\<forall>g \<in> set gs. \<exists>res. g_phase g = Returned res))
     \<and> (\<exists>l' gs'. (go_sys K (direct_service K validate realm m d))\<^sup>*\<^sup>* (l, gs) (l', gs')
         \<and> (\<forall>g \<in> set gs'. \<exists>res. g_phase g = Returned res) \<and> \<not> mu l')"
proof -
  have ret: "returned g \<longleftrightarrow> (\<exists>res. g_phase g = Returned res)" for g by (cases "g_phase g") (auto simp: returned_def)
  have ops: "sv_Cache (direct_service K validate realm m d) = Some memory_ops" by (simp add: direct_service_def)
  have i: "lock_inv (l, gs)" using lk.run_refines[OF relpowp_imp_rtranclp[OF assms] start_inv] by simp
  from go_sys_bound[OF assms] go_sys_progress[OF i] go_sys_completes[OF i ops] show ?thesis
    by (simp add: total_left_start ret)
qed

theorem Exchanges_return_witness:
  "\<exists>l' gs'. (go_sys sample_krb5 sample_service)\<^sup>*\<^sup>*
       (unlocked NewMemoryCache, map start_goroutine [(sample_world, sample_request ''wide''), (sample_world, sample_request ''narrow'')]) (l', gs')
     \<and> (\<forall>g \<in> set gs'. \<exists>res. g_phase g = Returned res) \<and> \<not> mu l'"
proof -
  let ?\<sigma> = "(unlocked NewMemoryCache, map start_goroutine [(sample_world, sample_request ''wide''), (sample_world, sample_request ''narrow'')])"
  have "(go_sys sample_krb5 sample_service ^^ 0) ?\<sigma> ?\<sigma>" by simp
  from Exchanges_return[OF this[unfolded sample_service_def], folded sample_service_def] show ?thesis by blast
qed

end
