(* ===== verification/GoFlag.thy ===== *)
theory GoFlag
  imports GoFloat GoStrconv GoTime
begin

text \<open>
  The command line: Go's package \<open>flag\<close> for flags that take a value, and \<open>time.ParseDuration\<close>,
  which reads the value of a duration flag.  \<open>flag.Parse\<close> ends the process on a bad command line;
  the reason is an error here.
\<close>

section \<open>Durations\<close>

text \<open>\<open>leadingInt\<close>: the leading digits, \<open>None\<close> on overflow.\<close>

fun leadingInt :: "nat \<Rightarrow> string \<Rightarrow> (nat \<times> string) option" where
  "leadingInt x [] = Some (x, [])"
| "leadingInt x (c # cs) =
     (case digit_val c of
        None \<Rightarrow> Some (x, c # cs)
      | Some d \<Rightarrow>
          if x > 2 ^ 63 div 10 then None
          else if x * 10 + d > 2 ^ 63 then None
          else leadingInt (x * 10 + d) cs)"

text \<open>
  \<open>leadingFraction\<close>: digits beyond the precision are skipped.  The scale is a \<open>float64\<close> in the
  code; it is a power of ten of at most 19 digits, which a double represents exactly.
\<close>

fun leadingFraction :: "bool \<Rightarrow> nat \<Rightarrow> nat \<Rightarrow> string \<Rightarrow> nat \<times> nat \<times> string" where
  "leadingFraction overflow x scale [] = (x, scale, [])"
| "leadingFraction overflow x scale (c # cs) =
     (case digit_val c of
        None \<Rightarrow> (x, scale, c # cs)
      | Some d \<Rightarrow>
          if overflow \<or> x > (2 ^ 63 - 1) div 10 \<or> x * 10 + d > 2 ^ 63 then leadingFraction True x scale cs
          else leadingFraction False (x * 10 + d) (scale * 10) cs)"

definition unitMap :: "string \<rightharpoonup> nat" where
  "unitMap = map_of
     [(''ns'', 1), (''us'', 1000), ([CHR 0xC2, CHR 0xB5, CHR ''s''], 1000), ([CHR 0xCE, CHR 0xBC, CHR ''s''], 1000),
      (''ms'', 1000000), (''s'', 1000000000), (''m'', 60000000000), (''h'', 3600000000000)]"

text \<open>\<open>uint64(float64(f) * (float64(unit) / scale))\<close>, each operation rounded.\<close>

definition float_ratio :: "float64 \<Rightarrow> nat \<times> nat" where
  "float_ratio a = (mant a * 2 ^ nat (expo a), 2 ^ nat (- expo a))"

definition float_mul :: "float64 \<Rightarrow> float64 \<Rightarrow> float64" where
  "float_mul a b =
     (let (n, d) = float_ratio a; (n', d') = float_ratio b in the (round_double False (n * n') (d * d')))"

definition fraction_part :: "nat \<Rightarrow> nat \<Rightarrow> nat \<Rightarrow> nat" where
  "fraction_part f unit scale =
     float_trunc (float_mul (the (round_double False f 1)) (the (round_double False unit scale)))"

definition unit_char :: "char \<Rightarrow> bool" where
  "unit_char c = (c \<noteq> CHR ''.'' \<and> digit_val c = None)"

text \<open>The optional fraction: its digits, their scale, the rest, and whether there were digits.\<close>

definition parse_fraction :: "string \<Rightarrow> nat \<times> nat \<times> string \<times> bool" where
  "parse_fraction s =
     (case s of
        c # r \<Rightarrow> if c = CHR ''.''
                 then let (f, scale, s2) = leadingFraction False 0 1 r in (f, scale, s2, length s2 \<noteq> length r)
                 else (0, 1, s, False)
      | [] \<Rightarrow> (0, 1, s, False))"

text \<open>One number with its unit: the nanoseconds and the rest of the text.\<close>

definition parse_unit :: "string \<Rightarrow> (nat \<times> string) option" where
  "parse_unit s =
     (if s = [] \<or> unit_char (hd s) then None
      else case leadingInt 0 s of
        None \<Rightarrow> None
      | Some (v, s1) \<Rightarrow>
          let pre = (length s1 \<noteq> length s);
              (f, scale, s2, post) = parse_fraction s1;
              u = takeWhile unit_char s2
          in if \<not> pre \<and> \<not> post then None
             else if u = [] then None
             else case unitMap u of
                    None \<Rightarrow> None
                  | Some unit \<Rightarrow>
                      if v > 2 ^ 63 div unit then None
                      else let v' = v * unit + (if f > 0 then fraction_part f unit scale else 0)
                           in if f > 0 \<and> v' > 2 ^ 63 then None else Some (v', dropWhile unit_char s2))"

lemma leadingInt_length: "leadingInt x s = Some (v, r) \<Longrightarrow> length r \<le> length s"
  by (induction x s rule: leadingInt.induct) (auto split: option.splits if_splits)

lemma leadingFraction_length: "leadingFraction b x k s = (v, k', r) \<Longrightarrow> length r \<le> length s"
  by (induction b x k s rule: leadingFraction.induct) (auto split: option.splits if_splits)

lemma dropWhile_shorter: "takeWhile p s \<noteq> [] \<Longrightarrow> length (dropWhile p s) < length s"
  by (metis length_append length_greater_0_conv less_add_same_cancel2 takeWhile_dropWhile_id)

lemma parse_fraction_length: "parse_fraction s = (f, scale, r, post) \<Longrightarrow> length r \<le> length s"
  by (auto simp: parse_fraction_def split: list.splits if_splits prod.splits dest!: leadingFraction_length)

lemma parse_unit_length:
  assumes "parse_unit s = Some (v, r)"
  shows "length r < length s"
proof -
  from assms obtain v0 s1 f scale s2 post where l: "leadingInt 0 s = Some (v0, s1)" "parse_fraction s1 = (f, scale, s2, post)"
    and "takeWhile unit_char s2 \<noteq> []" "r = dropWhile unit_char s2"
    by (auto simp: parse_unit_def Let_def split: if_splits option.splits prod.splits)
  with leadingInt_length[OF l(1)] parse_fraction_length[OF l(2)] dropWhile_shorter[of unit_char s2] show ?thesis by simp
qed

text \<open>The loop; the sum is a \<open>uint64\<close>.\<close>

function parse_units :: "nat \<Rightarrow> string \<Rightarrow> nat option" where
  "parse_units d s =
     (if s = [] then Some d
      else case parse_unit s of
        None \<Rightarrow> None
      | Some (v, r) \<Rightarrow>
          let d' = (d + v) mod 2 ^ 64 in if d' > 2 ^ 63 then None else parse_units d' r)"
  by pat_completeness auto
termination
  by (relation "measure (\<lambda>(d, s). length s)") (auto dest: parse_unit_length)

declare parse_units.simps [simp del]

definition ParseDuration :: "string \<Rightarrow> duration option" where
  "ParseDuration orig =
     (let (neg, s) = (case orig of c # r \<Rightarrow> if c = CHR ''-'' \<or> c = CHR ''+'' then (c = CHR ''-'', r) else (False, orig)
                                 | [] \<Rightarrow> (False, []))
      in if s = ''0'' then Some 0
         else if s = [] then None
         else case parse_units 0 s of
                None \<Rightarrow> None
              | Some d \<Rightarrow>
                  if neg then Some (to_int64 (- to_int64 (int d)))
                  else if d > 2 ^ 63 - 1 then None
                  else Some (int d))"

section \<open>Flags\<close>

text \<open>What setting a flag does to the values of the flags; an error is the reason.\<close>

type_synonym 'f setter = "string \<Rightarrow> 'f \<Rightarrow> 'f result"

definition String_flag :: "((string \<Rightarrow> string) \<Rightarrow> 'f \<Rightarrow> 'f) \<Rightarrow> 'f setter" where
  "String_flag upd v f = Inr (upd (\<lambda>_. v) f)"

definition Duration_flag :: "((duration \<Rightarrow> duration) \<Rightarrow> 'f \<Rightarrow> 'f) \<Rightarrow> 'f setter" where
  "Duration_flag upd v f =
     (case ParseDuration v of None \<Rightarrow> Inl (errors_New ''parse error'') | Some d \<Rightarrow> Inr (upd (\<lambda>_. d) f))"

datatype flag_stop = ErrHelp | FlagError goerror

text \<open>An argument: not a flag, the terminator, or dashes, a name and perhaps a value.\<close>

datatype flag_arg = NotFlag | Terminator | BadSyntax | Named string "string option"

definition flag_arg :: "string \<Rightarrow> flag_arg" where
  "flag_arg s =
     (if length s < 2 \<or> hd s \<noteq> CHR ''-'' then NotFlag
      else if s = ''--'' then Terminator
      else let name = (if s ! 1 = CHR ''-'' then drop 2 s else drop 1 s)
           in if name = [] \<or> hd name = CHR ''-'' \<or> hd name = CHR ''='' then BadSyntax
              else case cut (CHR ''='') (tl name) of
                     None \<Rightarrow> Named name None
                   | Some (a, v) \<Rightarrow> Named (hd name # a) (Some v))"

definition set_flag :: "string \<Rightarrow> 'f setter \<Rightarrow> string \<Rightarrow> 'f \<Rightarrow> flag_stop + 'f" where
  "set_flag name setter v f =
     on_err (\<lambda>e. FlagError (Errorf [Lit ''invalid value '', Quoted v, Lit '' for flag -'', Plain name, Lit '': '', TextV e]))
       (setter v f)"

text \<open>\<open>flag.Parse\<close>: the flags, and the arguments left over.\<close>

fun flag_Parse :: "(string \<times> 'f setter) list \<Rightarrow> 'f \<Rightarrow> string list \<Rightarrow> flag_stop + 'f \<times> string list" where
  "flag_Parse formal f [] = Inr (f, [])"
| "flag_Parse formal f (s # args) =
     (case flag_arg s of
        NotFlag \<Rightarrow> Inr (f, s # args)
      | Terminator \<Rightarrow> Inr (f, args)
      | BadSyntax \<Rightarrow> Inl (FlagError (Errorf [Lit ''bad flag syntax: '', Plain s]))
      | Named name value \<Rightarrow>
          (case map_of formal name of
             None \<Rightarrow>
               Inl (if name = ''help'' \<or> name = ''h'' then ErrHelp
                    else FlagError (Errorf [Lit ''flag provided but not defined: -'', Plain name]))
           | Some setter \<Rightarrow>
               (case value of
                  Some v \<Rightarrow> attempt (set_flag name setter v f) (\<lambda>f'. flag_Parse formal f' args)
                | None \<Rightarrow>
                    (case args of
                       [] \<Rightarrow> Inl (FlagError (Errorf [Lit ''flag needs an argument: -'', Plain name]))
                     | v # rest \<Rightarrow> attempt (set_flag name setter v f) (\<lambda>f'. flag_Parse formal f' rest)))))"

declare flag_Parse.simps(2) [simp del]

section \<open>Durations read back\<close>

lemma leadingInt_digits:
  "\<lbrakk>\<forall>c \<in> set ds. is_digit c; value_from x ds \<le> 2 ^ 63; r = [] \<or> \<not> is_digit (hd r)\<rbrakk>
   \<Longrightarrow> leadingInt x (ds @ r) = Some (value_from x ds, r)"
proof (induction ds arbitrary: x)
  case Nil
  then show ?case by (cases r) (auto simp: is_digit_def)
next
  case (Cons c cs)
  then obtain d where d: "digit_val c = Some d" by (auto simp: is_digit_def)
  from Cons.prems(2) value_from_mono[of "x * 10 + d" cs] have "x * 10 + d \<le> 2 ^ 63" by (simp add: d)
  with Cons show ?case by (simp add: d)
qed

lemma parse_unit_digits:
  assumes "ds \<noteq> []" "\<forall>c \<in> set ds. is_digit c" "unitMap u = Some unit" "u \<noteq> []" "\<forall>c \<in> set u. unit_char c"
    and "decimal_value ds * unit \<le> 2 ^ 63" "0 < unit"
  shows "parse_unit (ds @ u) = Some (decimal_value ds * unit, [])"
proof -
  from assms(1,2) have h: "ds @ u \<noteq> []" "\<not> unit_char (hd (ds @ u))" by (cases ds; auto simp: unit_char_def is_digit_def)+
  from assms(4,5) have u: "\<not> is_digit (hd u)" "hd u \<noteq> CHR ''.''" by (cases u; auto simp: unit_char_def is_digit_def)+
  have "decimal_value ds \<le> decimal_value ds * unit" using assms(7) by simp
  with assms(6) have v: "decimal_value ds \<le> 2 ^ 63" by linarith
  have l: "leadingInt 0 (ds @ u) = Some (decimal_value ds, u)" using leadingInt_digits[of ds 0 u] assms(2) v u(1) by simp
  have f: "parse_fraction u = (0, 1, u, False)" using u(2) by (cases u) (auto simp: parse_fraction_def)
  have t: "takeWhile unit_char u = u" "dropWhile unit_char u = []"
    using assms(5) unfolding takeWhile_eq_all_conv dropWhile_eq_Nil_conv by blast+
  have "decimal_value ds \<le> 2 ^ 63 div unit" using assms(6,7) by (simp add: less_eq_div_iff_mult_less_eq)
  with h l assms(1,3,4) show ?thesis by (simp add: parse_unit_def Let_def f t del: takeWhile_eq_all_conv dropWhile_eq_Nil_conv)
qed

lemma ParseDuration_unsigned:
  assumes "is_digit c" "c # s \<noteq> ''0''" "parse_units 0 (c # s) = Some n"
  shows "ParseDuration (c # s) = (if n > 2 ^ 63 - 1 then None else Some (int n))"
    and "ParseDuration (CHR ''-'' # c # s) = Some (to_int64 (- to_int64 (int n)))"
proof -
  from assms(1) have "c \<noteq> CHR ''-''" "c \<noteq> CHR ''+''" by (auto simp: is_digit_def digit_val_def)
  with assms(2,3) show "ParseDuration (c # s) = (if n > 2 ^ 63 - 1 then None else Some (int n))"
    "ParseDuration (CHR ''-'' # c # s) = Some (to_int64 (- to_int64 (int n)))"
    by (auto simp: ParseDuration_def)
qed

text \<open>A number of nanoseconds is read back, from the smallest duration to the largest.\<close>

lemma ParseDuration_ns:
  assumes "- (2 ^ 63) \<le> d" "d < 2 ^ 63"
  shows "ParseDuration (show_int d @ ''ns'') = Some d"
proof -
  let ?n = "nat \<bar>d\<bar>"
  obtain c cs where s: "show_nat ?n = c # cs" by (cases "show_nat ?n") auto
  have c: "is_digit c" using show_nat_digits[of ?n] by (simp add: s)
  have u: "unitMap ''ns'' = Some 1" "\<forall>c \<in> set ''ns''. unit_char c" by (simp_all add: unitMap_def unit_char_def digit_val_def)
  have n: "?n \<le> 2 ^ 63" using assms by (simp add: nat_le_iff)
  then have p: "parse_unit (show_nat ?n @ ''ns'') = Some (?n, [])"
    using parse_unit_digits[OF show_nat_nonempty show_nat_digits u(1) _ u(2), of ?n] by simp
  have "parse_units 0 (show_nat ?n @ ''ns'') = Some ?n"
    using n p by (subst parse_units.simps) (simp add: parse_units.simps[of _ "[]"])
  then have r: "parse_units 0 (c # cs @ ''ns'') = Some ?n" "c # cs @ ''ns'' \<noteq> ''0''" by (simp_all add: s)
  show ?thesis
  proof (cases "d < 0")
    case True
    then have "show_int d @ ''ns'' = CHR ''-'' # c # cs @ ''ns''" "int ?n = - d" using s by (simp_all add: show_int_def)
    moreover have "to_int64 (- to_int64 (- d)) = d" using True assms by (cases "d = - (2 ^ 63)") (simp_all add: to_int64_def)
    ultimately show ?thesis using ParseDuration_unsigned(2)[OF c r(2,1)] by simp
  next
    case False
    then have "show_int d @ ''ns'' = c # cs @ ''ns''" "int ?n = d" using s by (simp_all add: show_int_def)
    moreover have "\<not> 2 ^ 63 - 1 < ?n" using False assms(2) by (simp add: not_less nat_le_iff)
    ultimately show ?thesis using ParseDuration_unsigned(1)[OF c r(2,1)] by simp
  qed
qed

text \<open>A duration that is read fits the type.\<close>

lemma ParseDuration_range:
  "ParseDuration s = Some d \<Longrightarrow> - (2 ^ 63) \<le> d \<and> d < 2 ^ 63"
  using to_int64_range by (auto simp: ParseDuration_def Let_def split: if_splits option.splits prod.splits)

section \<open>Settings on a command line\<close>

text \<open>A setting is written with one or two dashes, its value in the same argument or in the next.\<close>

record setting =
  two_dashes :: bool
  joined :: bool
  set_name :: string
  set_value :: string

definition render_setting :: "setting \<Rightarrow> string list" where
  "render_setting t =
     (let flag = (if two_dashes t then ''--'' else ''-'') @ set_name t
      in if joined t then [flag @ ''='' @ set_value t] else [flag, set_value t])"

definition flag_name :: "string \<Rightarrow> bool" where
  "flag_name n \<longleftrightarrow> n \<noteq> [] \<and> CHR ''='' \<notin> set n \<and> hd n \<noteq> CHR ''-''"

lemma flag_arg_render:
  assumes "flag_name n" "dash = ''-'' \<or> dash = ''--''"
  shows "flag_arg (dash @ n) = Named n None" "flag_arg (dash @ n @ CHR ''='' # v) = Named n (Some v)"
proof -
  from assms(1) obtain c cs where n: "n = c # cs" "c \<noteq> CHR ''-''" "c \<noteq> CHR ''=''" "CHR ''='' \<notin> set cs"
    by (cases n) (auto simp: flag_name_def)
  then have "cut (CHR ''='') cs = None" "cut (CHR ''='') (cs @ CHR ''='' # v) = Some (cs, v)"
    by (simp_all add: go_strings)
  then show "flag_arg (dash @ n) = Named n None" "flag_arg (dash @ n @ CHR ''='' # v) = Named n (Some v)"
    using assms(2) n(2,3) by (auto simp: flag_arg_def n(1))
qed

text \<open>The settings one after another, later ones on top of earlier ones.\<close>

fun apply_settings :: "(string \<times> 'f setter) list \<Rightarrow> 'f \<Rightarrow> setting list \<Rightarrow> flag_stop + 'f" where
  "apply_settings formal f [] = Inr f"
| "apply_settings formal f (t # ts) =
     attempt (set_flag (set_name t) (the (map_of formal (set_name t))) (set_value t) f) (\<lambda>f'. apply_settings formal f' ts)"

lemma flag_Parse_settings:
  assumes "\<forall>t \<in> set ts. set_name t \<in> fst ` set formal" "\<forall>n \<in> fst ` set formal. flag_name n"
  shows "flag_Parse formal f (concat (map render_setting ts) @ args) =
    attempt (apply_settings formal f ts) (\<lambda>f'. flag_Parse formal f' args)"
  using assms(1)
proof (induction ts arbitrary: f)
  case (Cons t ts)
  then obtain st where st: "map_of formal (set_name t) = Some st" by (cases "map_of formal (set_name t)") (auto simp: map_of_eq_None_iff)
  have "flag_name (set_name t)" using Cons.prems assms(2) by auto
  note a = flag_arg_render[OF this, of "if two_dashes t then ''--'' else ''-''" for v]
  from Cons st a show ?case
    by (cases "set_flag (set_name t) st (set_value t) f")
      (auto simp: render_setting_def flag_Parse.simps(2) Let_def)
qed simp

text \<open>The value a flag has after the settings: the last one given, or its default.\<close>

definition last_setting :: "string \<Rightarrow> setting list \<Rightarrow> string option" where
  "last_setting n ts = (case rev (filter (\<lambda>t. set_name t = n) ts) of [] \<Rightarrow> None | t # _ \<Rightarrow> Some (set_value t))"

lemma last_setting_Cons:
  "last_setting n (t # ts) = (case last_setting n ts of Some v \<Rightarrow> Some v | None \<Rightarrow> if set_name t = n then Some (set_value t) else None)"
  by (cases "rev (filter (\<lambda>t. set_name t = n) ts)") (auto simp: last_setting_def)

text \<open>
  A field of the flags that exactly one flag sets: \<open>get\<close> reads the field, \<open>rd\<close> the text of a value.
\<close>

locale flag_field =
  fixes formal :: "(string \<times> 'f setter) list" and n :: string and get :: "'f \<Rightarrow> 'a" and rd :: "string \<Rightarrow> 'a"
  assumes setter: "(m, st) \<in> set formal \<Longrightarrow> st v f = Inr f' \<Longrightarrow> get f' = (if m = n then rd v else get f)"
begin

lemma last_wins:
  "\<forall>t \<in> set ts. set_name t \<in> fst ` set formal \<Longrightarrow> apply_settings formal f ts = Inr f' \<Longrightarrow>
   get f' = (case last_setting n ts of None \<Rightarrow> get f | Some v \<Rightarrow> rd v)"
proof (induction ts arbitrary: f)
  case Nil
  then show ?case by (simp add: last_setting_def)
next
  case (Cons t ts)
  then obtain st where st: "map_of formal (set_name t) = Some st" by (cases "map_of formal (set_name t)") (auto simp: map_of_eq_None_iff)
  from Cons.prems(2) obtain f1 where f1: "st (set_value t) f = Inr f1" "apply_settings formal f1 ts = Inr f'"
    by (auto simp: st set_flag_def result_simps)
  have "get f1 = (if set_name t = n then rd (set_value t) else get f)" using setter[OF map_of_SomeD[OF st] f1(1)] .
  with Cons.IH[OF _ f1(2)] Cons.prems(1) show ?case by (auto simp: last_setting_Cons split: option.splits)
qed

end

text \<open>When the settings are accepted: each value is one its flag takes.\<close>

lemma apply_settings_total:
  assumes "\<And>m st v f. (m, st) \<in> set formal \<Longrightarrow> (\<exists>f'. st v f = Inr f') = ok m v"
  shows "\<forall>t \<in> set ts. set_name t \<in> fst ` set formal \<Longrightarrow>
    (\<exists>f'. apply_settings formal f ts = Inr f') = (\<forall>t \<in> set ts. ok (set_name t) (set_value t))"
proof (induction ts arbitrary: f)
  case (Cons t ts)
  then obtain st where st: "map_of formal (set_name t) = Some st" by (cases "map_of formal (set_name t)") (auto simp: map_of_eq_None_iff)
  have "(\<exists>f'. st (set_value t) f = Inr f') = ok (set_name t) (set_value t)" using assms[OF map_of_SomeD[OF st]] .
  with Cons show ?case by (cases "st (set_value t) f") (auto simp: st set_flag_def)
qed simp

end
