(* ===== verification/GoMux.thy ===== *)
theory GoMux
  imports GoUnicode GoUrl
begin

text \<open>
  The request multiplexer of \<open>net/http\<close> with one registered pattern, as the server uses it: the
  syntax of patterns (\<open>[METHOD ][HOST]/[PATH]\<close> with wildcards), the cleaning of request paths, and
  the decision between the handler, a redirect and the two error replies.  The letters and digits
  beyond ASCII that may occur in the name of a wildcard are the parameter \<open>unicode\<close>.
\<close>

record unicode =
  letter :: "nat \<Rightarrow> bool"
  digit :: "nat \<Rightarrow> bool"

section \<open>Paths\<close>

text \<open>\<open>path.Clean\<close> of a rooted path, by the elements kept so far (the last one first).\<close>

fun clean_elems :: "string list \<Rightarrow> string list \<Rightarrow> string list" where
  "clean_elems kept [] = rev kept"
| "clean_elems kept (e # es) =
     clean_elems (if e = [] \<or> e = ''.'' then kept else if e = ''..'' then tl kept else e # kept) es"

definition path_Clean :: "string \<Rightarrow> string" where
  "path_Clean p = CHR ''/'' # join_with (CHR ''/'') (clean_elems [] (split_on (CHR ''/'') p))"

definition cleanPath :: "string \<Rightarrow> string" where
  "cleanPath p0 =
     (if p0 = [] then ''/''
      else let p = (if hd p0 \<noteq> CHR ''/'' then CHR ''/'' # p0 else p0);
               np = path_Clean p
           in if last p = CHR ''/'' \<and> np \<noteq> ''/'' then np @ ''/'' else np)"

text \<open>\<open>url.PathUnescape\<close>; a string it rejects is left as it is.\<close>

fun path_unescape :: "string \<Rightarrow> string option" where
  "path_unescape [] = Some []"
| "path_unescape (c # cs) =
     (if c = CHR ''%'' then
        (case cs of
           a # b # r \<Rightarrow>
             (case (unhex a, unhex b) of
                (Some x, Some y) \<Rightarrow> map_option ((#) (char_of (x * 16 + y))) (path_unescape r)
              | _ \<Rightarrow> None)
         | _ \<Rightarrow> None)
      else map_option ((#) c) (path_unescape cs))"

definition pathUnescape :: "string \<Rightarrow> string" where
  "pathUnescape s = (case path_unescape s of None \<Rightarrow> s | Some t \<Rightarrow> t)"

text \<open>\<open>net.SplitHostPort\<close> (the host), and \<open>stripHostPort\<close>.\<close>

definition split_host :: "string \<Rightarrow> string option" where
  "split_host hp =
     (case index_byte (CHR '':'') (rev hp) of
        None \<Rightarrow> None
      | Some k \<Rightarrow>
          let i = length hp - 1 - k
          in if hd hp = CHR ''['' then
               (case index_byte (CHR '']'') hp of
                  None \<Rightarrow> None
                | Some e \<Rightarrow>
                    if e + 1 = i \<and> CHR ''['' \<notin> set (tl hp) \<and> CHR '']'' \<notin> set (drop (e + 1) hp)
                    then Some (take (e - 1) (tl hp)) else None)
             else if CHR '':'' \<in> set (take i hp) \<or> CHR ''['' \<in> set hp \<or> CHR '']'' \<in> set hp then None
             else Some (take i hp))"

definition stripHostPort :: "string \<Rightarrow> string" where
  "stripHostPort h = (case split_host h of None \<Rightarrow> h | Some host \<Rightarrow> host)"

section \<open>Patterns\<close>

record segment =
  seg_s :: string
  seg_wild :: bool
  seg_multi :: bool

record pattern =
  pat_method :: string
  pat_host :: string
  pat_segments :: "segment list"

definition token_char :: "char \<Rightarrow> bool" where
  "token_char c =
     (let n = (of_char c :: nat)
      in (0x61 \<le> n \<and> n \<le> 0x7A) \<or> (0x41 \<le> n \<and> n \<le> 0x5A) \<or> (0x30 \<le> n \<and> n \<le> 0x39)
         \<or> c \<in> set [CHR ''!'', CHR ''#'', CHR ''$'', CHR ''%'', CHR ''&'', CHR 0x27, CHR ''*'', CHR ''+'', CHR ''-'', CHR ''.'',
              CHR ''^'', CHR ''_'', CHR 0x60, CHR ''|'', CHR ''~''])"

definition IsLetter :: "unicode \<Rightarrow> nat \<Rightarrow> bool" where
  "IsLetter U r = (if r < 0x80 then (0x61 \<le> r \<and> r \<le> 0x7A) \<or> (0x41 \<le> r \<and> r \<le> 0x5A) else letter U r)"

definition IsDigit :: "unicode \<Rightarrow> nat \<Rightarrow> bool" where
  "IsDigit U r = (if r < 0x80 then 0x30 \<le> r \<and> r \<le> 0x39 else digit U r)"

definition isValidWildcardName :: "unicode \<Rightarrow> string \<Rightarrow> bool" where
  "isValidWildcardName U s =
     (let rs = runes_of s
      in rs \<noteq> [] \<and> (IsLetter U (hd rs) \<or> hd rs = 0x5F)
         \<and> (\<forall>r \<in> set (tl rs). IsLetter U r \<or> r = 0x5F \<or> IsDigit U r))"

text \<open>
  One segment of a pattern, \<open>follows\<close> saying whether anything follows it and \<open>seen\<close> listing the names
  of the wildcards before it.
\<close>

definition parse_segment :: "unicode \<Rightarrow> string list \<Rightarrow> bool \<Rightarrow> string \<Rightarrow> segment option" where
  "parse_segment U seen follows seg =
     (case index_byte (CHR ''{'') seg of
        None \<Rightarrow> Some \<lparr>seg_s = pathUnescape seg, seg_wild = False, seg_multi = False\<rparr>
      | Some i \<Rightarrow>
          if i \<noteq> 0 \<or> last seg \<noteq> CHR ''}'' then None
          else let name = butlast (tl seg)
               in if name = ''$'' then (if follows then None else Some \<lparr>seg_s = ''/'', seg_wild = False, seg_multi = False\<rparr>)
                  else let multi = suffix ''...'' name;
                           name' = (if multi then take (length name - 3) name else name)
                       in if multi \<and> follows \<or> name' = [] \<or> \<not> isValidWildcardName U name' \<or> name' \<in> set seen then None
                          else Some \<lparr>seg_s = name', seg_wild = True, seg_multi = multi\<rparr>)"

text \<open>The segments after the first slash; an empty last one is a trailing slash.\<close>

fun parse_segments :: "unicode \<Rightarrow> string list \<Rightarrow> string list \<Rightarrow> segment list option" where
  "parse_segments U seen [] = Some []"
| "parse_segments U seen (seg # segs) =
     (if seg = [] \<and> segs = [] then Some [\<lparr>seg_s = [], seg_wild = True, seg_multi = True\<rparr>]
      else case parse_segment U seen (segs \<noteq> []) seg of
        None \<Rightarrow> None
      | Some t \<Rightarrow> map_option ((#) t) (parse_segments U (if seg_wild t then seg_s t # seen else seen) segs))"

definition blank :: "char \<Rightarrow> bool" where
  "blank c = (c = CHR '' '' \<or> c = CHR 0x09)"

definition parsePattern :: "unicode \<Rightarrow> string \<Rightarrow> pattern option" where
  "parsePattern U s =
     (let (meth, rest) =
        (if \<exists>c \<in> set s. blank c
         then (takeWhile (\<lambda>c. \<not> blank c) s, dropWhile blank (tl (dropWhile (\<lambda>c. \<not> blank c) s)))
         else ([], s))
      in if s = [] \<or> \<not> list_all token_char meth then None
         else case cut (CHR ''/'') rest of
           None \<Rightarrow> None
         | Some (host, path) \<Rightarrow>
             if CHR ''{'' \<in> set host then None
             else if meth \<noteq> [] \<and> meth \<noteq> ''CONNECT'' \<and> CHR ''/'' # path \<noteq> cleanPath (CHR ''/'' # path) then None
             else map_option (\<lambda>segs. \<lparr>pat_method = meth, pat_host = host, pat_segments = segs\<rparr>)
                    (parse_segments U [] (split_on (CHR ''/'') path)))"

section \<open>Matching\<close>

text \<open>
  The routing tree of one pattern is a chain: a node for the host, one for the method, one for each
  segment.  A literal segment is a child under its text, and one with no text is the same child as
  a single wildcard.
\<close>

definition firstSegment :: "string \<Rightarrow> string \<times> string" where
  "firstSegment path =
     (if path = ''/'' then (''/'', [])
      else (pathUnescape (takeWhile (\<lambda>c. c \<noteq> CHR ''/'') (tl path)), dropWhile (\<lambda>c. c \<noteq> CHR ''/'') (tl path)))"

fun matchPath :: "segment list \<Rightarrow> string \<Rightarrow> bool" where
  "matchPath [] path = (path = [])"
| "matchPath (t # ts) path =
     (path \<noteq> [] \<and>
      (seg_multi t \<or>
       (let (seg, rest) = firstSegment path
        in (if seg_wild t \<or> seg_s t = [] then seg \<noteq> ''/'' else seg = seg_s t) \<and> matchPath ts rest)))"

definition match_host :: "pattern \<Rightarrow> string \<Rightarrow> bool" where
  "match_host p host = (pat_host p = [] \<or> pat_host p = host)"

definition match_method :: "pattern \<Rightarrow> string \<Rightarrow> bool" where
  "match_method p m = (pat_method p = [] \<or> pat_method p = m \<or> (m = ''HEAD'' \<and> pat_method p = ''GET''))"

definition tree_match :: "pattern \<Rightarrow> string \<Rightarrow> string \<Rightarrow> string \<Rightarrow> bool" where
  "tree_match p host m path = (match_host p host \<and> match_method p m \<and> matchPath (pat_segments p) path)"

definition exactMatch :: "pattern \<Rightarrow> bool \<Rightarrow> string \<Rightarrow> bool" where
  "exactMatch p found path =
     (found \<and> (\<not> seg_multi (last (pat_segments p))
       \<or> ((path = [] \<or> last path = CHR ''/'') \<and> length (pat_segments p) = length (filter (\<lambda>c. c = CHR ''/'') path))))"

text \<open>Whether the pattern matches, and whether a trailing slash is to be added instead.\<close>

definition matchOrRedirect :: "pattern \<Rightarrow> string \<Rightarrow> string \<Rightarrow> string \<Rightarrow> bool \<times> bool" where
  "matchOrRedirect p host m path =
     (let n = tree_match p host m path
      in (n, \<not> exactMatch p n path \<and> \<not> suffix ''/'' path
             \<and> exactMatch p (tree_match p host m (path @ ''/'')) (path @ ''/'')))"

definition method_mismatch :: "pattern \<Rightarrow> string \<Rightarrow> string \<Rightarrow> bool" where
  "method_mismatch p host path =
     (pat_method p \<noteq> [] \<and> match_host p host
      \<and> (matchPath (pat_segments p) path \<or> (\<not> suffix ''/'' path \<and> matchPath (pat_segments p) (path @ ''/''))))"

text \<open>What of a request, beside its method, the routing looks at.\<close>

record request_line =
  rl_RequestURI :: string
  rl_Host :: string
  rl_URLHost :: string
  rl_Path :: string
  rl_EscapedPath :: string

datatype route = Dispatch | Redirect string | MethodNotAllowed | NotFound | BadRequest | OptionsOK

definition findHandler :: "pattern \<Rightarrow> string \<Rightarrow> request_line \<Rightarrow> route" where
  "findHandler p m r =
     (let ep = rl_EscapedPath r; slash = Redirect (cleanPath (rl_Path r) @ ''/'');
          miss = (\<lambda>host path. if method_mismatch p host path then MethodNotAllowed else NotFound)
      in if m = ''CONNECT'' then
           (if snd (matchOrRedirect p (rl_URLHost r) m ep) then slash
            else if tree_match p (rl_Host r) m ep then Dispatch
            else miss (rl_URLHost r) ep)
         else
           (let host = stripHostPort (rl_Host r); path = cleanPath ep;
                (n, redirect) = matchOrRedirect p host m path
            in if redirect then slash
               else if path \<noteq> ep then Redirect path
               else if n then Dispatch
               else miss host path))"

text \<open>The server answers \<open>OPTIONS *\<close> itself; the multiplexer refuses any other request for \<open>*\<close>.\<close>

definition mux_route :: "pattern \<Rightarrow> string \<Rightarrow> request_line \<Rightarrow> route" where
  "mux_route p m r =
     (if rl_RequestURI r = ''*'' then (if m = ''OPTIONS'' then OptionsOK else BadRequest)
      else findHandler p m r)"

section \<open>A plain path as the pattern\<close>

text \<open>A path that is clean, names neither a method nor a host and has no wildcards or escapes.\<close>

definition path_elems :: "string \<Rightarrow> string list" where
  "path_elems p = split_on (CHR ''/'') (tl p)"

definition plain_path :: "string \<Rightarrow> bool" where
  "plain_path p \<longleftrightarrow> p \<noteq> [] \<and> hd p = CHR ''/'' \<and> (\<forall>e \<in> set (path_elems p). e \<noteq> [] \<and> e \<noteq> ''.'' \<and> e \<noteq> ''..'')
     \<and> (\<forall>c \<in> set p. c \<noteq> CHR ''{'' \<and> c \<noteq> CHR ''%'' \<and> \<not> blank c)"

definition literal :: "string \<Rightarrow> segment" where
  "literal e = \<lparr>seg_s = e, seg_wild = False, seg_multi = False\<rparr>"

lemma literal_simps [simp]: "seg_s (literal e) = e" "\<not> seg_wild (literal e)" "\<not> seg_multi (literal e)"
  by (simp_all add: literal_def)

lemma split_on_end: "split_on c (s @ [c]) = split_on c s @ [[]]"
proof (induction s)
  case (Cons x xs)
  obtain q qs where "split_on c xs = q # qs" by (cases "split_on c xs") auto
  with Cons show ?case by simp
qed simp

lemma path_elems_slash: "[] \<in> set (path_elems (path @ ''/''))"
  by (cases path) (simp_all add: path_elems_def split_on_end)

lemma path_unescape_plain: "CHR ''%'' \<notin> set s \<Longrightarrow> path_unescape s = Some s"
  by (induction s) auto

lemma pathUnescape_plain [simp]: "CHR ''%'' \<notin> set s \<Longrightarrow> pathUnescape s = s"
  by (simp add: pathUnescape_def path_unescape_plain)

lemma split_on_chars: "e \<in> set (split_on c s) \<Longrightarrow> x \<in> set e \<Longrightarrow> x \<in> set s"
proof (induction s arbitrary: e)
  case (Cons y ys)
  obtain q qs where "split_on c ys = q # qs" by (cases "split_on c ys") auto
  with Cons.IH[of q] Cons.IH[of e] Cons.prems show ?case by (auto split: if_splits)
qed simp

lemma parse_segments_plain:
  "\<forall>e \<in> set es. e \<noteq> [] \<and> CHR ''{'' \<notin> set e \<and> CHR ''%'' \<notin> set e \<Longrightarrow> parse_segments U seen es = Some (map literal es)"
proof (induction es arbitrary: seen)
  case (Cons e es)
  then have "index_byte (CHR ''{'') e = None" by (simp add: index_byte_None_iff)
  with Cons show ?case by (simp add: parse_segment_def literal_def)
qed simp

lemma plain_elems:
  assumes "plain_path p" "e \<in> set (path_elems p)"
  shows "e \<noteq> []" "e \<noteq> ''.''" "e \<noteq> ''..''" "CHR ''{'' \<notin> set e" "CHR ''%'' \<notin> set e" "CHR ''/'' \<notin> set e"
proof -
  have c: "c \<in> set p" if "c \<in> set e" for c
    using split_on_chars[of e "CHR ''/''" "tl p" c] that assms by (cases p) (auto simp: path_elems_def plain_path_def)
  show "e \<noteq> []" "e \<noteq> ''.''" "e \<noteq> ''..''" using assms by (auto simp: plain_path_def)
  show "CHR ''{'' \<notin> set e" "CHR ''%'' \<notin> set e" using c assms(1) by (auto simp: plain_path_def)
  show "CHR ''/'' \<notin> set e" using assms(2) split_on_parts by (auto simp: path_elems_def)
qed

lemma parsePattern_plain:
  assumes "plain_path p"
  shows "parsePattern U p = Some \<lparr>pat_method = [], pat_host = [], pat_segments = map literal (path_elems p)\<rparr>"
proof -
  obtain r where p: "p = CHR ''/'' # r" using assms by (cases p) (auto simp: plain_path_def)
  have "\<not> (\<exists>c \<in> set p. blank c)" using assms by (auto simp: plain_path_def)
  moreover have "parse_segments U [] (split_on (CHR ''/'') r) = Some (map literal (path_elems p))"
    using parse_segments_plain[of "path_elems p" U "[]"] plain_elems[OF assms] by (simp add: p path_elems_def)
  ultimately show ?thesis by (simp add: parsePattern_def p)
qed

lemma clean_elems_plain: "\<forall>e \<in> set es. e \<noteq> [] \<and> e \<noteq> ''.'' \<and> e \<noteq> ''..'' \<Longrightarrow> clean_elems kept es = rev kept @ es"
  by (induction es arbitrary: kept) auto

lemma cleanPath_plain:
  assumes "plain_path p"
  shows "cleanPath p = p"
proof -
  obtain r where p: "p = CHR ''/'' # r" using assms by (cases p) (auto simp: plain_path_def)
  have es: "split_on (CHR ''/'') p = [] # path_elems p" by (simp add: p path_elems_def)
  have "clean_elems [] (path_elems p) = path_elems p"
    using clean_elems_plain[of "path_elems p" "[]"] assms by (simp add: plain_path_def)
  then have c: "path_Clean p = p" by (simp add: path_Clean_def es) (simp add: p path_elems_def join_split_on)
  have "last p \<noteq> CHR ''/''"
  proof
    assume "last p = CHR ''/''"
    then have "p = butlast p @ ''/''" by (metis append_butlast_last_id list.discI p)
    with path_elems_slash[of "butlast p"] assms show False by (auto simp: plain_path_def)
  qed
  then show ?thesis using c by (auto simp: cleanPath_def p)
qed

lemma split_on_takeWhile:
  "split_on c s = takeWhile (\<lambda>x. x \<noteq> c) s # (case dropWhile (\<lambda>x. x \<noteq> c) s of [] \<Rightarrow> [] | _ # r \<Rightarrow> split_on c r)"
  by (induction s) auto

lemma matchPath_literals:
  "es \<noteq> [] \<Longrightarrow> \<forall>e \<in> set es. e \<noteq> [] \<and> CHR ''/'' \<notin> set e \<Longrightarrow>
   matchPath (map literal es) path \<longleftrightarrow> path \<noteq> [] \<and> map pathUnescape (path_elems path) = es"
proof (induction es arbitrary: path)
  case (Cons e es)
  show ?case
  proof (cases "path = [] \<or> path = ''/''")
    case True
    with Cons.prems show ?thesis by (auto simp: firstSegment_def path_elems_def)
  next
    case False
    then have f: "firstSegment path = (pathUnescape (takeWhile (\<lambda>c. c \<noteq> CHR ''/'') (tl path)), dropWhile (\<lambda>c. c \<noteq> CHR ''/'') (tl path))"
      by (simp add: firstSegment_def)
    have m: "matchPath (map literal es) (dropWhile (\<lambda>c. c \<noteq> CHR ''/'') (tl path)) \<longleftrightarrow>
        map pathUnescape (case dropWhile (\<lambda>c. c \<noteq> CHR ''/'') (tl path) of [] \<Rightarrow> [] | _ # r \<Rightarrow> split_on (CHR ''/'') r) = es"
    proof (cases "es = []")
      case True
      then show ?thesis by (simp split: list.split del: dropWhile_eq_Nil_conv)
    next
      case False
      with Cons.IH[of "dropWhile (\<lambda>c. c \<noteq> CHR ''/'') (tl path)"] Cons.prems(2) show ?thesis
        by (auto simp: path_elems_def split: list.splits simp del: dropWhile_eq_Nil_conv)
    qed
    have "path_elems path = takeWhile (\<lambda>c. c \<noteq> CHR ''/'') (tl path)
        # (case dropWhile (\<lambda>c. c \<noteq> CHR ''/'') (tl path) of [] \<Rightarrow> [] | _ # r \<Rightarrow> split_on (CHR ''/'') r)"
      unfolding path_elems_def by (rule split_on_takeWhile)
    with False f m Cons.prems show ?thesis by auto
  qed
qed simp


lemma plain_no_redirect:
  assumes "es \<noteq> []" "\<forall>e \<in> set es. e \<noteq> [] \<and> CHR ''/'' \<notin> set e" "pat_segments p = map literal es"
  shows "snd (matchOrRedirect p host m path) = False"
proof -
  have "[] \<in> set (map pathUnescape (path_elems (path @ ''/'')))"
    using path_elems_slash[of path] by (force simp: image_iff)
  with assms(2) have "map pathUnescape (path_elems (path @ ''/'')) \<noteq> es" by metis
  then have "\<not> tree_match p host m (path @ ''/'')"
    using matchPath_literals[OF assms(1,2)] assms(3) by (simp add: tree_match_def)
  then show ?thesis by (simp add: matchOrRedirect_def exactMatch_def Let_def)
qed

text \<open>Where a request goes when the pattern is a plain path.\<close>

lemma mux_route_plain:
  assumes "plain_path s" "parsePattern U s = Some p" "rl_RequestURI r \<noteq> ''*''"
  shows "mux_route p m r =
     (if m \<noteq> ''CONNECT'' \<and> cleanPath (rl_EscapedPath r) \<noteq> rl_EscapedPath r then Redirect (cleanPath (rl_EscapedPath r))
      else if rl_EscapedPath r \<noteq> [] \<and> map pathUnescape (path_elems (rl_EscapedPath r)) = path_elems s then Dispatch
      else NotFound)"
proof -
  have p: "p = \<lparr>pat_method = [], pat_host = [], pat_segments = map literal (path_elems s)\<rparr>"
    using assms(2) parsePattern_plain[OF assms(1), of U] by simp
  have e: "path_elems s \<noteq> []" "\<forall>e \<in> set (path_elems s). e \<noteq> [] \<and> CHR ''/'' \<notin> set e"
    using plain_elems[OF assms(1)] by (auto simp: path_elems_def)
  have t: "tree_match p host m path \<longleftrightarrow> path \<noteq> [] \<and> map pathUnescape (path_elems path) = path_elems s" for host m path
    using matchPath_literals[OF e] by (simp add: tree_match_def match_host_def match_method_def p)
  have n: "matchOrRedirect p host m path = (tree_match p host m path, False)" for host m path
    using plain_no_redirect[OF e, of p host m path] by (simp add: p matchOrRedirect_def Let_def)
  have "\<not> method_mismatch p host path" for host path by (simp add: method_mismatch_def p)
  then show ?thesis using assms(3) by (simp add: mux_route_def findHandler_def Let_def n t)
qed

lemma plain_path_unescaped: "plain_path s \<Longrightarrow> map pathUnescape (path_elems s) = path_elems s"
  by (simp add: map_idI plain_elems(5))

end
