(* ===== verification/Server.thy ===== *)
theory Server
  imports ExchangeSpec Locking GoFlag GoMux
begin

text \<open>
  The server \<open>kerbexchanged\<close> (\<open>src/cmd/kerbexchanged/main.go\<close>): from its command line to the service
  and the route it serves.  \<open>log.Fatal\<close> ends the program and is an error here; listening is left
  out, and what the running server does is to handle requests one after another or interleaved
  on the cache it started with.
\<close>

record server_flags =
  fl_addr :: string
  fl_keytab :: string
  fl_realm :: string
  fl_jwksURL :: string
  fl_domainSID :: string
  fl_tokenPath :: string
  fl_maxLifetime :: duration

text \<open>The flags' defaults.\<close>

definition default_flags :: server_flags where
  "default_flags = \<lparr>fl_addr = '':8080'', fl_keytab = [], fl_realm = [], fl_jwksURL = [], fl_domainSID = [],
     fl_tokenPath = ''/token'', fl_maxLifetime = 5 * 60 * 1000000000\<rparr>"

text \<open>The flags by name, with what setting them does.\<close>

definition server_formal :: "(string \<times> server_flags setter) list" where
  "server_formal =
     [(''addr'', String_flag fl_addr_update), (''keytab'', String_flag fl_keytab_update),
      (''realm'', String_flag fl_realm_update), (''jwks-url'', String_flag fl_jwksURL_update),
      (''domain-sid'', String_flag fl_domainSID_update), (''token-path'', String_flag fl_tokenPath_update),
      (''max-lifetime'', Duration_flag fl_maxLifetime_update)]"

record server =
  srv_Addr :: string
  srv_pattern :: string
  srv_service :: "MemoryCache Service"
  srv_cache :: MemoryCache
  srv_ReadHeaderTimeout :: duration

definition server_main :: "krb5 \<Rightarrow> jwx \<Rightarrow> world \<Rightarrow> server_flags \<Rightarrow> server result" where
  "server_main K J w f =
     (if fl_keytab f = [] then Inl (errors_New ''kerbexchanged: -keytab is required'')
      else if fl_realm f = [] then Inl (errors_New ''kerbexchanged: -realm is required'')
      else if fl_jwksURL f = [] then Inl (errors_New ''kerbexchanged: -jwks-url is required'')
      else if fl_domainSID f = [] then Inl (errors_New ''kerbexchanged: -domain-sid is required'')
      else
      attempt (on_err (fatal ''kerbexchanged: loading keytab: '') (LoadKeytabSource K w (fl_keytab f) (fl_realm f))) (\<lambda>ks.
      attempt (on_err (fatal ''kerbexchanged: creating PAC builder: '') (NewSyntheticPACBuilder (fl_domainSID f))) (\<lambda>pb.
      attempt (on_err (fatal ''kerbexchanged: creating JWKS validator: '') (NewJWKSValidator J w (fl_jwksURL f) [])) (\<lambda>v.
      let svc = \<lparr>sv_Validator = JWKSValidator_Validate J v,
                 sv_Resolver = StaticResolver_Resolve K \<lparr>DefaultRealm = fl_realm f\<rparr>,
                 sv_Minter = DirectMinter_Mint K
                   (WithPACBuilder (NewDirectMinter (keytab_keys K ks) (fl_realm f)) (SyntheticPACBuilder_Build K pb)),
                 sv_Cache = Some \<lparr>cache_Get = MemoryCache_Get, cache_Put = MemoryCache_Put\<rparr>,
                 sv_MaxLifetime = fl_maxLifetime f\<rparr>
      in Inr \<lparr>srv_Addr = fl_addr f, srv_pattern = fl_tokenPath f, srv_service = svc,
              srv_cache = NewMemoryCache, srv_ReadHeaderTimeout = 10 * 1000000000\<rparr>))))"

text \<open>One request on the served route.\<close>

definition serve :: "texlib \<Rightarrow> krb5 \<Rightarrow> server \<Rightarrow> MemoryCache \<Rightarrow> world \<Rightarrow> http_request \<Rightarrow> reply \<times> MemoryCache" where
  "serve X K srv = NewHandler X (Service_Exchange K (srv_service srv))"

text \<open>
  The process: it exits on a bad command line, ends with \<open>log.Fatal\<close>, or panics when the multiplexer
  refuses the token path; otherwise it serves, with the parsed pattern.
\<close>

datatype process_end = Exited flag_stop | Fatal goerror | PatternPanic string

definition kerbexchanged :: "krb5 \<Rightarrow> jwx \<Rightarrow> unicode \<Rightarrow> world \<Rightarrow> string list \<Rightarrow> process_end + server \<times> pattern" where
  "kerbexchanged K J U w args =
     attempt (on_err Exited (flag_Parse server_formal default_flags args)) (\<lambda>(f, _).
     attempt (on_err Fatal (server_main K J w f)) (\<lambda>srv.
     case parsePattern U (srv_pattern srv) of
       None \<Rightarrow> Inl (PatternPanic (srv_pattern srv))
     | Some p \<Rightarrow> Inr (srv, p)))"

text \<open>One request to the process: the multiplexer hands it to the handler or answers itself.\<close>

datatype served = Written reply | Refused route

definition serve_http ::
    "texlib \<Rightarrow> krb5 \<Rightarrow> server \<times> pattern \<Rightarrow> MemoryCache \<Rightarrow> world \<Rightarrow> request_line \<Rightarrow> http_request \<Rightarrow> served \<times> MemoryCache" where
  "serve_http X K S c w l r =
     (case mux_route (snd S) (rq_method r) l of
        Dispatch \<Rightarrow> (let (y, c') = serve X K (fst S) c w r in (Written y, c'))
      | refused \<Rightarrow> (Refused refused, c))"

section \<open>The command line\<close>

lemma server_names: "\<forall>n \<in> fst ` set server_formal. flag_name n"
  by (simp add: server_formal_def flag_name_def)

lemmas server_setters = server_formal_def String_flag_def Duration_flag_def

lemma default_values:
  "fl_addr default_flags = '':8080''" "fl_keytab default_flags = []" "fl_realm default_flags = []" "fl_jwksURL default_flags = []"
  "fl_domainSID default_flags = []" "fl_tokenPath default_flags = ''/token''" "fl_maxLifetime default_flags = 300000000000"
  by (simp_all add: default_flags_def)

text \<open>Each flag sets its own field and no other.\<close>

interpretation addr: flag_field server_formal "''addr''" fl_addr "\<lambda>v. v"
  by unfold_locales (auto simp: server_setters split: option.splits)

interpretation keytab: flag_field server_formal "''keytab''" fl_keytab "\<lambda>v. v"
  by unfold_locales (auto simp: server_setters split: option.splits)

interpretation realm: flag_field server_formal "''realm''" fl_realm "\<lambda>v. v"
  by unfold_locales (auto simp: server_setters split: option.splits)

interpretation jwks_url: flag_field server_formal "''jwks-url''" fl_jwksURL "\<lambda>v. v"
  by unfold_locales (auto simp: server_setters split: option.splits)

interpretation domain_sid: flag_field server_formal "''domain-sid''" fl_domainSID "\<lambda>v. v"
  by unfold_locales (auto simp: server_setters split: option.splits)

interpretation token_path: flag_field server_formal "''token-path''" fl_tokenPath "\<lambda>v. v"
  by unfold_locales (auto simp: server_setters split: option.splits)

interpretation max_lifetime: flag_field server_formal "''max-lifetime''" fl_maxLifetime "\<lambda>v. the (ParseDuration v)"
  by unfold_locales (auto simp: server_setters split: option.splits)

definition flag_value_ok :: "string \<Rightarrow> string \<Rightarrow> bool" where
  "flag_value_ok n v = (n = ''max-lifetime'' \<longrightarrow> ParseDuration v \<noteq> None)"

lemma server_settings_total:
  "\<forall>t \<in> set ts. set_name t \<in> fst ` set server_formal \<Longrightarrow>
   (\<exists>f'. apply_settings server_formal f ts = Inr f') = (\<forall>t \<in> set ts. flag_value_ok (set_name t) (set_value t))"
  by (rule apply_settings_total)
    (auto simp: server_setters flag_value_ok_def split: option.splits)

lemma kerbexchanged_Inr:
  "kerbexchanged K J U w args = Inr S \<longleftrightarrow>
     (\<exists>f rest. flag_Parse server_formal default_flags args = Inr (f, rest) \<and> server_main K J w f = Inr (fst S)
        \<and> parsePattern U (fl_tokenPath f) = Some (snd S))"
proof -
  have "srv_pattern srv = fl_tokenPath f" if "server_main K J w f = Inr srv" for srv f
    using that by (auto simp: server_main_def attempt_eq_Inr Let_def split: if_splits)
  then show ?thesis by (cases S) (fastforce simp: kerbexchanged_def result_simps split: option.splits)
qed

section \<open>Starting\<close>

definition server_minter :: "krb5 \<Rightarrow> server_flags \<Rightarrow> handle \<Rightarrow> SyntheticPACBuilder \<Rightarrow> DirectMinter" where
  "server_minter K f h pb = pac_minter K (NewKeytabSource h (fl_realm f)) (fl_realm f) pb"

lemma server_main_Inr:
  "server_main K J w f = Inr srv \<longleftrightarrow>
     fl_keytab f \<noteq> [] \<and> fl_realm f \<noteq> [] \<and> fl_jwksURL f \<noteq> [] \<and> fl_domainSID f \<noteq> []
     \<and> (\<exists>h pb v. keytab_Load K w (fl_keytab f) = Inr h \<and> NewSyntheticPACBuilder (fl_domainSID f) = Inr pb
          \<and> NewJWKSValidator J w (fl_jwksURL f) [] = Inr v
          \<and> srv = \<lparr>srv_Addr = fl_addr f, srv_pattern = fl_tokenPath f,
                   srv_service = direct_service K (JWKSValidator_Validate J v) (fl_realm f) (server_minter K f h pb) (fl_maxLifetime f),
                   srv_cache = NewMemoryCache, srv_ReadHeaderTimeout = 10 * 1000000000\<rparr>)"
  by (auto simp: server_main_def attempt_eq_Inr on_err_eq_Inr LoadKeytabSource_Inr Let_def
      direct_service_def memory_ops_def server_minter_def pac_minter_def)

section \<open>Serving\<close>

text \<open>The cache states the server can reach by answering requests, one after another.\<close>

inductive serve_reachable :: "texlib \<Rightarrow> krb5 \<Rightarrow> server \<Rightarrow> MemoryCache \<Rightarrow> bool" for X K srv where
  boot: "serve_reachable X K srv (srv_cache srv)"
| request: "serve_reachable X K srv c \<Longrightarrow> serve_reachable X K srv (snd (serve X K srv c w r))"

lemma serve_reachable_cache:
  assumes "serve_reachable X K srv c" "srv_cache srv = NewMemoryCache"
    and "srv_service srv = direct_service K validate realm m d"
  shows "cache_reachable K (srv_service srv) NewMemoryCache c"
  using assms
proof (induction rule: serve_reachable.induct)
  case boot
  then show ?case by (simp add: cache_reachable.start)
next
  case (request c w r)
  then show ?case using svc.handler_inv[of K validate realm m d c X w r] by (simp add: serve_def)
qed

text \<open>The same behind the multiplexer.\<close>

inductive http_reachable :: "texlib \<Rightarrow> krb5 \<Rightarrow> server \<times> pattern \<Rightarrow> MemoryCache \<Rightarrow> bool" for X K S where
  listening: "http_reachable X K S (srv_cache (fst S))"
| incoming: "http_reachable X K S c \<Longrightarrow> http_reachable X K S (snd (serve_http X K S c w l r))"

lemma serve_http_cases:
  "serve_http X K S c w l r =
     (if mux_route (snd S) (rq_method r) l = Dispatch then (Written (fst (serve X K (fst S) c w r)), snd (serve X K (fst S) c w r))
      else (Refused (mux_route (snd S) (rq_method r) l), c))"
  by (cases "mux_route (snd S) (rq_method r) l") (simp_all add: serve_http_def split_beta Let_def)

lemma http_reachable_serve: "http_reachable X K S c \<Longrightarrow> serve_reachable X K (fst S) c"
  by (induction rule: http_reachable.induct) (auto simp: serve_http_cases intro: serve_reachable.intros)

text \<open>Whatever is served carries the representation it is served as.\<close>

lemma issue_representation:
  assumes "ccache_header K" "exchange_issue K s w i req = Inr cred"
  shows "\<exists>raw. representation (Output req) cred = Inr raw"
proof -
  from assms(2) obtain mt where "MintedTicket_Credential K w mt (Output req) = Inr cred"
    by (auto simp: exchange_issue_def attempt_eq_Inr Let_def split: prod.splits)
  from Credential_nonempty[OF assms(1) this] show ?thesis by (simp add: representation_def)
qed

lemma exchange_representation:
  assumes "ccache_header K" "cache_reachable K (direct_service K validate realm m d) NewMemoryCache c" "wf_spn (Target req)"
    and "Service_Exchange K (direct_service K validate realm m d) c w req = (Inr cred, c')"
  shows "\<exists>raw. representation (Output req) cred = Inr raw"
  using ds.exchange_source[OF assms(2,4,3)] issue_representation[OF assms(1)]
  by (metis ds.issued_for_source[OF _ assms(3)])

section \<open>Serving concurrently\<close>

text \<open>
  The server runs every request on a goroutine of its own.  A request that is refused before the
  exchange touches no shared state; the others run their exchanges as the goroutines of \<open>Locking\<close>, and
  the handler of such a request goes on with what the exchange returned.
\<close>

definition translated :: "texlib \<Rightarrow> world \<times> http_request \<Rightarrow> (world \<times> ExchangeRequest) option" where
  "translated X = (\<lambda>(w, r).
     case ParseTokenExchangeRequest X r of
       Inl e \<Rightarrow> None
     | Inr wire \<Rightarrow> (case ExchangeRequestFromWire (GrantTypeTokenExchange X) wire of Inl e \<Rightarrow> None | Inr req \<Rightarrow> Some (w, req)))"

lemma translated_Some:
  "translated X (w, r) = Some x \<longleftrightarrow> (\<exists>wire req. ParseTokenExchangeRequest X r = Inr wire
     \<and> ExchangeRequestFromWire (GrantTypeTokenExchange X) wire = Inr req \<and> x = (w, req))"
  by (auto simp: translated_def split: sum.splits)

lemma translated_threads:
  assumes "(sys_step K s)\<^sup>*\<^sup>* (c0, map start_thread (List.map_filter (translated X) rs)) (c, ts)" "t \<in> set ts"
  obtains r wire where "(th_world t, r) \<in> set rs" "ParseTokenExchangeRequest X r = Inr wire"
    "ExchangeRequestFromWire (GrantTypeTokenExchange X) wire = Inr (th_req t)"
proof -
  from run_frame[OF assms(1)] assms(2) have "(th_world t, th_req t) \<in> set (List.map_filter (translated X) rs)"
    by (metis (no_types, lifting) image_eqI list.set_map)
  with that show thesis by (auto simp: in_set_map_filter translated_Some)
qed

lemma handler_returning:
  assumes "ParseTokenExchangeRequest X r = Inr wire" "ExchangeRequestFromWire (GrantTypeTokenExchange X) wire = Inr req"
    and "fst (NewHandler X (returning res) () w r) = ReplyToken h resp"
  obtains cred raw where "res = Inr cred" "representation (Output req) cred = Inr raw" "DecodeString (tr_AccessToken resp) = Some raw"
  using assms(3)
proof (rule handler_token)
  fix wire' req' cred c' raw
  assume a: "ParseTokenExchangeRequest X r = Inr wire'"
    "ExchangeRequestFromWire (GrantTypeTokenExchange X) wire' = Inr req'" "returning res () w req' = (Inr cred, c')"
    "representation (Output req') cred = Inr raw"
    "resp = \<lparr>tr_AccessToken = EncodeToString raw, tr_IssuedTokenType = OutputType_TokenType (Output req'),
       tr_TokenType = ''N_A'', tr_ExpiresIn = duration_seconds (Until (now_reply w) (Cred_Expiry cred))\<rparr>"
  with assms(1,2) that show thesis by (auto simp: returning_def DecodeString_EncodeToString)
qed

section \<open>Properties\<close>

text \<open>
  When the server starts: the four required flags are set, the keytab loads, the domain SID is one
  \<open>parseDomainSID\<close> accepts, and the JWKS document can be registered and fetched.
\<close>

lemma server_main_starts_iff:
  "(\<exists>srv. server_main K J w f = Inr srv) \<longleftrightarrow>
     fl_keytab f \<noteq> [] \<and> fl_realm f \<noteq> [] \<and> fl_jwksURL f \<noteq> [] \<and> fl_domainSID f \<noteq> []
     \<and> (\<exists>h. keytab_Load K w (fl_keytab f) = Inr h) \<and> (\<exists>sid. parseDomainSID (fl_domainSID f) = Inr sid)
     \<and> Cache_Register J w (fl_jwksURL f) = Inr () \<and> (\<exists>s. Cache_Refresh J w (fl_jwksURL f) = Inr s)"
  by (auto simp: server_main_Inr NewSyntheticPACBuilder_def NewJWKSValidator_def attempt_eq_Inr on_err_eq_Inr Let_def)

text \<open>
  C11.  The running server.  After any sequence of requests to a process started from its command
  line, a token the server writes answers a request the multiplexer dispatched to the handler, and is
  the base64 text of a credential for the subject of the access token in this very request, which the
  JWKS validator accepted, for the service this request names, in the representation it asks for.  The
  bytes are always those of a minted ticket in that representation; that the ticket is for this subject
  and this service is claimed of requests whose own subject and principal contain no NUL byte, the
  separator of cache keys (whatever other requests contained).
\<close>

theorem Server_tokens_fit:
  assumes "kerbexchanged K J U w0 args = Inr S" "http_reachable X K S c"
    and "fst (serve_http X K S c w l r) = Written (ReplyToken h resp)"
  shows "\<exists>f rest wire req v i cred raw. flag_Parse server_formal default_flags args = Inr (f, rest)
      \<and> mux_route (snd S) (rq_method r) l = Dispatch \<and> ParseTokenExchangeRequest X r = Inr wire
      \<and> ExchangeRequestFromWire (GrantTypeTokenExchange X) wire = Inr req
      \<and> NewJWKSValidator J w0 (fl_jwksURL f) [] = Inr v \<and> JWKSValidator_Validate J v w (SubjectToken wire) = Inr i
      \<and> carries K (srv_service (fst S)) (Output req) cred
      \<and> (separable (Subject i) (Target req)
         \<longrightarrow> fits K (srv_service (fst S)) (fl_realm f) (Subject i) (Target req) (Output req) cred)
      \<and> representation (Output req) cred = Inr raw \<and> DecodeString (tr_AccessToken resp) = Some raw"
proof -
  from assms(1) obtain f rest where f: "flag_Parse server_formal default_flags args = Inr (f, rest)"
    and m: "server_main K J w0 f = Inr (fst S)" by (auto simp: kerbexchanged_Inr)
  from m obtain hk pb v where v: "NewJWKSValidator J w0 (fl_jwksURL f) [] = Inr v"
    and s: "srv_service (fst S) = direct_service K (JWKSValidator_Validate J v) (fl_realm f) (server_minter K f hk pb) (fl_maxLifetime f)"
    and c0: "srv_cache (fst S) = NewMemoryCache"
    unfolding server_main_Inr by auto
  from assms(3) have d: "mux_route (snd S) (rq_method r) l = Dispatch" and t: "fst (serve X K (fst S) c w r) = ReplyToken h resp"
    by (auto simp: serve_http_cases split: if_splits)
  from svc.handler_token_ok[OF serve_reachable_cache[OF http_reachable_serve[OF assms(2)] c0 s, unfolded s] t[unfolded serve_def s]]
  show ?thesis using f d v unfolding s by (fastforce dest: FromWire_AccessToken)
qed

text \<open>
  C12.  The route.  When the token path is a plain path (clean, with no wildcard, escape, method or
  host), the server answers a request, whatever its method and host, exactly as follows: a path that
  is not clean is redirected to the clean one, a path whose unescaped elements are those of the token
  path reaches the handler, any other is not found; only the handler touches the cache.
\<close>

theorem Server_route:
  assumes "kerbexchanged K J U w0 args = Inr S" "flag_Parse server_formal default_flags args = Inr (f, rest)"
    and "plain_path (fl_tokenPath f)" "rl_RequestURI l \<noteq> ''*''"
  shows "serve_http X K S c w l r =
     (if rq_method r \<noteq> ''CONNECT'' \<and> cleanPath (rl_EscapedPath l) \<noteq> rl_EscapedPath l
      then (Refused (Redirect (cleanPath (rl_EscapedPath l))), c)
      else if rl_EscapedPath l \<noteq> [] \<and> map pathUnescape (path_elems (rl_EscapedPath l)) = path_elems (fl_tokenPath f)
      then (Written (fst (serve X K (fst S) c w r)), snd (serve X K (fst S) c w r))
      else (Refused NotFound, c))"
proof -
  from assms(1,2) have "parsePattern U (fl_tokenPath f) = Some (snd S)" by (auto simp: kerbexchanged_Inr)
  from mux_route_plain[OF assms(3) this assms(4)] show ?thesis by (simp add: serve_http_cases)
qed

text \<open>
  C26.  The command line.  However the settings of the server's flags are written (one dash or two, the
  value after an equals sign or as the next argument, whatever the value contains) and in whatever
  order, each flag has the last value given for it, or its default; the only value that is refused is
  a maximum lifetime that is not a duration.
\<close>

theorem Command_line_last_wins:
  assumes "\<forall>t \<in> set ts. set_name t \<in> fst ` set server_formal"
  shows "case flag_Parse server_formal default_flags (concat (map render_setting ts)) of
      Inl e \<Rightarrow> \<exists>t \<in> set ts. set_name t = ''max-lifetime'' \<and> ParseDuration (set_value t) = None
    | Inr (f, rest) \<Rightarrow> rest = []
        \<and> (\<forall>t \<in> set ts. set_name t = ''max-lifetime'' \<longrightarrow> ParseDuration (set_value t) \<noteq> None)
        \<and> fl_addr f = (case last_setting ''addr'' ts of None \<Rightarrow> '':8080'' | Some v \<Rightarrow> v)
        \<and> fl_keytab f = (case last_setting ''keytab'' ts of None \<Rightarrow> [] | Some v \<Rightarrow> v)
        \<and> fl_realm f = (case last_setting ''realm'' ts of None \<Rightarrow> [] | Some v \<Rightarrow> v)
        \<and> fl_jwksURL f = (case last_setting ''jwks-url'' ts of None \<Rightarrow> [] | Some v \<Rightarrow> v)
        \<and> fl_domainSID f = (case last_setting ''domain-sid'' ts of None \<Rightarrow> [] | Some v \<Rightarrow> v)
        \<and> fl_tokenPath f = (case last_setting ''token-path'' ts of None \<Rightarrow> ''/token'' | Some v \<Rightarrow> v)
        \<and> fl_maxLifetime f = (case last_setting ''max-lifetime'' ts of None \<Rightarrow> 300000000000 | Some v \<Rightarrow> the (ParseDuration v))"
proof -
  have p: "flag_Parse server_formal default_flags (concat (map render_setting ts))
      = attempt (apply_settings server_formal default_flags ts) (\<lambda>f. Inr (f, []))"
    using flag_Parse_settings[OF assms server_names, of default_flags "[]"] by simp
  note total = server_settings_total[OF assms, of default_flags, unfolded flag_value_ok_def]
  show ?thesis
  proof (cases "apply_settings server_formal default_flags ts")
    case (Inl e)
    with total show ?thesis by (auto simp: p)
  next
    case (Inr f)
    note w = addr.last_wins[OF assms Inr] keytab.last_wins[OF assms Inr] realm.last_wins[OF assms Inr]
      jwks_url.last_wins[OF assms Inr] domain_sid.last_wins[OF assms Inr] token_path.last_wins[OF assms Inr]
      max_lifetime.last_wins[OF assms Inr]
    from total Inr have "\<forall>t \<in> set ts. set_name t = ''max-lifetime'' \<longrightarrow> ParseDuration (set_value t) \<noteq> None" by auto
    then show ?thesis by (simp add: p Inr w[unfolded default_values])
  qed
qed

text \<open>
  C4.  The same for requests served concurrently: however the statements of the exchanges of any
  number of requests, the locking of the cache included, interleave on the server's cache, a token the
  handler of one of them writes is the text of a credential whose bytes are those of a minted ticket in
  this request's own representation; and if this request's own subject and principal contain no NUL
  byte, it is for the subject of this request's own token and for its own service.
\<close>

theorem Concurrent_server_tokens_fit:
  assumes "server_main K J w0 f = Inr srv"
    and "(go_sys K (srv_service srv))\<^sup>*\<^sup>* (unlocked (srv_cache srv), map start_goroutine (List.map_filter (translated X) rs)) (m, gs)"
    and "g \<in> set gs" "g_phase g = Returned res"
  shows "\<exists>r wire. (g_world g, r) \<in> set rs \<and> ParseTokenExchangeRequest X r = Inr wire
      \<and> ExchangeRequestFromWire (GrantTypeTokenExchange X) wire = Inr (g_req g)
      \<and> (\<forall>h resp. fst (NewHandler X (returning res) () (g_world g) r) = ReplyToken h resp \<longrightarrow>
          (\<exists>i cred raw. res = Inr cred \<and> sv_Validator (srv_service srv) (g_world g) (SubjectToken wire) = Inr i
             \<and> carries K (srv_service srv) (Output (g_req g)) cred
             \<and> (separable (Subject i) (Target (g_req g))
                \<longrightarrow> fits K (srv_service srv) (fl_realm f) (Subject i) (Target (g_req g)) (Output (g_req g)) cred)
             \<and> representation (Output (g_req g)) cred = Inr raw \<and> DecodeString (tr_AccessToken resp) = Some raw))"
proof -
  let ?qs = "List.map_filter (translated X) rs"
  from assms(1) obtain hk pb v where
    s: "srv_service srv = direct_service K (JWKSValidator_Validate J v) (fl_realm f) (server_minter K f hk pb) (fl_maxLifetime f)"
    and c0: "srv_cache srv = NewMemoryCache"
    by (auto simp: server_main_Inr)
  have wf: "\<forall>(w, req) \<in> set ?qs. wf_spn (Target req)"
    using FromWire_wf by (auto simp: in_set_map_filter translated_Some)
  from lk.run_refines[OF assms(2)[unfolded s c0] start_inv, unfolded abs_start]
  have run: "(sys_step K (srv_service srv))\<^sup>*\<^sup>* (NewMemoryCache, map start_thread ?qs) (guarded m, map abs_thread gs)"
    by (simp add: s abs_state_def)
  have t: "abs_thread g \<in> set (map abs_thread gs)" using assms(3) by simp
  from run t obtain r wire where q: "(g_world g, r) \<in> set rs" "ParseTokenExchangeRequest X r = Inr wire"
    "ExchangeRequestFromWire (GrantTypeTokenExchange X) wire = Inr (g_req g)"
    by (rule translated_threads) (simp add: abs_thread_def)
  have "\<exists>i cred raw. res = Inr cred \<and> sv_Validator (srv_service srv) (g_world g) (SubjectToken wire) = Inr i
       \<and> carries K (srv_service srv) (Output (g_req g)) cred
       \<and> (separable (Subject i) (Target (g_req g))
          \<longrightarrow> fits K (srv_service srv) (fl_realm f) (Subject i) (Target (g_req g)) (Output (g_req g)) cred)
       \<and> representation (Output (g_req g)) cred = Inr raw \<and> DecodeString (tr_AccessToken resp) = Some raw"
    if "fst (NewHandler X (returning res) () (g_world g) r) = ReplyToken h resp" for h resp
    using q(2,3) that
  proof (rule handler_returning)
    fix cred raw
    assume c: "res = Inr cred" and o: "representation (Output (g_req g)) cred = Inr raw" "DecodeString (tr_AccessToken resp) = Some raw"
    have "th_phase (abs_thread g) = Finished (Inr cred)" using assms(4) c by (simp add: abs_thread_def)
    from ds.interleaved_result[OF run[unfolded s] wf t this] c o FromWire_AccessToken[OF q(3)] show ?thesis
      unfolding s by (auto simp: abs_thread_def)
  qed
  with q show ?thesis by blast
qed

text \<open>
  C3.  The cache cannot be observed, except that a credential is served again.  The replies of a
  server to any sequence of requests, one after another on a clock that does not run backwards,
  are those of a server that remembers the credential last issued for each subject, principal and
  output type, never forgets one, and issues a new one exactly when there is none or it has
  expired.  This is claimed of sequences in which no accepted token has a subject with a NUL byte (such
  subjects can share a cache key).
\<close>

theorem Server_refines_spec:
  assumes "server_main K J w0 f = Inr srv" "sorted (map (\<lambda>(w, r). ns (now_get w)) rs)"
    and "\<forall>(w, r) \<in> set rs. \<forall>wire req i. ParseTokenExchangeRequest X r = Inr wire
      \<and> ExchangeRequestFromWire (GrantTypeTokenExchange X) wire = Inr req
      \<and> sv_Validator (srv_service srv) w (AccessToken req) = Inr i \<longrightarrow> CHR 0x00 \<notin> set (Subject i)"
  shows "outputs (\<lambda>c (w, r). serve X K srv c w r) (srv_cache srv) rs
    = outputs (\<lambda>a (w, r). NewHandler X (spec_exchange K (srv_service srv)) a w r) Map.empty rs"
proof -
  from assms(1) obtain hk pb v where
    s: "srv_service srv = direct_service K (JWKSValidator_Validate J v) (fl_realm f) (server_minter K f hk pb) (fl_maxLifetime f)"
    and c0: "srv_cache srv = NewMemoryCache"
    by (auto simp: server_main_Inr)
  have ok: "list_all (handled_ok X (nul_free (srv_service srv))) rs"
    using assms(3) by (fastforce simp: list_all_iff handled_ok_def nul_free_def split: sum.split)
  let ?t = "case rs of [] \<Rightarrow> 0 | (w, r) # _ \<Rightarrow> ns (now_get w)"
  have sorted: "sorted (?t # map (\<lambda>(w, r). ns (now_get w)) rs)" using assms(2) by (auto split: list.split)
  have "remembers ?t Map.empty (store NewMemoryCache)" by (simp add: remembers_def NewMemoryCache_def)
  from ref.handler.outputs_agree[OF this sorted ok[unfolded s]] show ?thesis
    unfolding serve_def s c0 .
qed

text \<open>A valid token is answered behind the handler.\<close>

lemma client_of_service:
  assumes "server_main K J w0 f = Inr srv" "serve_reachable X K srv c" "ccache_header K" "texlib_ok X"
    and "connected X T cl (Service_Exchange K (srv_service srv)) c ws"
    and "accessToken \<noteq> []" "wf_spn target" "out \<in> {OutputCCache, OutputAPReq}"
    and "sv_Validator (srv_service srv) ws accessToken = Inr i"
    and "IsZero (Expiry i) \<or> ns (now_issue ws) < ns (Expiry i)" "0 < fl_maxLifetime f" "0 \<le> ns (now_issue ws)"
    and "DefaultClaimsMapper_Map \<lparr>GroupsClaim = []\<rparr> i = Inr p" "keytab_Load K w0 (fl_keytab f) = Inr h"
    and "KeytabSource_ServiceKey K (NewKeytabSource h (fl_realm f)) (defaulted (fl_realm f) target) (AES256_CTS_HMAC_SHA1_96 K)
       = Inr (skey, kvno)"
    and "KeytabSource_KDCSigningKey K (NewKeytabSource h (fl_realm f)) (AES256_CTS_HMAC_SHA1_96 K) = Inr (kdcKey, kv)"
    and "NewSyntheticPACBuilder (fl_domainSID f) = Inr pb"
    and "issue_calls K ws (server_minter K f h pb) (defaulted (fl_realm f) target)
       (exchange_opts K (fl_realm f) (fl_maxLifetime f) ws i) skey kvno kdcKey out"
  shows "\<exists>got raw. Client_Exchange X T cl w now accessToken target out = Inr got
      \<and> representation out got = Inr raw \<and> Cred_Target got = target"
proof -
  from assms(1,14,17) obtain v where
    s: "srv_service srv = direct_service K (JWKSValidator_Validate J v) (fl_realm f) (server_minter K f h pb) (fl_maxLifetime f)"
    and c0: "srv_cache srv = NewMemoryCache"
    by (auto simp: server_main_Inr)
  have pb: "PB_Mapper pb = None" "PB_GroupsClaim pb = []"
    using assms(17) by (auto simp: NewSyntheticPACBuilder_def attempt_eq_Inr)
  let ?req = "\<lparr>AccessToken = accessToken, Target = target, Output = out\<rparr>"
  let ?x = "exchange_end (fl_maxLifetime f) (now_issue ws) (Expiry i)"
  have o: "wire_output out = out" using assms(8) by (auto simp: wire_output_def)
  have x: "ns (now_issue ws) < ns ?x" using assms(10,11) by (auto simp: exchange_end_min IsZero_def)
  have v: "JWKSValidator_Validate J v ws (AccessToken ?req) = Inr i" using assms(9) by (simp add: s direct_service_def)
  have b: "builder_mapper pb i = Inr p" using assms(13) by (simp add: builder_mapper_def pb)
  obtain cred c' where e: "Service_Exchange K (srv_service srv) c ws ?req = (Inr cred, c')"
    using Exchange_answers[where K = K and d = "fl_maxLifetime f" and ks = "NewKeytabSource h (fl_realm f)" and c = c
        and realm = "fl_realm f" and validate = "JWKSValidator_Validate J v" and w = ws and req = ?req, OF v _ _ x _ assms(16) b] assms(8,12,15,18) x
    by (fastforce simp: s server_minter_def)
  have "wf_spn (Target ?req)" using assms(7) by simp
  from exchange_representation[OF assms(3) serve_reachable_cache[OF assms(2) c0 s, unfolded s] this e[unfolded s]] obtain raw where
    raw: "representation out cred = Inr raw" by auto
  then have "raw \<noteq> []" by (auto simp: representation_def Cred_APReq_def Cred_CCache_def split: if_splits)
  moreover note client_token[OF assms(4,5,6,7), of out cred c' raw w now] e raw o
  ultimately show ?thesis using assms(8) by (auto simp: representation_def Let_def)
qed

text \<open>The client's requests arrive on the request line \<open>l\<close>, and what the handler writes comes back.\<close>

definition reaches ::
    "texlib \<Rightarrow> transport \<Rightarrow> Client \<Rightarrow> krb5 \<Rightarrow> server \<times> pattern \<Rightarrow> MemoryCache \<Rightarrow> world \<Rightarrow> request_line \<Rightarrow> bool" where
  "reaches X T cl K S c ws l \<longleftrightarrow> NewRequest_error T (endpoint cl) = None
     \<and> (\<forall>w rq y. fst (serve_http X K S c ws l rq) = Written y \<longrightarrow> hc cl w rq = Inr (WriteReply X y))"

lemma token_path_dispatched:
  assumes "plain_path s" "parsePattern U s = Some p" "rl_RequestURI l \<noteq> ''*''" "rl_EscapedPath l = s"
  shows "mux_route p m l = Dispatch"
proof -
  from assms(1) have "s \<noteq> []" by (simp add: plain_path_def)
  with mux_route_plain[OF assms(1-3)] assms(4) cleanPath_plain[OF assms(1)] plain_path_unescaped[OF assms(1)]
  show ?thesis by simp
qed

text \<open>
  C8.  End to end, a valid token is answered: a client whose requests arrive at a process started from
  its command line with a positive maximum lifetime, on the token path (in whatever state earlier
  requests left it), with an unexpired token the JWKS validator accepts and whose claims can be mapped
  (a token with, say, a number for its groups is refused), for a principal the keytab has a key for, next
  to the KDC's, gets a credential for that principal in the representation it asked for.  Relied on:
  the calls to the Kerberos library that issue this very ticket succeed (\<open>issue_calls\<close>), an encoded ccache
  is not empty, and the token-exchange library reads back what it writes.
\<close>

theorem Client_of_server_gets_credential:
  assumes "kerbexchanged K J U w0 args = Inr S" "flag_Parse server_formal default_flags args = Inr (f, rest)"
    and "plain_path (fl_tokenPath f)" "rl_RequestURI l \<noteq> ''*''" "rl_EscapedPath l = fl_tokenPath f"
    and "http_reachable X K S c" "reaches X T cl K S c ws l" "ccache_header K" "texlib_ok X"
    and "accessToken \<noteq> []" "wf_spn target" "out \<in> {OutputCCache, OutputAPReq}"
    and "sv_Validator (srv_service (fst S)) ws accessToken = Inr i"
    and "IsZero (Expiry i) \<or> ns (now_issue ws) < ns (Expiry i)" "0 < fl_maxLifetime f" "0 \<le> ns (now_issue ws)"
    and "DefaultClaimsMapper_Map \<lparr>GroupsClaim = []\<rparr> i = Inr p" "keytab_Load K w0 (fl_keytab f) = Inr h"
    and "KeytabSource_ServiceKey K (NewKeytabSource h (fl_realm f)) (defaulted (fl_realm f) target) (AES256_CTS_HMAC_SHA1_96 K)
       = Inr (skey, kvno)"
    and "KeytabSource_KDCSigningKey K (NewKeytabSource h (fl_realm f)) (AES256_CTS_HMAC_SHA1_96 K) = Inr (kdcKey, kv)"
    and "NewSyntheticPACBuilder (fl_domainSID f) = Inr pb"
    and "issue_calls K ws (server_minter K f h pb) (defaulted (fl_realm f) target)
       (exchange_opts K (fl_realm f) (fl_maxLifetime f) ws i) skey kvno kdcKey out"
  shows "\<exists>got raw. Client_Exchange X T cl w now accessToken target out = Inr got
      \<and> representation out got = Inr raw \<and> Cred_Target got = target"
proof -
  from assms(1,2) have m: "server_main K J w0 f = Inr (fst S)" and p: "parsePattern U (fl_tokenPath f) = Some (snd S)"
    by (auto simp: kerbexchanged_Inr)
  have "connected X T cl (Service_Exchange K (srv_service (fst S))) c ws"
    using assms(7) token_path_dispatched[OF assms(3) p assms(4,5)] by (simp add: connected_def reaches_def serve_http_cases serve_def)
  from client_of_service[OF m http_reachable_serve[OF assms(6)] assms(8,9) this assms(10-22)] show ?thesis .
qed

text \<open>A server that starts, and a request it answers with a token.\<close>

definition sample_flags :: server_flags where
  "sample_flags = default_flags\<lparr>fl_keytab := ''/k'', fl_realm := ''EXAMPLE.COM'', fl_jwksURL := ''u'',
     fl_domainSID := ''S-1-5-21-1-2-3''\<rparr>"

lemma sample_sid_parses: "\<exists>sid. parseDomainSID ''S-1-5-21-1-2-3'' = Inr sid"
proof -
  have "sid_string 5 [21, 1, 2, 3] = ''S-1-5-21-1-2-3''"
    by (simp add: sid_string_def show_nat.simps digit_char_def char_of_def bit_0)
  then show ?thesis using parse_sid_string[of "[21, 1, 2, 3]" 5] by auto
qed

lemma sample_server:
  "\<exists>srv v pb. server_main sample_krb5 sample_jwx sample_world sample_flags = Inr srv
     \<and> srv_service srv = direct_service sample_krb5 (JWKSValidator_Validate sample_jwx v) ''EXAMPLE.COM''
         (server_minter sample_krb5 sample_flags 7 pb) 300000000000
     \<and> keySet v = 3 \<and> PB_Mapper pb = None \<and> PB_GroupsClaim pb = [] \<and> srv_cache srv = NewMemoryCache"
proof -
  obtain sid where sid: "parseDomainSID ''S-1-5-21-1-2-3'' = Inr sid" using sample_sid_parses by blast
  obtain pb where pb: "NewSyntheticPACBuilder ''S-1-5-21-1-2-3'' = Inr pb" "PB_Mapper pb = None" "PB_GroupsClaim pb = []"
    by (simp add: NewSyntheticPACBuilder_def sid)
  obtain v where v: "NewJWKSValidator sample_jwx sample_world ''u'' [] = Inr v" "keySet v = 3"
    by (simp add: NewJWKSValidator_def sample_jwx_def)
  have k: "keytab_Load sample_krb5 sample_world ''/k'' = Inr 7" by (simp add: sample_krb5_def)
  have f: "fl_keytab sample_flags = ''/k''" "fl_realm sample_flags = ''EXAMPLE.COM''" "fl_jwksURL sample_flags = ''u''"
    "fl_domainSID sample_flags = ''S-1-5-21-1-2-3''" "fl_maxLifetime sample_flags = 300000000000"
    by (simp_all add: sample_flags_def default_flags_def)
  show ?thesis unfolding server_main_Inr f by (auto simp: pb v k intro!: exI[of _ v] exI[of _ pb])
qed

lemma empty_claims: "DefaultClaimsMapper_Map \<lparr>GroupsClaim = []\<rparr> \<lparr>Subject = s, Claims = ''{}'', Expiry = x\<rparr> = Inr (s, [], [])"
proof -
  have "Unmarshal_fields ''{}'' = Some Map.empty" by (simp add: json_eval)
  then show ?thesis by (simp add: DefaultClaimsMapper_Map_def raw_field_def stringOrList_def)
qed

lemma sample_service_key:
  "KeytabSource_ServiceKey sample_krb5 (NewKeytabSource h ''EXAMPLE.COM'') (defaulted ''EXAMPLE.COM'' sample_target)
     (AES256_CTS_HMAC_SHA1_96 sample_krb5) = Inr (sample_key ''HTTP'', 2)"
  by (simp add: defaulted_def sample_eval)

lemma sample_kdc_key:
  "KeytabSource_KDCSigningKey sample_krb5 (NewKeytabSource h ''EXAMPLE.COM'') (AES256_CTS_HMAC_SHA1_96 sample_krb5)
     = Inr (sample_key ''krbtgt'', 2)"
  by (simp add: KeytabSource_KDCSigningKey_def NewKeytabSource_def sample_krb5_def)

lemma sample_server_issues:
  assumes "PB_Mapper pb = None" "PB_GroupsClaim pb = []"
    and "i = \<lparr>Subject = ''alice'', Claims = ''{}'', Expiry = Unix 100\<rparr>"
    and "req = \<lparr>AccessToken = ''good'', Target = sample_target, Output = OutputCCache\<rparr>"
  shows "\<exists>c raw. exchange_issue sample_krb5 (direct_service sample_krb5 validate ''EXAMPLE.COM''
      (server_minter sample_krb5 sample_flags 7 pb) 300000000000) sample_world i req = Inr c \<and> representation OutputCCache c = Inr raw"
proof -
  let ?ks = "NewKeytabSource 7 ''EXAMPLE.COM''"
  let ?s = "direct_service sample_krb5 validate ''EXAMPLE.COM'' (server_minter sample_krb5 sample_flags 7 pb) 300000000000"
  have m: "server_minter sample_krb5 sample_flags 7 pb = pac_minter sample_krb5 ?ks ''EXAMPLE.COM'' pb"
    by (simp add: server_minter_def sample_flags_def)
  have x: "ns (exchange_end 300000000000 (now_issue sample_world) (Expiry i)) = 300000000010"
    unfolding exchange_end_min using assms(3) by (simp add: sample_world_def Unix_def)
  have b: "builder_mapper pb i = Inr (''alice'', [], [])"
    using assms(1-3) empty_claims by (simp add: builder_mapper_def)
  have k: "KeyType (sample_key ''HTTP'') = 18" by (simp add: sample_key_def)
  have o: "Output req = OutputCCache" "Target req = sample_target" using assms(4) by simp_all
  have "\<exists>c. exchange_issue sample_krb5 ?s sample_world i req = Inr c"
    unfolding m by (rule issue_total[OF _ _ _ _ sample_kdc_key b sample_calls[OF k]])
      (use x sample_service_key[of 7] in \<open>simp_all add: o sample_world_def\<close>)
  with issue_representation[OF sample_ccache_header] o(1) show ?thesis by metis
qed

lemma sample_server_facts:
  "\<exists>srv i cred raw. server_main sample_krb5 sample_jwx sample_world sample_flags = Inr srv \<and> srv_cache srv = NewMemoryCache
     \<and> sv_Validator (srv_service srv) sample_world ''good'' = Inr i \<and> i = \<lparr>Subject = ''alice'', Claims = ''{}'', Expiry = Unix 100\<rparr>
     \<and> sv_Cache (srv_service srv) = Some memory_ops
     \<and> exchange_issue sample_krb5 (srv_service srv) sample_world i
         \<lparr>AccessToken = ''good'', Target = sample_target, Output = OutputCCache\<rparr> = Inr cred
     \<and> representation OutputCCache cred = Inr raw"
proof -
  obtain srv v pb where m: "server_main sample_krb5 sample_jwx sample_world sample_flags = Inr srv"
    and s: "srv_service srv = direct_service sample_krb5 (JWKSValidator_Validate sample_jwx v) ''EXAMPLE.COM''
         (server_minter sample_krb5 sample_flags 7 pb) 300000000000"
    and o: "keySet v = 3" "PB_Mapper pb = None" "PB_GroupsClaim pb = []" "srv_cache srv = NewMemoryCache"
    using sample_server by blast
  let ?i = "\<lparr>Subject = ''alice'', Claims = ''{}'', Expiry = Unix 100\<rparr>"
  obtain c raw where iss: "exchange_issue sample_krb5 (srv_service srv) sample_world ?i
      \<lparr>AccessToken = ''good'', Target = sample_target, Output = OutputCCache\<rparr> = Inr c"
    and raw: "representation OutputCCache c = Inr raw"
    using sample_server_issues[OF o(2,3) refl refl] unfolding s by blast
  have val: "sv_Validator (srv_service srv) sample_world ''good'' = Inr ?i"
    by (simp add: s direct_service_def JWKSValidator_Validate_def requireAllowedKeyAlg_def allowedAlgorithms_def sample_jwx_def)
  have "sv_Cache (srv_service srv) = Some memory_ops" by (simp add: s direct_service_def)
  with m o(4) val iss raw show ?thesis by blast
qed

lemma sample_server_exchange:
  "\<exists>srv cred c' raw. server_main sample_krb5 sample_jwx sample_world sample_flags = Inr srv \<and> srv_cache srv = NewMemoryCache
     \<and> Service_Exchange sample_krb5 (srv_service srv) NewMemoryCache sample_world
         \<lparr>AccessToken = ''good'', Target = sample_target, Output = OutputCCache\<rparr> = (Inr cred, c')
     \<and> representation OutputCCache cred = Inr raw"
proof -
  let ?req = "\<lparr>AccessToken = ''good'', Target = sample_target, Output = OutputCCache\<rparr>"
  obtain srv i cred raw where f: "server_main sample_krb5 sample_jwx sample_world sample_flags = Inr srv" "srv_cache srv = NewMemoryCache"
    "sv_Validator (srv_service srv) sample_world ''good'' = Inr i" "sv_Cache (srv_service srv) = Some memory_ops"
    "exchange_issue sample_krb5 (srv_service srv) sample_world i ?req = Inr cred" "representation OutputCCache cred = Inr raw"
    using sample_server_facts by blast
  then have "Service_Exchange sample_krb5 (srv_service srv) NewMemoryCache sample_world ?req
      = (Inr cred, MemoryCache_Put NewMemoryCache (CacheKey (Subject i) sample_target OutputCCache) cred)"
    by (simp add: Service_Exchange_def memory_ops_def MemoryCache_Get_def NewMemoryCache_def)
  with f show ?thesis by blast
qed

definition sample_http :: http_request where
  "sample_http = client_request sample_texlib \<lparr>endpoint = [], hc = \<lambda>w r. Inl (Foreign 0)\<rparr> ''good'' sample_target OutputCCache"

lemma sample_http_translated:
  "translated sample_texlib (w, sample_http) = Some (w, \<lparr>AccessToken = ''good'', Target = sample_target, Output = OutputCCache\<rparr>)"
proof -
  have "wire_output OutputCCache = OutputCCache" by (simp add: wire_output_def)
  with client_request_translated[OF sample_texlib_ok _ sample_spn_wf, of "''good''"] show ?thesis
    unfolding sample_http_def translated_Some by fastforce
qed

text \<open>The same server from its command line, and a request that comes in on its path.\<close>

definition sample_args :: "string list" where
  "sample_args = [''-keytab'', ''/k'', ''--realm'', ''EXAMPLE.COM'', ''-jwks-url=u'', ''--domain-sid=S-1-5-21-1-2-3'']"

definition sample_unicode :: unicode where
  "sample_unicode = \<lparr>letter = (\<lambda>r. False), digit = (\<lambda>r. False)\<rparr>"

definition sample_line :: "string \<Rightarrow> request_line" where
  "sample_line p = \<lparr>rl_RequestURI = p, rl_Host = ''kx:8080'', rl_URLHost = [], rl_Path = p, rl_EscapedPath = p\<rparr>"

lemma sample_args_parsed: "flag_Parse server_formal default_flags sample_args = Inr (sample_flags, [])"
  by (simp add: sample_args_def flag_Parse.simps(2) flag_arg_def server_setters set_flag_def sample_flags_def)

lemma sample_path: "plain_path (fl_tokenPath sample_flags)" "fl_tokenPath sample_flags = ''/token''"
  by (simp_all add: sample_flags_def default_flags_def plain_path_def path_elems_def blank_def)

lemma sample_process:
  assumes "server_main sample_krb5 sample_jwx sample_world sample_flags = Inr srv"
  shows "\<exists>p. kerbexchanged sample_krb5 sample_jwx sample_unicode sample_world sample_args = Inr (srv, p)
     \<and> mux_route p m (sample_line ''/token'') = Dispatch"
proof -
  obtain p where p: "parsePattern sample_unicode (fl_tokenPath sample_flags) = Some p"
    using parsePattern_plain[OF sample_path(1)] by blast
  have "mux_route p m (sample_line ''/token'') = Dispatch"
    by (rule token_path_dispatched[OF sample_path(1) p]) (simp_all add: sample_line_def sample_path(2))
  with p assms sample_args_parsed show ?thesis by (auto simp: kerbexchanged_Inr)
qed

theorem Server_tokens_fit_witness:
  "\<exists>S r h resp wire req v i cred raw. kerbexchanged sample_krb5 sample_jwx sample_unicode sample_world sample_args = Inr S
     \<and> fst (serve_http sample_texlib sample_krb5 S NewMemoryCache sample_world (sample_line ''/token'') r) = Written (ReplyToken h resp)
     \<and> ExchangeRequestFromWire (GrantTypeTokenExchange sample_texlib) wire = Inr req
     \<and> JWKSValidator_Validate sample_jwx v sample_world (SubjectToken wire) = Inr i
     \<and> fits sample_krb5 (srv_service (fst S)) ''EXAMPLE.COM'' (Subject i) (Target req) (Output req) cred
     \<and> DecodeString (tr_AccessToken resp) = Some raw"
proof -
  obtain srv cred c' raw where m: "server_main sample_krb5 sample_jwx sample_world sample_flags = Inr srv"
    and c0: "srv_cache srv = NewMemoryCache" and raw: "representation OutputCCache cred = Inr raw"
    and ex: "Service_Exchange sample_krb5 (srv_service srv) NewMemoryCache sample_world
         \<lparr>AccessToken = ''good'', Target = sample_target, Output = OutputCCache\<rparr> = (Inr cred, c')"
    using sample_server_exchange by blast
  obtain p where k: "kerbexchanged sample_krb5 sample_jwx sample_unicode sample_world sample_args = Inr (srv, p)"
    and d: "mux_route p (rq_method sample_http) (sample_line ''/token'') = Dispatch" using sample_process[OF m] by blast
  obtain h resp where "fst (serve sample_texlib sample_krb5 srv NewMemoryCache sample_world sample_http) = ReplyToken h resp"
    unfolding sample_http_def serve_def using ex raw
    by (simp add: handler_reply[OF sample_texlib_ok _ sample_spn_wf] wire_output_def)
  with d have t: "fst (serve_http sample_texlib sample_krb5 (srv, p) NewMemoryCache sample_world (sample_line ''/token'') sample_http)
      = Written (ReplyToken h resp)" by (simp add: serve_http_cases)
  have b: "http_reachable sample_texlib sample_krb5 (srv, p) NewMemoryCache"
    using http_reachable.listening[of sample_texlib sample_krb5 "(srv, p)"] c0 by simp
  have sep: "separable (Subject i) (Target req)"
    if "ParseTokenExchangeRequest sample_texlib sample_http = Inr wire"
      "ExchangeRequestFromWire (GrantTypeTokenExchange sample_texlib) wire = Inr req"
      "JWKSValidator_Validate sample_jwx v sample_world tok = Inr i" for wire req v tok i
  proof -
    have "Target req = sample_target" using sample_http_translated[of sample_world] that(1,2) by (auto simp: translated_Some)
    with that(3) show ?thesis
      by (auto simp: separable_def sample_target_def SPN_String_def JWKSValidator_Validate_def result_simps sample_jwx_def)
  qed
  have "fl_realm sample_flags = ''EXAMPLE.COM''" by (simp add: sample_flags_def)
  with Server_tokens_fit[OF k b t] sample_args_parsed k t sep show ?thesis by fastforce
qed

theorem Server_route_witness:
  "\<exists>S. kerbexchanged sample_krb5 sample_jwx sample_unicode sample_world sample_args = Inr S
     \<and> (\<forall>c r. serve_http sample_texlib sample_krb5 S c sample_world (sample_line ''/tokens'') r = (Refused NotFound, c))"
proof -
  obtain srv where m: "server_main sample_krb5 sample_jwx sample_world sample_flags = Inr srv" using sample_server by blast
  obtain p where k: "kerbexchanged sample_krb5 sample_jwx sample_unicode sample_world sample_args = Inr (srv, p)"
    using sample_process[OF m] by blast
  have l: "rl_RequestURI (sample_line ''/tokens'') \<noteq> ''*''" by (simp add: sample_line_def)
  have "plain_path ''/tokens''" by (simp add: plain_path_def path_elems_def blank_def)
  from Server_route[OF k sample_args_parsed sample_path(1) l] cleanPath_plain[OF this] k show ?thesis
    by (fastforce simp: sample_line_def sample_path(2) path_elems_def)
qed

definition sample_settings :: "setting list" where
  "sample_settings =
     [\<lparr>two_dashes = False, joined = False, set_name = ''realm'', set_value = ''--OLD''\<rparr>,
      \<lparr>two_dashes = True, joined = True, set_name = ''realm'', set_value = ''A=B''\<rparr>]"

theorem Command_line_last_wins_witness:
  "\<exists>f. flag_Parse server_formal default_flags [''-realm'', ''--OLD'', ''--realm=A=B''] = Inr (f, [])
     \<and> fl_realm f = ''A=B'' \<and> fl_tokenPath f = ''/token''"
proof -
  have n: "\<forall>t \<in> set sample_settings. set_name t \<in> fst ` set server_formal" by (simp add: sample_settings_def server_formal_def)
  have r: "concat (map render_setting sample_settings) = [''-realm'', ''--OLD'', ''--realm=A=B'']"
    by (simp add: sample_settings_def render_setting_def)
  have l: "last_setting ''realm'' sample_settings = Some ''A=B''" "last_setting ''token-path'' sample_settings = None"
    by (simp_all add: sample_settings_def last_setting_def)
  have "\<not> (\<exists>t \<in> set sample_settings. set_name t = ''max-lifetime'' \<and> ParseDuration (set_value t) = None)"
    by (simp add: sample_settings_def)
  with Command_line_last_wins[OF n, unfolded r] l show ?thesis by (auto split: sum.splits)
qed

theorem Concurrent_server_tokens_fit_witness:
  "\<exists>srv m g res h resp i cred raw. server_main sample_krb5 sample_jwx sample_world sample_flags = Inr srv
     \<and> (go_sys sample_krb5 (srv_service srv))\<^sup>*\<^sup>* (unlocked (srv_cache srv),
         map start_goroutine (List.map_filter (translated sample_texlib) [(sample_world, sample_http)])) (m, [g])
     \<and> g_phase g = Returned res
     \<and> fst (NewHandler sample_texlib (returning res) () sample_world sample_http) = ReplyToken h resp
     \<and> res = Inr cred \<and> sv_Validator (srv_service srv) sample_world ''good'' = Inr i
     \<and> fits sample_krb5 (srv_service srv) ''EXAMPLE.COM'' (Subject i) sample_target OutputCCache cred
     \<and> DecodeString (tr_AccessToken resp) = Some raw"
proof -
  let ?req = "\<lparr>AccessToken = ''good'', Target = sample_target, Output = OutputCCache\<rparr>" and ?rs = "[(sample_world, sample_http)]"
  obtain srv i cred raw where m: "server_main sample_krb5 sample_jwx sample_world sample_flags = Inr srv"
    and c0: "srv_cache srv = NewMemoryCache" and raw: "representation OutputCCache cred = Inr raw"
    and f: "sv_Validator (srv_service srv) sample_world (AccessToken ?req) = Inr i" "sv_Cache (srv_service srv) = Some memory_ops"
      "exchange_issue sample_krb5 (srv_service srv) sample_world i ?req = Inr cred"
    and i: "i = \<lparr>Subject = ''alice'', Claims = ''{}'', Expiry = Unix 100\<rparr>"
    using sample_server_facts by auto
  let ?g = "\<lparr>g_world = sample_world, g_req = ?req, g_phase = Returned (Inr cred)\<rparr>"
  have rs: "List.map_filter (translated sample_texlib) ?rs = [(sample_world, ?req)]"
    by (simp add: List.map_filter_simps sample_http_translated)
  have "store NewMemoryCache (CacheKey (Subject i) (Target ?req) (Output ?req)) = None" by (simp add: NewMemoryCache_def)
  from go_miss_run[OF f(1,2) this f(3)] obtain l where
    run: "(go_sys sample_krb5 (srv_service srv))\<^sup>*\<^sup>*
      (unlocked (srv_cache srv), map start_goroutine (List.map_filter (translated sample_texlib) ?rs)) (l, [?g])"
    unfolding rs c0 list.map by blast
  obtain h resp where t: "fst (NewHandler sample_texlib (returning (Inr cred)) () sample_world sample_http) = ReplyToken h resp"
    unfolding sample_http_def using raw
    by (simp add: handler_reply[OF sample_texlib_ok _ sample_spn_wf] wire_output_def returning_def)
  have sep: "separable (Subject i) sample_target" by (simp add: i separable_def sample_target_def SPN_String_def)
  have "fl_realm sample_flags = ''EXAMPLE.COM''" by (simp add: sample_flags_def)
  with Concurrent_server_tokens_fit[OF m run, of ?g "Inr cred"] t f(1) sep
  have "fits sample_krb5 (srv_service srv) ''EXAMPLE.COM'' (Subject i) sample_target OutputCCache cred
      \<and> (\<exists>raw'. DecodeString (tr_AccessToken resp) = Some raw')"
    by (fastforce dest: FromWire_AccessToken)
  with m run t f(1) show ?thesis by fastforce
qed

theorem Server_refines_spec_witness:
  "\<exists>srv. server_main sample_krb5 sample_jwx sample_world sample_flags = Inr srv
     \<and> outputs (\<lambda>c (w, r). serve sample_texlib sample_krb5 srv c w r) (srv_cache srv) [(sample_world, sample_http), (sample_world, sample_http)]
       = outputs (\<lambda>a (w, r). NewHandler sample_texlib (spec_exchange sample_krb5 (srv_service srv)) a w r) Map.empty
           [(sample_world, sample_http), (sample_world, sample_http)]"
proof -
  let ?req = "\<lparr>AccessToken = ''good'', Target = sample_target, Output = OutputCCache\<rparr>" and ?rs = "[(sample_world, sample_http), (sample_world, sample_http)]"
  obtain srv i where m: "server_main sample_krb5 sample_jwx sample_world sample_flags = Inr srv"
    and v: "sv_Validator (srv_service srv) sample_world ''good'' = Inr i" and i: "Subject i = ''alice''"
    using sample_server_facts by auto
  have t: "req = ?req" if "ParseTokenExchangeRequest sample_texlib sample_http = Inr wire"
    "ExchangeRequestFromWire (GrantTypeTokenExchange sample_texlib) wire = Inr req" for wire req
    using sample_http_translated[of sample_world] that by (simp add: translated_Some)
  have nul: "\<forall>(w, r) \<in> set ?rs. \<forall>wire req i. ParseTokenExchangeRequest sample_texlib r = Inr wire
      \<and> ExchangeRequestFromWire (GrantTypeTokenExchange sample_texlib) wire = Inr req
      \<and> sv_Validator (srv_service srv) w (AccessToken req) = Inr i \<longrightarrow> CHR 0x00 \<notin> set (Subject i)"
    using v i by (auto dest!: t)
  have "sorted (map (\<lambda>(w, r). ns (now_get w)) ?rs)" by simp
  from Server_refines_spec[OF m this nul] m show ?thesis by blast
qed

theorem Client_of_server_gets_credential_witness:
  "\<exists>S got raw. kerbexchanged sample_krb5 sample_jwx sample_unicode sample_world sample_args = Inr S
     \<and> Client_Exchange sample_texlib (sample_transport 200 [])
         (sample_client (Service_Exchange sample_krb5 (srv_service (fst S))) NewMemoryCache sample_world)
         sample_now zeroTime ''good'' sample_target OutputAPReq = Inr got
     \<and> representation OutputAPReq got = Inr raw"
proof -
  obtain srv v pb where m: "server_main sample_krb5 sample_jwx sample_world sample_flags = Inr srv"
    and s: "srv_service srv = direct_service sample_krb5 (JWKSValidator_Validate sample_jwx v) ''EXAMPLE.COM''
         (server_minter sample_krb5 sample_flags 7 pb) 300000000000"
    and c0: "keySet v = 3" "srv_cache srv = NewMemoryCache"
    using sample_server by blast
  obtain p where k: "kerbexchanged sample_krb5 sample_jwx sample_unicode sample_world sample_args = Inr (srv, p)"
    using sample_process[OF m] by blast
  let ?cl = "sample_client (Service_Exchange sample_krb5 (srv_service srv)) NewMemoryCache sample_world"
  have b: "http_reachable sample_texlib sample_krb5 (srv, p) NewMemoryCache"
    using http_reachable.listening[of sample_texlib sample_krb5 "(srv, p)"] c0(2) by simp
  have l: "rl_RequestURI (sample_line ''/token'') \<noteq> ''*''" "rl_EscapedPath (sample_line ''/token'') = fl_tokenPath sample_flags"
    by (simp_all add: sample_line_def sample_path(2))
  have r: "reaches sample_texlib (sample_transport 200 []) ?cl sample_krb5 (srv, p) NewMemoryCache sample_world (sample_line ''/token'')"
    by (simp add: reaches_def serve_http_cases serve_def sample_client_def sample_transport_def split: if_splits)
  have val: "sv_Validator (srv_service (fst (srv, p))) sample_world ''good'' = Inr \<lparr>Subject = ''alice'', Claims = ''{}'', Expiry = Unix 100\<rparr>"
    by (simp add: s direct_service_def JWKSValidator_Validate_def requireAllowedKeyAlg_def allowedAlgorithms_def sample_jwx_def)
  have f: "fl_realm sample_flags = ''EXAMPLE.COM''" "fl_keytab sample_flags = ''/k''" "0 < fl_maxLifetime sample_flags"
    by (simp_all add: sample_flags_def default_flags_def)
  have kt: "keytab_Load sample_krb5 sample_world (fl_keytab sample_flags) = Inr 7" by (simp add: f sample_krb5_def)
  have key: "KeyType (sample_key ''HTTP'') = 18" by (simp add: sample_key_def)
  obtain pb' where pb: "NewSyntheticPACBuilder (fl_domainSID sample_flags) = Inr pb'"
    using m by (auto simp: server_main_Inr)
  have "ns (now_issue sample_world) < ns (Expiry \<lparr>Subject = ''alice'', Claims = ''{}'', Expiry = Unix 100\<rparr>)"
    "0 \<le> ns (now_issue sample_world)" by (simp_all add: sample_world_def Unix_def)
  with Client_of_server_gets_credential[where accessToken = "''good''" and out = OutputAPReq, OF k sample_args_parsed
      sample_path(1) l b r sample_ccache_header sample_texlib_ok _ sample_spn_wf _ val _ f(3) _
      empty_claims kt sample_service_key[folded f(1)] sample_kdc_key[folded f(1)] pb sample_calls[OF key]] k
  show ?thesis by fastforce
qed

end
