(* ===== verification/Fixtures.thy ===== *)
theory Fixtures
  imports Interop Server
begin

text \<open>
  The two commands that mint tickets for the interoperability tests, \<open>src/test/interop/mint/main.go\<close>
  and \<open>src/test/ad-demo/mint/main.go\<close>, from their command lines to the files they leave.  The files are a
  map from paths to contents; a command ends early with the error of \<open>log.Fatal\<close>, and what it wrote
  before stays.  Log output is left out.
\<close>

section \<open>Files\<close>

type_synonym files = "string \<rightharpoonup> bytes"

text \<open>How writing a file can go wrong: it cannot be opened, or only a prefix is written.\<close>

datatype io_fault = OpenFails goerror | WriteFails nat goerror

type_synonym disk = "string \<Rightarrow> io_fault option"

definition os_WriteFile :: "disk \<Rightarrow> files \<Rightarrow> string \<Rightarrow> bytes \<Rightarrow> unit result \<times> files" where
  "os_WriteFile D fs path data =
     (case D path of
        None \<Rightarrow> (Inr (), fs(path \<mapsto> data))
      | Some (OpenFails e) \<Rightarrow> (Inl e, fs)
      | Some (WriteFails n e) \<Rightarrow> (Inl e, fs(path \<mapsto> take n data)))"

text \<open>One step after another, the files threaded through; an error stops the command.\<close>

definition and_then :: "'a result \<times> files \<Rightarrow> ('a \<Rightarrow> files \<Rightarrow> 'b result \<times> files) \<Rightarrow> 'b result \<times> files" where
  "and_then p k = (case p of (Inl e, fs) \<Rightarrow> (Inl e, fs) | (Inr x, fs) \<Rightarrow> k x fs)"

definition failing :: "string \<Rightarrow> 'a result \<times> files \<Rightarrow> 'a result \<times> files" where
  "failing s p = (on_err (fatal s) (fst p), snd p)"

text \<open>What the commands use of the keytab package: writing a keytab sends bytes to the file.\<close>

record keytab_writer =
  keytab_New :: handle
  keytab_AddEntry :: "handle \<Rightarrow> string \<Rightarrow> string \<Rightarrow> string \<Rightarrow> gotime \<Rightarrow> int \<Rightarrow> int \<Rightarrow> handle result"
  keytab_Write :: "handle \<Rightarrow> io_fault option \<Rightarrow> bytes \<times> goerror option"

section \<open>The interop command\<close>

record interop_flags =
  if_keytab :: string
  if_token :: string
  if_ccache :: string
  if_bundle :: string
  if_realm :: string
  if_service :: string
  if_host :: string
  if_client :: string
  if_password :: string
  if_domainSID :: string

definition default_interop_flags :: interop_flags where
  "default_interop_flags =
     \<lparr>if_keytab = ''/tmp/interop.keytab'', if_token = ''/tmp/interop.token.b64'', if_ccache = [], if_bundle = [],
      if_realm = ''EXAMPLE.COM'', if_service = ''HTTP'', if_host = ''interop.example.com'', if_client = ''alice'',
      if_password = ''interop-secret'', if_domainSID = ''S-1-5-21-1111111111-2222222222-3333333333''\<rparr>"

fun add_entries :: "krb5 \<Rightarrow> keytab_writer \<Rightarrow> interop_flags \<Rightarrow> gotime \<Rightarrow> handle \<Rightarrow> string list \<Rightarrow> handle result" where
  "add_entries K G f now tab [] = Inr tab"
| "add_entries K G f now tab (pn # pns) =
     attempt (on_err (\<lambda>e. Errorf [Lit ''keytab AddEntry '', Quoted pn, Lit '': '', TextV e])
        (keytab_AddEntry G tab pn (if_realm f) (if_password f) now 1 (AES256_CTS_HMAC_SHA1_96 K))) (\<lambda>tab'.
     add_entries K G f now tab' pns)"

text \<open>\<open>os.Create\<close> truncates, then the keytab is written.\<close>

definition write_keytab :: "keytab_writer \<Rightarrow> disk \<Rightarrow> files \<Rightarrow> string \<Rightarrow> handle \<Rightarrow> unit result \<times> files" where
  "write_keytab G D fs path tab =
     (case D path of
        Some (OpenFails e) \<Rightarrow> (Inl (fatal ''create keytab: '' e), fs)
      | flt \<Rightarrow> (case keytab_Write G tab flt of
                (bs, None) \<Rightarrow> (Inr (), fs(path \<mapsto> bs))
              | (bs, Some e) \<Rightarrow> (Inl (fatal ''write keytab: '' e), fs(path \<mapsto> bs))))"

definition seconds :: "int \<Rightarrow> duration" where "seconds n = n * 1000000000"

definition interop_claims :: string where
  \<open>interop_claims = ''{"groups":["mail-users","staff"]}''\<close>

definition interop_opts :: "krb5 \<Rightarrow> interop_flags \<Rightarrow> gotime \<Rightarrow> MintOptions" where
  "interop_opts K f now =
     \<lparr>mo_ClientName = \<lparr>NameType = KRB_NT_PRINCIPAL K, NameString = [if_client f]\<rparr>, mo_ClientRealm = if_realm f,
      mo_Identity = \<lparr>Subject = if_client f, Claims = interop_claims, Expiry = Add now (seconds 3600)\<rparr>,
      mo_AuthTime = Add now (seconds (- 30)), mo_StartTime = zeroTime, mo_EndTime = Add now (seconds 300),
      mo_RenewTill = zeroTime\<rparr>"

definition interop_target :: "interop_flags \<Rightarrow> ServicePrincipal" where
  "interop_target f = \<lparr>Service = if_service f, Host = if_host f, Realm = if_realm f\<rparr>"

definition interop_ticket ::
    "krb5 \<Rightarrow> world \<Rightarrow> gotime \<Rightarrow> interop_flags \<Rightarrow> handle \<Rightarrow> MintedTicket result" where
  "interop_ticket K w now f tab =
     (let ks = NewKeytabSource tab (if_realm f) in
      attempt (on_err (fatal ''pac builder: '') (NewSyntheticPACBuilder (if_domainSID f))) (\<lambda>pac.
      let minter = WithPACBuilder (NewDirectMinter (keytab_keys K ks) (if_realm f)) (SyntheticPACBuilder_Build K pac) in
      on_err (fatal ''mint: '') (DirectMinter_Mint K minter w (interop_target f) (interop_opts K f now))))"

text \<open>Steps 3 and 3b, which both commands have: the token file and the optional ccache file.\<close>

definition emit_token :: "krb5 \<Rightarrow> disk \<Rightarrow> world \<Rightarrow> string \<Rightarrow> MintedTicket \<Rightarrow> files \<Rightarrow> unit result \<times> files" where
  "emit_token K D w path mt fs =
     and_then (on_err (fatal ''marshal AP-REQ token: '') (MarshalAPReqToken K w mt), fs) (\<lambda>token fs.
     failing ''write token: '' (os_WriteFile D fs path (map byte_of (EncodeToString token))))"

definition emit_ccache :: "krb5 \<Rightarrow> disk \<Rightarrow> world \<Rightarrow> string \<Rightarrow> string \<Rightarrow> MintedTicket \<Rightarrow> files \<Rightarrow> unit result \<times> files" where
  "emit_ccache K D w what path mt fs =
     (if path = [] then (Inr (), fs)
      else and_then (on_err (fatal what) (MintedTicket_Credential K w mt OutputCCache), fs) (\<lambda>cred fs.
           and_then (on_err (fatal ''marshal ccache: '') (Cred_CCache cred), fs) (\<lambda>cc fs.
           failing ''write ccache: '' (os_WriteFile D fs path cc))))"

text \<open>The bundle for the PAC verifier.\<close>

definition hex_digit :: "nat \<Rightarrow> char" where
  "hex_digit n = (if n < 10 then char_of (48 + n) else char_of (87 + n))"

definition hex_EncodeToString :: "bytes \<Rightarrow> string" where
  "hex_EncodeToString bs = concat (map (\<lambda>b. [hex_digit (unat b div 16), hex_digit (unat b mod 16)]) bs)"

definition Time_Unix :: "gotime \<Rightarrow> int" where
  "Time_Unix t = to_int64 (ns t div 10 ^ 9 - 62135596800)"

definition newline :: string where "newline = [CHR 0x0A]"

definition bundle_text ::
    "bytes \<Rightarrow> EncryptionKey \<Rightarrow> EncryptionKey \<Rightarrow> gotime \<Rightarrow> string \<Rightarrow> string \<Rightarrow> string \<Rightarrow> string list \<Rightarrow> string" where
  "bundle_text pacBytes svc tgt authTime client realm userSID groupSIDs =
     ''PAC='' @ hex_EncodeToString pacBytes @ newline
     @ ''SERVERKEY='' @ hex_EncodeToString (KeyValue svc) @ newline
     @ ''KDCKEY='' @ hex_EncodeToString (KeyValue tgt) @ newline
     @ ''AUTHTIME='' @ show_int (Time_Unix (toUTC authTime)) @ newline
     @ ''CLIENT='' @ client @ ''@'' @ realm @ newline
     @ ''USERSID='' @ userSID @ newline
     @ ''GROUPSIDS='' @ join_with (CHR '','') groupSIDs @ newline"

definition bundle_key :: "krb5 \<Rightarrow> handle \<Rightarrow> string list \<Rightarrow> string \<Rightarrow> (EncryptionKey \<times> int) result" where
  "bundle_key K tab names realm =
     GetEncryptionKey K tab \<lparr>NameType = KRB_NT_PRINCIPAL K, NameString = names\<rparr> realm 0 (AES256_CTS_HMAC_SHA1_96 K)"

definition writeBundle ::
    "krb5 \<Rightarrow> krb5_reader \<Rightarrow> disk \<Rightarrow> string \<Rightarrow> handle \<Rightarrow> MintedTicket \<Rightarrow> string \<Rightarrow> string \<Rightarrow> string \<Rightarrow> string \<Rightarrow> gotime
     \<Rightarrow> files \<Rightarrow> unit result \<times> files" where
  "writeBundle K R D path tab mt service host realm client authTime fs =
     and_then
       (attempt (on_err (fatal ''service key: '') (bundle_key K tab [service, host] realm)) (\<lambda>(svc, _).
        attempt (on_err (fatal ''krbtgt key: '') (bundle_key K tab [''krbtgt'', realm] realm)) (\<lambda>(tgt, _).
        attempt (on_err (fatal ''decrypt EncPart: '')
                   (DecryptMessage R (Cipher (EncPart (mt_Ticket mt))) svc (KDC_REP_TICKET K))) (\<lambda>plain.
        attempt (extractPAC K R plain) (\<lambda>pacBytes.
        attempt (pacSIDs R pacBytes svc) (\<lambda>(userSID, groupSIDs).
        Inr (bundle_text pacBytes svc tgt authTime client realm userSID groupSIDs)))))), fs) (\<lambda>bundle fs.
     failing ''write bundle: '' (os_WriteFile D fs path (map byte_of bundle)))"

definition interop_main ::
    "krb5 \<Rightarrow> krb5_reader \<Rightarrow> keytab_writer \<Rightarrow> disk \<Rightarrow> world \<Rightarrow> gotime \<Rightarrow> interop_flags \<Rightarrow> files \<Rightarrow> unit result \<times> files" where
  "interop_main K R G D w now f fs =
     and_then (add_entries K G f now (keytab_New G)
                 [if_service f @ ''/'' @ if_host f, ''krbtgt/'' @ if_realm f], fs) (\<lambda>tab fs.
     and_then (write_keytab G D fs (if_keytab f) tab) (\<lambda>_ fs.
     and_then (interop_ticket K w now f tab, fs) (\<lambda>mt fs.
     and_then (emit_token K D w (if_token f) mt fs) (\<lambda>_ fs.
     and_then (emit_ccache K D w ''ccache credential: '' (if_ccache f) mt fs) (\<lambda>_ fs.
     if if_bundle f \<noteq> []
     then writeBundle K R D (if_bundle f) tab mt (if_service f) (if_host f) (if_realm f) (if_client f)
            (Add now (seconds (- 30))) fs
     else (Inr (), fs))))))"

section \<open>The AD demo command\<close>

record admint_flags =
  af_keytab :: string
  af_realm :: string
  af_service :: string
  af_host :: string
  af_client :: string
  af_token :: string
  af_ccache :: string

definition default_admint_flags :: admint_flags where
  "default_admint_flags =
     \<lparr>af_keytab = ''/export/svc.keytab'', af_realm = ''EXAMPLE.COM'', af_service = ''HTTP'',
      af_host = ''web.example.com'', af_client = ''alice'', af_token = ''/tmp/ad.token'', af_ccache = []\<rparr>"

definition admint_main :: "krb5 \<Rightarrow> disk \<Rightarrow> world \<Rightarrow> gotime \<Rightarrow> admint_flags \<Rightarrow> files \<Rightarrow> unit result \<times> files" where
  "admint_main K D w now0 f fs =
     and_then (on_err (\<lambda>e. Errorf [Lit ''load keytab '', Plain (af_keytab f), Lit '': '', TextV e])
                 (keytab_Load K w (af_keytab f)), fs) (\<lambda>tab fs.
     let minter = NewDirectMinter (keytab_keys K (NewKeytabSource tab (af_realm f))) (af_realm f);
         now = toUTC now0
     in
     and_then (on_err (fatal ''mint: '') (DirectMinter_Mint K minter w
         \<lparr>Service = af_service f, Host = af_host f, Realm = af_realm f\<rparr>
         \<lparr>mo_ClientName = \<lparr>NameType = KRB_NT_PRINCIPAL K, NameString = [af_client f]\<rparr>, mo_ClientRealm = af_realm f,
          mo_Identity = \<lparr>Subject = af_client f, Claims = [], Expiry = Add now (seconds 3600)\<rparr>,
          mo_AuthTime = Add now (seconds (- 30)), mo_StartTime = zeroTime, mo_EndTime = Add now (seconds 300),
          mo_RenewTill = zeroTime\<rparr>), fs) (\<lambda>mt fs.
     and_then (emit_token K D w (af_token f) mt fs) (\<lambda>_ fs.
     emit_ccache K D w ''ccache: '' (af_ccache f) mt fs)))"

section \<open>The commands\<close>

text \<open>A command parses its flags, then does its work.\<close>

definition run_command ::
    "(string \<times> 'f setter) list \<Rightarrow> 'f \<Rightarrow> ('f \<Rightarrow> files \<Rightarrow> unit result \<times> files) \<Rightarrow> string list \<Rightarrow> files \<Rightarrow> (process_end + unit) \<times> files" where
  "run_command formal defaults main args fs =
     (case flag_Parse formal defaults args of
        Inl stop \<Rightarrow> (Inl (Exited stop), fs)
      | Inr (f, _) \<Rightarrow> (on_err Fatal (fst (main f fs)), snd (main f fs)))"

definition interop_formal :: "(string \<times> interop_flags setter) list" where
  "interop_formal =
     [(''keytab'', String_flag if_keytab_update), (''token'', String_flag if_token_update),
      (''ccache'', String_flag if_ccache_update), (''bundle'', String_flag if_bundle_update),
      (''realm'', String_flag if_realm_update), (''service'', String_flag if_service_update),
      (''host'', String_flag if_host_update), (''client'', String_flag if_client_update),
      (''password'', String_flag if_password_update), (''domain-sid'', String_flag if_domainSID_update)]"

definition interop_command ::
    "krb5 \<Rightarrow> krb5_reader \<Rightarrow> keytab_writer \<Rightarrow> disk \<Rightarrow> world \<Rightarrow> gotime \<Rightarrow> string list \<Rightarrow> files \<Rightarrow> (process_end + unit) \<times> files" where
  "interop_command K R G D w now = run_command interop_formal default_interop_flags (interop_main K R G D w now)"

definition admint_formal :: "(string \<times> admint_flags setter) list" where
  "admint_formal =
     [(''keytab'', String_flag af_keytab_update), (''realm'', String_flag af_realm_update),
      (''service'', String_flag af_service_update), (''host'', String_flag af_host_update),
      (''client'', String_flag af_client_update), (''token'', String_flag af_token_update),
      (''ccache'', String_flag af_ccache_update)]"

definition admint_command :: "krb5 \<Rightarrow> disk \<Rightarrow> world \<Rightarrow> gotime \<Rightarrow> string list \<Rightarrow> files \<Rightarrow> (process_end + unit) \<times> files" where
  "admint_command K D w now0 = run_command admint_formal default_admint_flags (admint_main K D w now0)"

section \<open>What a command that succeeds has written\<close>

lemma run_command_Inr:
  "run_command formal defaults main args fs = (Inr (), fs') \<longleftrightarrow>
     (\<exists>f rest. flag_Parse formal defaults args = Inr (f, rest) \<and> main f fs = (Inr (), fs'))"
  by (auto simp: run_command_def on_err_eq_Inr prod_eq_iff split: sum.splits)

lemma and_then_Inr: "and_then p k = (Inr y, fs') \<longleftrightarrow> (\<exists>x fs. p = (Inr x, fs) \<and> k x fs = (Inr y, fs'))"
  by (auto simp: and_then_def split: prod.splits sum.splits)

lemma failing_Inr: "failing s p = (Inr x, fs) \<longleftrightarrow> p = (Inr x, fs)"
  by (cases p) (auto simp: failing_def on_err_eq_Inr)

lemma WriteFile_Inr: "os_WriteFile D fs path data = (Inr u, fs') \<longleftrightarrow> D path = None \<and> fs' = fs(path \<mapsto> data)"
  by (auto simp: os_WriteFile_def split: option.splits io_fault.splits)

lemmas io_Inr = and_then_Inr failing_Inr WriteFile_Inr on_err_eq_Inr

lemma emit_token_Inr:
  "emit_token K D w path mt fs = (Inr u, fs') \<longleftrightarrow>
     (\<exists>token. MarshalAPReqToken K w mt = Inr token \<and> D path = None
        \<and> fs' = fs(path \<mapsto> map byte_of (EncodeToString token)))"
  by (auto simp: emit_token_def io_Inr)

lemma emit_ccache_Inr:
  "emit_ccache K D w what path mt fs = (Inr u, fs') \<Longrightarrow> (\<forall>p. p \<noteq> path \<longrightarrow> fs' p = fs p)"
  by (auto simp: emit_ccache_def io_Inr split: if_splits)

lemma writeBundle_Inr:
  assumes "writeBundle K R D path tab mt service host realm client authTime fs = (Inr u, fs')"
  obtains svc tgt kv kv' plain pac user groups where
    "bundle_key K tab [service, host] realm = Inr (svc, kv)" "bundle_key K tab [''krbtgt'', realm] realm = Inr (tgt, kv')"
    "DecryptMessage R (Cipher (EncPart (mt_Ticket mt))) svc (KDC_REP_TICKET K) = Inr plain"
    "extractPAC K R plain = Inr pac" "pacSIDs R pac svc = Inr (user, groups)"
    "fs' = fs(path \<mapsto> map byte_of (bundle_text pac svc tgt authTime client realm user groups))"
  using assms by (auto simp: writeBundle_def io_Inr attempt_eq_Inr)

lemma interop_ticket_Inr:
  assumes "interop_ticket K w now f tab = Inr mt"
  obtains b where "NewSyntheticPACBuilder (if_domainSID f) = Inr b"
    "DirectMinter_Mint K (pac_minter K (NewKeytabSource tab (if_realm f)) (if_realm f) b) w
       (interop_target f) (interop_opts K f now) = Inr mt"
  using assms by (auto simp: interop_ticket_def pac_minter_def attempt_eq_Inr on_err_eq_Inr Let_def)

lemma bundle_service_key:
  "KeytabSource_ServiceKey K (NewKeytabSource tab (if_realm f)) (interop_target f) (AES256_CTS_HMAC_SHA1_96 K) = Inr r
   \<longleftrightarrow> bundle_key K tab [if_service f, if_host f] (if_realm f) = Inr r"
  by (auto simp: KeytabSource_ServiceKey_def NewKeytabSource_def interop_target_def bundle_key_def result_simps Let_def)

lemma bundle_kdc_key:
  assumes "ParseSPNString K (''krbtgt/'' @ realm) = (\<lparr>NameType = KRB_NT_PRINCIPAL K, NameString = [''krbtgt'', realm]\<rparr>, [])"
  shows "KeytabSource_KDCSigningKey K (NewKeytabSource tab realm) (AES256_CTS_HMAC_SHA1_96 K) = Inr r
   \<longleftrightarrow> bundle_key K tab [''krbtgt'', realm] realm = Inr r"
  using assms by (auto simp: KeytabSource_KDCSigningKey_def NewKeytabSource_def bundle_key_def result_simps)

lemma interop_main_Inr:
  assumes "interop_main K R G D w now f fs = (Inr (), fs')" "if_bundle f \<noteq> []"
    and "if_token f \<noteq> if_bundle f" "if_token f \<noteq> if_ccache f"
  obtains tab mt token fs1 where "interop_ticket K w now f tab = Inr mt" "MarshalAPReqToken K w mt = Inr token"
    "fs' (if_token f) = Some (map byte_of (EncodeToString token))"
    "writeBundle K R D (if_bundle f) tab mt (if_service f) (if_host f) (if_realm f) (if_client f)
       (Add now (seconds (- 30))) fs1 = (Inr (), fs')"
proof -
  from assms(1,2) obtain tab mt fs2 fs3 fs4 where t: "interop_ticket K w now f tab = Inr mt"
    and k: "emit_token K D w (if_token f) mt fs2 = (Inr (), fs3)"
    and c: "emit_ccache K D w ''ccache credential: '' (if_ccache f) mt fs3 = (Inr (), fs4)"
    and b: "writeBundle K R D (if_bundle f) tab mt (if_service f) (if_host f) (if_realm f) (if_client f)
       (Add now (seconds (- 30))) fs4 = (Inr (), fs')"
    by (auto simp: interop_main_def and_then_Inr)
  from k obtain token where tok: "MarshalAPReqToken K w mt = Inr token"
    "fs3 (if_token f) = Some (map byte_of (EncodeToString token))" by (auto simp: emit_token_Inr)
  from b have "fs' (if_token f) = fs4 (if_token f)" by (rule writeBundle_Inr) (use assms(3) in auto)
  with emit_ccache_Inr[OF c] tok(2) assms(4) have "fs' (if_token f) = Some (map byte_of (EncodeToString token))" by simp
  with that t tok(1) b show thesis by blast
qed

section \<open>Properties\<close>

text \<open>
  C20.  The files of a successful run of the interop command fit together: the token file is the base64 text of the
  AP-REQ token of one minted ticket, and the bundle lists the PAC of that very ticket, as it was
  signed for the client, with the two keys it was signed with and the SIDs the reader finds in it.
  Relied on: the library reads back what it writes, and parses \<open>krbtgt/REALM\<close> into its two
  components.
\<close>

theorem Interop_bundle_fits_token:
  assumes "interop_command K R G D w now args fs = (Inr (), fs')"
    and "flag_Parse interop_formal default_interop_flags args = Inr (f, rest)" "if_bundle f \<noteq> []"
    and "if_token f \<noteq> if_bundle f" "if_token f \<noteq> if_ccache f" "reads_back K R"
    and "ParseSPNString K (''krbtgt/'' @ if_realm f)
       = (\<lparr>NameType = KRB_NT_PRINCIPAL K, NameString = [''krbtgt'', if_realm f]\<rparr>, [])"
  shows "\<exists>mt token b kvi ci svc tgt pac user groups.
      fs' (if_token f) = Some (map byte_of (EncodeToString token)) \<and> MarshalAPReqToken K w mt = Inr token
      \<and> NewSyntheticPACBuilder (if_domainSID f) = Inr b
      \<and> SyntheticPACBuilder_Build K b (mo_Identity (interop_opts K f now)) (mt_AuthTime mt) = Inr (kvi, ci)
      \<and> SignAndMarshal K kvi ci svc tgt = Inr pac \<and> pacSIDs R pac svc = Inr (user, groups)
      \<and> attempt (DecryptMessage R (Cipher (EncPart (mt_Ticket mt))) svc (KDC_REP_TICKET K)) (extractPAC K R) = Inr pac
      \<and> fs' (if_bundle f) = Some (map byte_of
          (bundle_text pac svc tgt (Add now (seconds (- 30))) (if_client f) (if_realm f) user groups))"
proof (rule interop_main_Inr)
  show "interop_main K R G D w now f fs = (Inr (), fs')"
    using assms(1,2) by (auto simp: interop_command_def run_command_Inr)
  show "if_bundle f \<noteq> []" "if_token f \<noteq> if_bundle f" "if_token f \<noteq> if_ccache f" by (rule assms)+
next
  fix tab mt token fs1
  assume t: "interop_ticket K w now f tab = Inr mt" and tok: "MarshalAPReqToken K w mt = Inr token"
    "fs' (if_token f) = Some (map byte_of (EncodeToString token))"
    and wb: "writeBundle K R D (if_bundle f) tab mt (if_service f) (if_host f) (if_realm f) (if_client f)
       (Add now (seconds (- 30))) fs1 = (Inr (), fs')"
  let ?ks = "NewKeytabSource tab (if_realm f)" and ?opts = "interop_opts K f now"
  from t obtain b where b: "NewSyntheticPACBuilder (if_domainSID f) = Inr b"
    and m: "DirectMinter_Mint K (pac_minter K ?ks (if_realm f) b) w (interop_target f) ?opts = Inr mt"
    by (rule interop_ticket_Inr)
  from wb obtain svc tgt kv kv' plain pac user groups where key: "bundle_key K tab [if_service f, if_host f] (if_realm f) = Inr (svc, kv)"
    and kdc: "bundle_key K tab [''krbtgt'', if_realm f] (if_realm f) = Inr (tgt, kv')"
    and d: "DecryptMessage R (Cipher (EncPart (mt_Ticket mt))) svc (KDC_REP_TICKET K) = Inr plain"
    "extractPAC K R plain = Inr pac" and sids: "pacSIDs R pac svc = Inr (user, groups)"
    and fs': "fs' = fs1(if_bundle f \<mapsto> map byte_of
        (bundle_text pac svc tgt (Add now (seconds (- 30))) (if_client f) (if_realm f) user groups))"
    by (rule writeBundle_Inr)
  obtain skey kvno plain0 kvi ci kk kkv pac0 where e: "KeytabSource_ServiceKey K ?ks (interop_target f) (AES256_CTS_HMAC_SHA1_96 K) = Inr (skey, kvno)"
    "DecryptMessage R (Cipher (EncPart (mt_Ticket mt))) skey (KDC_REP_TICKET K) = Inr plain0"
    "SyntheticPACBuilder_Build K b (mo_Identity ?opts) (toUTC (mo_AuthTime ?opts)) = Inr (kvi, ci)"
    "KeytabSource_KDCSigningKey K ?ks (AES256_CTS_HMAC_SHA1_96 K) = Inr (kk, kkv)"
    "SignAndMarshal K kvi ci skey kk = Inr pac0" "extractPAC K R plain0 = Inr pac0"
    by (rule extract_minted[OF assms(6) m pac_minter_simps(2)]) (simp add: keytab_keys_def)
  have k: "skey = svc" "kk = tgt" using e(1,4) key kdc by (simp_all add: bundle_service_key bundle_kdc_key[OF assms(7)])
  have "pac0 = pac" using e(2,6) d k by simp
  moreover have "fs' (if_bundle f) = Some (map byte_of
      (bundle_text pac svc tgt (Add now (seconds (- 30))) (if_client f) (if_realm f) user groups))" by (simp add: fs')
  ultimately show ?thesis
    by (intro exI[of _ mt] exI[of _ token] exI[of _ b] exI[of _ kvi] exI[of _ ci] exI[of _ svc] exI[of _ tgt]
        exI[of _ pac] exI[of _ user] exI[of _ groups])
      (use e k d b tok sids Mint_fields(7)[OF m] in simp)
qed

definition sample_interop_flags :: interop_flags where
  "sample_interop_flags = default_interop_flags\<lparr>if_domainSID := ''S-1-5-21-1-2-3'', if_bundle := ''/b''\<rparr>"

definition sample_writer :: keytab_writer where
  "sample_writer = \<lparr>keytab_New = 7, keytab_AddEntry = (\<lambda>h pn realm pw t kv et. Inr h), keytab_Write = (\<lambda>h flt. ([5, 2], None))\<rparr>"

lemma interop_claims_map:
  "DefaultClaimsMapper_Map \<lparr>GroupsClaim = []\<rparr> \<lparr>Subject = u, Claims = interop_claims, Expiry = x\<rparr>
     = Inr (u, [''mail-users'', ''staff''], [])"
proof -
  have "TrimSpace ''mail-users'' = ''mail-users''" "TrimSpace ''staff'' = ''staff''"
    by (rule TrimSpace_graphic; auto simp: graphic_def)+
  then show ?thesis
    by (simp add: DefaultClaimsMapper_Map_def interop_claims_def json_eval raw_field_def stringOrList_def)
qed

lemma sample_interop_ticket:
  "\<exists>mt. interop_ticket sample_krb5 sample_world (Unix 0) sample_interop_flags 7 = Inr mt"
proof -
  let ?f = sample_interop_flags and ?ks = "NewKeytabSource 7 ''EXAMPLE.COM''"
  let ?opts = "interop_opts sample_krb5 ?f (Unix 0)"
  obtain sid where sid: "parseDomainSID ''S-1-5-21-1-2-3'' = Inr sid" using sample_sid_parses by blast
  obtain b where b: "NewSyntheticPACBuilder ''S-1-5-21-1-2-3'' = Inr b" "PB_Mapper b = None" "PB_GroupsClaim b = []"
    by (simp add: NewSyntheticPACBuilder_def sid)
  have k: "KeytabSource_ServiceKey sample_krb5 ?ks (interop_target ?f) (AES256_CTS_HMAC_SHA1_96 sample_krb5)
      = Inr (sample_key ''HTTP'', 2)"
    by (simp add: interop_target_def sample_interop_flags_def default_interop_flags_def sample_eval)
  have r: "KeytabSource_KDCSigningKey sample_krb5 ?ks (AES256_CTS_HMAC_SHA1_96 sample_krb5) = Inr (sample_key ''krbtgt'', 2)"
    by (simp add: KeytabSource_KDCSigningKey_def NewKeytabSource_def sample_krb5_def)
  have t: "IsZero (mo_EndTime ?opts) = False" "After (mo_EndTime ?opts) (mo_AuthTime ?opts)"
    by (simp_all add: interop_opts_def IsZero_def After_def Add_def Unix_def seconds_def)
  have "builder_mapper b (mo_Identity ?opts) = Inr (''alice'', [''mail-users'', ''staff''], [])"
    using interop_claims_map
    by (simp add: b builder_mapper_def interop_opts_def sample_interop_flags_def default_interop_flags_def)
  from mint_total[OF t k r this sample_calls] obtain mt where
    "DirectMinter_Mint sample_krb5 (pac_minter sample_krb5 ?ks ''EXAMPLE.COM'' b) sample_world (interop_target ?f) ?opts = Inr mt"
    by (auto simp: sample_key_def)
  then show ?thesis
    by (simp add: interop_ticket_def pac_minter_def b sample_interop_flags_def default_interop_flags_def)
qed

text \<open>A reader that finds some validation info in every PAC.\<close>

definition finding :: "KerbValidationInfo \<Rightarrow> krb5_reader" where
  "finding kvi = sample_reader\<lparr>ProcessPACInfoBuffers := (\<lambda>h k. Inr kvi)\<rparr>"

lemma finding_reads_back: "reads_back sample_krb5 (finding kvi)"
  using sample_reads_back by (simp add: reads_back_def finding_def)

lemma sample_bundle:
  assumes "interop_ticket sample_krb5 sample_world (Unix 0) sample_interop_flags 7 = Inr mt"
  shows "\<exists>fs'. writeBundle sample_krb5 (finding kvi) (\<lambda>p. None) ''/b'' 7 mt ''HTTP'' ''interop.example.com''
     ''EXAMPLE.COM'' ''alice'' t fs = (Inr (), fs')"
proof -
  let ?R = "finding kvi"
  from assms obtain b where m: "DirectMinter_Mint sample_krb5 (pac_minter sample_krb5 (NewKeytabSource 7 ''EXAMPLE.COM'') ''EXAMPLE.COM'' b)
      sample_world (interop_target sample_interop_flags) (interop_opts sample_krb5 sample_interop_flags (Unix 0)) = Inr mt"
    by (rule interop_ticket_Inr) (simp add: sample_interop_flags_def default_interop_flags_def)
  have f: "if_service sample_interop_flags = ''HTTP''" "if_host sample_interop_flags = ''interop.example.com''"
    "if_realm sample_interop_flags = ''EXAMPLE.COM''"
    by (simp_all add: sample_interop_flags_def default_interop_flags_def)
  obtain skey kvno plain pac where
    "KeytabSource_ServiceKey sample_krb5 (NewKeytabSource 7 ''EXAMPLE.COM'') (interop_target sample_interop_flags)
       (AES256_CTS_HMAC_SHA1_96 sample_krb5) = Inr (skey, kvno)"
    and d: "DecryptMessage ?R (Cipher (EncPart (mt_Ticket mt))) skey (KDC_REP_TICKET sample_krb5) = Inr plain"
    "extractPAC sample_krb5 ?R plain = Inr pac"
    by (rule extract_minted[OF finding_reads_back[of kvi] m pac_minter_simps(2)]) (simp add: keytab_keys_def)
  then have k: "bundle_key sample_krb5 7 [''HTTP'', ''interop.example.com''] ''EXAMPLE.COM'' = Inr (skey, kvno)"
    using bundle_service_key[of sample_krb5 7 sample_interop_flags "(skey, kvno)"] by (simp add: f)
  have g: "bundle_key sample_krb5 7 [''krbtgt'', ''EXAMPLE.COM''] ''EXAMPLE.COM'' = Inr (sample_key ''krbtgt'', 2)"
    by (simp add: bundle_key_def sample_krb5_def)
  have "\<exists>user groups. pacSIDs ?R pac skey = Inr (user, groups)"
    by (simp add: pacSIDs_def finding_def sample_reader_def)
  with k g d show ?thesis by (auto simp: writeBundle_def and_then_def failing_def os_WriteFile_def)
qed

lemma sample_interop_run:
  "\<exists>fs'. interop_main sample_krb5 (finding kvi) sample_writer (\<lambda>p. None) sample_world (Unix 0) sample_interop_flags Map.empty
     = (Inr (), fs')"
proof -
  obtain mt where mt: "interop_ticket sample_krb5 sample_world (Unix 0) sample_interop_flags 7 = Inr mt"
    using sample_interop_ticket by blast
  obtain token where tok: "MarshalAPReqToken sample_krb5 sample_world mt = Inr token"
    by (simp add: MarshalAPReqToken_def sample_krb5_def)
  have f: "if_service sample_interop_flags = ''HTTP''" "if_host sample_interop_flags = ''interop.example.com''"
    "if_realm sample_interop_flags = ''EXAMPLE.COM''" "if_client sample_interop_flags = ''alice''"
    "if_bundle sample_interop_flags = ''/b''" "if_ccache sample_interop_flags = []"
    by (simp_all add: sample_interop_flags_def default_interop_flags_def)
  show ?thesis
    using sample_bundle[OF mt]
    by (simp add: interop_main_def sample_writer_def and_then_def write_keytab_def mt emit_token_def tok
        failing_def os_WriteFile_def emit_ccache_def f)
qed

definition sample_interop_args :: "string list" where
  "sample_interop_args = [''-domain-sid'', ''S-1-5-21-1-2-3'', ''--bundle=/b'']"

lemma sample_interop_args_parsed: "flag_Parse interop_formal default_interop_flags sample_interop_args = Inr (sample_interop_flags, [])"
  by (simp add: sample_interop_args_def flag_Parse.simps(2) flag_arg_def interop_formal_def String_flag_def set_flag_def
      sample_interop_flags_def)

theorem Interop_bundle_fits_token_witness:
  "\<exists>kvi fs' token bundle. interop_command sample_krb5 (finding kvi) sample_writer (\<lambda>p. None) sample_world (Unix 0)
       sample_interop_args Map.empty = (Inr (), fs')
     \<and> fs' ''/tmp/interop.token.b64'' = Some (map byte_of (EncodeToString token)) \<and> fs' ''/b'' = Some bundle"
proof -
  fix kvi
  obtain fs' where run: "interop_command sample_krb5 (finding kvi) sample_writer (\<lambda>p. None) sample_world (Unix 0)
      sample_interop_args Map.empty = (Inr (), fs')"
    using sample_interop_run sample_interop_args_parsed by (fastforce simp: interop_command_def run_command_Inr)
  have f: "if_token sample_interop_flags = ''/tmp/interop.token.b64''" "if_bundle sample_interop_flags = ''/b''"
    "if_ccache sample_interop_flags = []" "if_realm sample_interop_flags = ''EXAMPLE.COM''"
    by (simp_all add: sample_interop_flags_def default_interop_flags_def)
  have p: "ParseSPNString sample_krb5 (''krbtgt/'' @ if_realm sample_interop_flags)
      = (\<lparr>NameType = KRB_NT_PRINCIPAL sample_krb5, NameString = [''krbtgt'', if_realm sample_interop_flags]\<rparr>, [])"
    unfolding f by (simp add: sample_krb5_def)
  from Interop_bundle_fits_token[OF run sample_interop_args_parsed _ _ _ finding_reads_back p] run show ?thesis unfolding f by auto
qed

end
