(* ===== verification/GoFmt.thy ===== *)
theory GoFmt
  imports GoUnicode GoStrconv
begin

text \<open>
  The verb \<open>%q\<close> of package \<open>fmt\<close> on strings, which is \<open>strconv.Quote\<close>.  Which runes beyond Latin-1
  are printable is a table of the Unicode version, the parameter \<open>P\<close>.
\<close>

definition IsPrint :: "(nat \<Rightarrow> bool) \<Rightarrow> nat \<Rightarrow> bool" where
  "IsPrint P r = (if r \<le> 0xFF then 0x20 \<le> r \<and> r < 0x7F \<or> 0xA1 \<le> r \<and> r \<noteq> 0xAD else P r)"

definition lowerhex :: "nat \<Rightarrow> char" where
  "lowerhex n = (if n < 10 then char_of (0x30 + n) else char_of (0x61 + (n - 10)))"

text \<open>\<open>hex k r\<close>: the last \<open>k\<close> hexadecimal digits of \<open>r\<close>.\<close>

fun hex :: "nat \<Rightarrow> nat \<Rightarrow> string" where
  "hex 0 r = []"
| "hex (Suc k) r = hex k (r div 16) @ [lowerhex (r mod 16)]"

definition backslash :: char where "backslash = CHR 0x5C"

text \<open>The runes with a letter of their own.\<close>

definition letter_escapes :: "nat \<rightharpoonup> char" where
  "letter_escapes = map_of
     [(7, CHR ''a''), (8, CHR ''b''), (12, CHR ''f''), (10, CHR ''n''), (13, CHR ''r''), (9, CHR ''t''), (11, CHR ''v'')]"

definition escape_rune :: "(nat \<Rightarrow> bool) \<Rightarrow> nat \<Rightarrow> string" where
  "escape_rune P r =
     (if r = 0x22 \<or> r = 0x5C then [backslash, char_of r]
      else if IsPrint P r then map char_of (EncodeRune r)
      else case letter_escapes r of
        Some c \<Rightarrow> [backslash, c]
      | None \<Rightarrow>
          if r < 0x20 \<or> r = 0x7F then [backslash, CHR ''x''] @ hex 2 r
          else let r' = (if 0xD800 \<le> r \<and> r \<le> 0xDFFF \<or> 0x10FFFF < r then RuneError else r)
               in if r' < 0x10000 then [backslash, CHR ''u''] @ hex 4 r' else [backslash, CHR ''U''] @ hex 8 r')"

function quote_bytes :: "(nat \<Rightarrow> bool) \<Rightarrow> nat list \<Rightarrow> string" where
  "quote_bytes P bs =
     (if bs = [] then []
      else (if DecodeRune bs = (RuneError, 1) then [backslash, CHR ''x''] @ hex 2 (hd bs) else escape_rune P (fst (DecodeRune bs)))
           @ quote_bytes P (drop (snd (DecodeRune bs)) bs))"
  by pat_completeness auto
termination
proof (relation "measure (\<lambda>(P, bs). length bs)", goal_cases)
  case (2 P bs)
  then show ?case using DecodeRune_width[of bs] by (cases bs) auto
qed simp

declare quote_bytes.simps [simp del]

definition Quote :: "(nat \<Rightarrow> bool) \<Rightarrow> string \<Rightarrow> string" where
  "Quote P s = [CHR 0x22] @ quote_bytes P (map of_char s) @ [CHR 0x22]"

section \<open>No control characters\<close>

definition printable :: "char \<Rightarrow> bool" where
  "printable c = (0x20 \<le> (of_char c :: nat) \<and> (of_char c :: nat) \<noteq> 0x7F)"

lemma printable_escapes [simp]: "printable backslash" "printable (CHR ''x'')" "printable (CHR ''u'')" "printable (CHR ''U'')"
  by (simp_all add: printable_def backslash_def)

lemma printable_lowerhex: "n < 16 \<Longrightarrow> printable (lowerhex n)"
  by (auto simp: printable_def lowerhex_def)

lemma printable_hex: "list_all printable (hex k r)"
  by (induction k r rule: hex.induct) (simp_all add: printable_lowerhex)

lemma printable_EncodeRune:
  assumes "IsPrint P r"
  shows "list_all printable (map char_of (EncodeRune r))"
proof (cases "r < 0x80")
  case True
  with assms show ?thesis by (auto simp: EncodeRune_def IsPrint_def printable_def)
next
  case False
  then have "\<forall>b \<in> set (EncodeRune r). 0x80 \<le> b \<and> b < 256" by (auto simp: EncodeRune_def RuneError_def Let_def)
  then show ?thesis by (auto simp: list_all_iff printable_def)
qed

lemma printable_escape_rune: "list_all printable (escape_rune P r)"
proof -
  have "c \<in> set ''abfnrtv''" if "letter_escapes r = Some c" for c
    using that by (auto simp: letter_escapes_def split: if_splits)
  then have "printable c" if "letter_escapes r = Some c" for c using that by (fastforce simp: printable_def)
  then show ?thesis
    by (auto simp: escape_rune_def Let_def printable_EncodeRune printable_hex backslash_def printable_def split: option.split)
qed

lemma printable_quote_bytes: "list_all printable (quote_bytes P bs)"
proof (induction P bs rule: quote_bytes.induct)
  case (1 P bs)
  then show ?case
    by (subst quote_bytes.simps) (simp add: printable_hex printable_escape_rune)
qed

lemma printable_Quote: "list_all printable (Quote P s)"
  by (simp add: Quote_def printable_quote_bytes) (simp add: printable_def)

end
