(* ===== verification/ErrorText.thy ===== *)
theory ErrorText
  imports HttpExchange GoFmt
begin

text \<open>
  What errors say: the text of an error as \<open>Error()\<close> returns it, which the handler sends as the
  description of a refusal.  The texts of foreign errors are the parameter \<open>F\<close>, the table of
  printable runes is \<open>P\<close>.
\<close>

definition sentinel_text :: "sentinel \<Rightarrow> string" where
  "sentinel_text s = the (map_of (principal_sentinels @ tokentype_sentinels @ credential_sentinels @ keysource_sentinels
     @ request_sentinels @ validator_sentinels) s)"

fun error_text :: "(handle \<Rightarrow> string) \<Rightarrow> (nat \<Rightarrow> bool) \<Rightarrow> goerror \<Rightarrow> string"
  and piece_text :: "(handle \<Rightarrow> string) \<Rightarrow> (nat \<Rightarrow> bool) \<Rightarrow> piece \<Rightarrow> string" where
  "error_text F P (Sentinel s) = sentinel_text s"
| "error_text F P (Foreign n) = F n"
| "error_text F P (Errorf ps) = concat (map (piece_text F P) ps)"
| "piece_text F P (Lit s) = s"
| "piece_text F P (Quoted s) = Quote P s"
| "piece_text F P (Plain s) = s"
| "piece_text F P (Number i) = show_int i"
| "piece_text F P (WrapW e) = error_text F P e"
| "piece_text F P (TextV e) = error_text F P e"

lemmas sentinel_tables = principal_sentinels_def tokentype_sentinels_def credential_sentinels_def keysource_sentinels_def
  request_sentinels_def validator_sentinels_def

lemma sentinel_texts [simp]:
  "sentinel_text ErrMalformedSPN = ''kerbexchange: malformed service principal name''"
  "sentinel_text ErrUnknownTokenType = ''kerbexchange: unknown requested token type''"
  "sentinel_text ErrNoCCache = ''kerbexchange: credential has no ccache''"
  "sentinel_text ErrNoAPReq = ''kerbexchange: credential has no AP-REQ''"
  "sentinel_text ErrNoServiceKey = ''kerbexchange: no service key for principal''"
  "sentinel_text ErrWrongGrantType = ''kerbexchange: grant_type is not token-exchange''"
  "sentinel_text ErrMissingSubjectToken = ''kerbexchange: missing subject_token''"
  "sentinel_text ErrNoTarget = ''kerbexchange: no resource or audience names a target SPN''"
  "sentinel_text ErrTokenInvalid = ''kerbexchange: invalid access token''"
  by (simp_all add: sentinel_text_def sentinel_tables)

text \<open>The texts tell the sentinels apart: none is the beginning of another.\<close>

lemma sentinel_text_prefix: "prefix (sentinel_text s) (sentinel_text t) \<longleftrightarrow> s = t"
  by (cases s; cases t) simp_all

lemma sentinel_text_printable: "list_all printable (sentinel_text s)"
  by (cases s) (simp_all add: printable_def)

section \<open>Refused requests\<close>

lemma malformed_text: "ParseServicePrincipal s = Inl e \<Longrightarrow> e = malformedSPN s"
  by (auto simp: ParseServicePrincipal_def split: option.splits if_splits prod.splits)

lemma unknown_type_text:
  "OutputTypeFromTokenType uri = Inl e \<Longrightarrow> e = Errorf [WrapW (Sentinel ErrUnknownTokenType), Lit '': '', Quoted uri]"
  by (auto simp: OutputTypeFromTokenType_def split: if_splits)

text \<open>
  What a client sent that the key source has no key for is repeated without quoting.
\<close>

lemma noServiceKey_text:
  "error_text F P (noServiceKey who e) = ''kerbexchange: no service key for principal: '' @ who @ '': '' @ error_text F P e"
  by (simp add: noServiceKey_def)

text \<open>
  C25.  What a client is told about a request that cannot be translated: the code and, word for word,
  the description, by the first check that fails; nothing reaches the service.  Whatever bytes the
  client sent, the description holds no control character.
\<close>

theorem Refusal_texts:
  assumes "ParseTokenExchangeRequest X r = Inr wire" "ExchangeRequestFromWire (GrantTypeTokenExchange X) wire = Inl err"
  shows "\<exists>e code. NewHandler X ex c w r = (ReplyError \<lparr>te_Code = code, te_Description = e\<rparr>, c)
     \<and> (let none = (\<forall>v \<in> set (Resource wire @ Audience wire). v = []);
            known = RequestedTokenType wire \<in> {[], KrbCCacheTokenType, KrbAPReqTokenType}
        in code = (if GrantType wire = GrantTypeTokenExchange X \<and> SubjectToken wire \<noteq> [] \<and> known \<and> none
                   then ''invalid_target'' else ''invalid_request'')
         \<and> error_text F P e =
            (if GrantType wire \<noteq> GrantTypeTokenExchange X
             then ''kerbexchange: grant_type is not token-exchange: '' @ Quote P (GrantType wire)
             else if SubjectToken wire = [] then ''kerbexchange: missing subject_token''
             else if \<not> known then ''kerbexchange: unknown requested token type: '' @ Quote P (RequestedTokenType wire)
             else if none then ''kerbexchange: no resource or audience names a target SPN''
             else ''kerbexchange: malformed service principal name: '' @ Quote P (firstNonEmpty [Resource wire, Audience wire])))
     \<and> list_all printable (error_text F P e)"
proof -
  let ?none = "\<forall>v \<in> set (Resource wire @ Audience wire). v = []"
  let ?known = "RequestedTokenType wire \<in> {[], KrbCCacheTokenType, KrbAPReqTokenType}"
  have h: "NewHandler X ex c w r = (ReplyError \<lparr>te_Code = TokenExchangeErrorCode err, te_Description = err\<rparr>, c)"
    using assms by (simp add: NewHandler_def)
  have code: "TokenExchangeErrorCode err = (if GrantType wire = GrantTypeTokenExchange X \<and> SubjectToken wire \<noteq> [] \<and> ?known \<and> ?none
      then ''invalid_target'' else ''invalid_request'')"
    using ExchangeRequestFromWire_errors[OF assms(2)] by auto
  have known: "(\<exists>out. OutputTypeFromTokenType (RequestedTokenType wire) = Inr out) \<longleftrightarrow> ?known"
    by (auto simp: OutputTypeFromTokenType_def)
  from assms(2) have says: "error_text F P err =
      (if GrantType wire \<noteq> GrantTypeTokenExchange X
       then ''kerbexchange: grant_type is not token-exchange: '' @ Quote P (GrantType wire)
       else if SubjectToken wire = [] then ''kerbexchange: missing subject_token''
       else if \<not> ?known then ''kerbexchange: unknown requested token type: '' @ Quote P (RequestedTokenType wire)
       else if ?none then ''kerbexchange: no resource or audience names a target SPN''
       else ''kerbexchange: malformed service principal name: '' @ Quote P (firstNonEmpty [Resource wire, Audience wire]))"
  proof (cases rule: FromWire_refused)
    case type
    with known unknown_type_text[OF type(3)] show ?thesis by auto
  next
    case (target out)
    then have "?known" "?none" using known wire_target_None by blast+
    with target show ?thesis by simp
  next
    case (spn out raw)
    then have "?known" "\<not> ?none" using known wire_target_None[of wire] by auto
    with spn malformed_text[OF spn(5)] show ?thesis by (simp add: wire_raw malformedSPN_def del: firstNonEmpty.simps)
  qed simp_all
  have "list_all printable (error_text F P err)" unfolding says by (simp add: printable_Quote printable_def)
  with h code says show ?thesis by (intro exI[of _ err] exI[of _ "TokenExchangeErrorCode err"]) (simp add: Let_def)
qed

definition sample_refused :: TokenExchangeRequest where
  "sample_refused = \<lparr>GrantType = GrantTypeTokenExchange sample_texlib, Resource = [[CHR ''a'', CHR 0x0A, CHR ''b'']], Audience = [],
     RequestedTokenType = [], SubjectToken = ''t''\<rparr>"

lemma sample_quote: "Quote P [CHR ''a'', CHR 0x0A, CHR ''b''] = [CHR 0x22, CHR ''a'', backslash, CHR ''n'', CHR ''b'', CHR 0x22]"
  by (simp add: Quote_def quote_bytes.simps DecodeRune_def RuneError_def escape_rune_def IsPrint_def EncodeRune_def letter_escapes_def char_of_def bit_0)

theorem Refusal_texts_witness:
  "let X = sample_texlib\<lparr>ParseTokenExchangeRequest := (\<lambda>r. Inr sample_refused)\<rparr> in
   \<forall>r. \<exists>e. NewHandler X (Service_Exchange sample_krb5 sample_service) NewMemoryCache sample_world r
       = (ReplyError \<lparr>te_Code = ''invalid_request'', te_Description = e\<rparr>, NewMemoryCache)
     \<and> error_text (\<lambda>n. []) (\<lambda>n. False) e = ''kerbexchange: malformed service principal name: ''
         @ [CHR 0x22, CHR ''a'', backslash, CHR ''n'', CHR ''b'', CHR 0x22]"
proof -
  let ?X = "sample_texlib\<lparr>ParseTokenExchangeRequest := (\<lambda>r. Inr sample_refused)\<rparr>"
  have p: "ParseTokenExchangeRequest ?X r = Inr sample_refused" for r by simp
  have g: "GrantTypeTokenExchange ?X = GrantTypeTokenExchange sample_texlib" by simp
  obtain e where e: "ExchangeRequestFromWire (GrantTypeTokenExchange ?X) sample_refused = Inl e"
    by (simp add: ExchangeRequestFromWire_def sample_refused_def OutputTypeFromTokenType_def ParseServicePrincipal_def)
  show ?thesis unfolding Let_def
  proof
    fix r
    from Refusal_texts[OF p e, of "Service_Exchange sample_krb5 sample_service" NewMemoryCache sample_world r "\<lambda>n. []" "\<lambda>n. False"]
    show "\<exists>e. NewHandler ?X (Service_Exchange sample_krb5 sample_service) NewMemoryCache sample_world r
       = (ReplyError \<lparr>te_Code = ''invalid_request'', te_Description = e\<rparr>, NewMemoryCache)
     \<and> error_text (\<lambda>n. []) (\<lambda>n. False) e = ''kerbexchange: malformed service principal name: ''
         @ [CHR 0x22, CHR ''a'', backslash, CHR ''n'', CHR ''b'', CHR 0x22]"
      by (auto simp: g sample_refused_def sample_quote)
  qed
qed

end
