(* ===== verification/Spec2Isabelle.thy ===== *)
theory Spec2Isabelle
  imports Fixtures ErrorText
begin

text \<open>
  \<^bold>\<open>The program.\<close>  \<open>go-oauth2-kerberos-exchange\<close> turns an OAuth 2.0 access token into a Kerberos
  credential for the token's subject.  A request (\<open>src/request.go\<close>) names a token, a target service
  and an output type.  \<open>Service.Exchange\<close> (\<open>src/service.go\<close>) validates the token
  (\<open>src/validator.go\<close>, \<open>src/jwksvalidator.go\<close>, \<open>src/introspection.go\<close>), looks in a cache
  (\<open>src/cache.go\<close>), resolves the principals (\<open>src/resolver.go\<close>), mints a service ticket with a
  signed PAC (\<open>src/minter.go\<close>, \<open>src/authdata.go\<close>, \<open>src/keysource.go\<close>, \<open>src/pacbuilder.go\<close>,
  \<open>src/claimsmap.go\<close>, \<open>src/scopefilter.go\<close>), renders it as a ccache or an AP-REQ token
  (\<open>src/issue.go\<close>, \<open>src/ccache_write.go\<close>, \<open>src/apreq.go\<close>) and stores the credential.
  \<open>src/httpexchange\<close> puts this behind an RFC 8693 endpoint with a client for it, and
  \<open>src/cmd/kerbexchanged\<close> is the server.

  \<^bold>\<open>Conventions.\<close>  A Go struct is a \<open>record\<close>, an interface with one method is a function, one with
  several is a record of functions; strings are lists of bytes (\<open>char\<close>), \<open>[]byte\<close> is a list of
  8-bit words, fixed-width integers are words where they can wrap.  A function that returns an
  error returns \<open>goerror + 'a\<close>; \<open>goerror\<close> keeps the structure \<open>errors.Is\<close> sees.  What a call reads
  from outside (clocks, randomness, network) is a value of type \<open>world\<close>.  Third-party code is a
  parameter: the Kerberos library (record \<open>krb5\<close>, and \<open>krb5_reader\<close> for its decoding half), the JWT
  library (\<open>jwx\<close>), the token-exchange library (\<open>texlib\<close>) and the HTTP transport (\<open>transport\<close>).
  Nothing is assumed of them except where a theorem says so: \<open>reads_back\<close> (decryption and decoding
  undo encryption and encoding), \<open>texlib_ok\<close> (replies and forms can be read back), \<open>connected\<close> and \<open>reaches\<close>
  (the client's transport reaches the handler, or the server on its token path), \<open>issue_calls\<close> (the calls to
  the Kerberos library that issue one given ticket succeed) and \<open>ccache_header\<close> (an encoded ccache is
  not empty).  Nothing is assumed of the JWT library, of subjects or of the contents of requests: where
  a NUL byte in a subject or a principal matters (cache keys can then collide), the theorem either
  concludes less (\<open>separable\<close>: this request has none) or says that the validator, or the requests of the
  sequence, bring no subject with one.
  \<open>sample_krb5\<close>, \<open>sample_reader\<close>, \<open>sample_jwx\<close> and \<open>sample_texlib\<close> are instances that satisfy them,
  on which the witnesses compute.

  \<^bold>\<open>The theories.\<close>
  \<^item> \<open>Prelude\<close>: words, errors, results (\<open>attempt\<close>, \<open>on_err\<close>) and string functions with their laws.
  \<^item> \<open>GoTime\<close>, \<open>GoStrconv\<close>, \<open>GoUnicode\<close>, \<open>GoJson\<close>, \<open>GoFloat\<close>, \<open>GoUrl\<close>, \<open>GoBase64\<close>: what the source
    uses of Go's standard library.  \<open>GoJson\<close> is a decoder with Go's rules (UTF-8 repair, escapes,
    nesting limit); its fuel is twice the length of the input plus one, and \<open>parse_value_fuel\<close> shows that
    more changes nothing.  \<open>GoFloat\<close> is correctly rounded \<open>float64\<close> for what is parsed and
    converted; \<open>GoUrl\<close> and \<open>GoBase64\<close> prove that decoding undoes encoding.
  \<^item> \<open>GoFmt\<close>, \<open>GoFlag\<close>, \<open>GoMux\<close>: quoting (no control character comes through), command lines with
    durations (what is written is read back; interface \<open>flag_field\<close>), and the HTTP multiplexer with one
    pattern (where each request goes when the pattern is a plain path).  The Unicode tables beyond
    Latin-1 are parameters.
  \<^item> \<open>Principal\<close>, \<open>TokenType\<close>, \<open>Credential\<close>: the small value types; the parser of principals accepts
    exactly what is printed.
  \<^item> \<open>Cache\<close>: \<open>MemoryCache\<close> refines the specification that remembers the last store under each key;
    keys are injective on subjects without NUL bytes, and not beyond; a request with no NUL byte shares
    its key with no other.  Interface
    \<open>credential_cache\<close>.
  \<^item> \<open>Krb5\<close>: the parameter for the Kerberos library, \<open>world\<close>, \<open>Identity\<close>.
  \<^item> \<open>Resolver\<close>, \<open>ScopeFilter\<close>, \<open>ClaimsMap\<close>, \<open>KeySource\<close>: the interfaces \<open>resolver\<close>,
    \<open>scope_filter\<close>, \<open>claims_mapper\<close> and \<open>key_source\<close>, each interpreted on the code's implementation.
  \<^item> \<open>PacBuilder\<close>: SID parsing, relative identifiers, the group list and the PAC (interface
    \<open>pac_builder\<close>): least privilege, bounds, and equality with the first-occurrence reference.
  \<^item> \<open>Minter\<close>: \<open>Mint\<close> with all its guards (interface \<open>minter\<close>): what a ticket contains, exactly when
    there is one, and which error there is otherwise.
  \<^item> \<open>ApReq\<close>, \<open>Issue\<close>: DER lengths and the token framing read back; which representation a
    credential carries.
  \<^item> \<open>Request\<close>: which wire requests are accepted and which code a refusal gets.
  \<^item> \<open>Exchange\<close>: the service, over the interfaces above (locale \<open>exchange_service\<close>, interpreted on the
    service the server builds): no credential for the wrong party, lifetime, provenance of the
    cache, failing closed, and that a valid token is answered.
  \<^item> \<open>ExchangeSpec\<close>: the abstract service without eviction and key strings, simulation between
    machines (locale \<open>simulation\<close>) and between exchangers (locale \<open>exchanger_refinement\<close>, which
    carries over to the handlers around them).
  \<^item> \<open>Interleave\<close>: exchanges that run concurrently, as threads of four atomic steps on the shared
    cache; safety and typing for every interleaving.
  \<^item> \<open>Locking\<close>: the same with the mutex of the cache and every statement of \<open>Get\<close> and \<open>Put\<close> a step of its
    own (interface \<open>stuttering_refinement\<close>): mutual exclusion, refinement of the atomic steps, and that no
    exchange is left waiting.
  \<^item> \<open>Validators\<close>: the three validators; exactly what each accepts and how it rejects.
  \<^item> \<open>HttpExchange\<close>: handler (over the interface \<open>exchanger\<close>) and client; the client receives
    the bytes and the errors of the service.
  \<^item> \<open>ErrorText\<close>: the text of every error the repository builds, and what a client is told about a
    request that is refused.
  \<^item> \<open>Server\<close>: the process from its command line (\<open>kerbexchanged\<close>), the configured server and its
    routes (\<open>serve_http\<close>); the safety of the service carried to HTTP replies, one after
    another and concurrently; its replies are those of the abstract server; and a client of it with
    a valid token gets a credential.
  \<^item> \<open>Interop\<close>: reading the PAC back out of a minted ticket, as the interop fixture does.
  \<^item> \<open>Fixtures\<close>: the two commands under \<open>src/test\<close> that mint tickets into files; the files of a
    successful interop run belong to one ticket.
  \<^item> \<open>Spec2Isabelle\<close> (below): from the token to the PAC inside a served credential (\<open>pac_grants\<close>): least
    privilege where a scope filter is configured, and that the standalone server configures none.

  \<^bold>\<open>Bounds.\<close>  Times are unbounded integers of nanoseconds with their zone, durations are \<open>int\<close> with
  the saturation of \<open>time.Until\<close> written out; \<open>int\<close> and \<open>int64\<close> conversions are those of a 64-bit
  platform.  All loops are structural recursions or come with a termination proof.
  The sum of \<open>time.ParseDuration\<close> is a 64-bit word, with its wrap-around.  The lifetime
  the client computes is exact below \<open>2 ^ 24\<close> seconds, which its theorem states.

  \<^bold>\<open>Not modelled.\<close>  Context cancellation (the code passes it on without looking at it); the text of
  errors of other code (decoders, libraries); the binary formats of tickets, PACs and ccaches (library
  code); usage and log output, listening, the reading of a request from a connection (a request comes
  in with its method, host and path) and the bodies of the multiplexer's own replies; the C, Python and
  shell test harness; \<open>src/kerbexchange.go\<close>, which holds a version string.
\<close>

section \<open>From the token to the PAC\<close>

text \<open>
  What was issued from which ticket, and what its PAC grants: the groups \<open>admit\<close> picks from the claims
  of the token \<open>i\<close>.
\<close>

definition pac_grants ::
    "krb5 \<Rightarrow> krb5_reader \<Rightarrow> KeytabSource \<Rightarrow> string \<Rightarrow> SyntheticPACBuilder \<Rightarrow> (string list \<Rightarrow> string list \<Rightarrow> string set)
     \<Rightarrow> world \<Rightarrow> Identity \<Rightarrow> ServicePrincipal \<Rightarrow> OutputType \<Rightarrow> Credential \<Rightarrow> bool" where
  "pac_grants K R ks realm b admit w i target out cred \<longleftrightarrow>
     (\<exists>mt skey kvno plain pac kvi ci kdcKey groups scopes.
        MintedTicket_Credential K w mt out = Inr cred
        \<and> KeytabSource_ServiceKey K ks (defaulted realm target) (AES256_CTS_HMAC_SHA1_96 K) = Inr (skey, kvno)
        \<and> DecryptMessage R (Cipher (EncPart (mt_Ticket mt))) skey (KDC_REP_TICKET K) = Inr plain
        \<and> extractPAC K R plain = Inr pac \<and> SignAndMarshal K kvi ci skey kdcKey = Inr pac
        \<and> DefaultClaimsMapper_Map \<lparr>GroupsClaim = PB_GroupsClaim b\<rparr> i = Inr (Subject i, groups, scopes)
        \<and> RelativeID ` set (GroupIDs kvi) = insert (DefaultPrimaryGroupRID b) (groupRID b ` admit scopes groups)
        \<and> ExtraSIDs kvi = [] \<and> ResourceGroupIDs kvi = [])"

lemma issued_pac:
  assumes "reads_back K R" "exchange_issue K (direct_service K validate realm (pac_minter K ks realm b) d) w i req = Inr cred"
    and "PB_Mapper b = None"
  shows "pac_grants K R ks realm b (\<lambda>scopes groups. set (builder_admit b scopes groups)) w i (Target req) (Output req) cred"
proof -
  let ?m = "pac_minter K ks realm b"
  from assms(2) obtain mt where mt: "DirectMinter_Mint K ?m w (defaulted realm (Target req)) (exchange_opts K realm d w i) = Inr mt"
    and c: "MintedTicket_Credential K w mt (Output req) = Inr cred"
    by (auto simp: issue_steps attempt_eq_Inr)
  obtain skey kvno plain kvi ci kdcKey kv pac where
    k: "KeytabSource_ServiceKey K ks (defaulted realm (Target req)) (AES256_CTS_HMAC_SHA1_96 K) = Inr (skey, kvno)"
    and x: "DecryptMessage R (Cipher (EncPart (mt_Ticket mt))) skey (KDC_REP_TICKET K) = Inr plain"
    "extractPAC K R plain = Inr pac" "SignAndMarshal K kvi ci skey kdcKey = Inr pac"
    and build: "SyntheticPACBuilder_Build K b i (toUTC (now_issue w)) = Inr (kvi, ci)"
    by (rule extract_minted[OF assms(1) mt pac_minter_simps(2)]) (simp add: keytab_keys_def exchange_opts_def)
  from Build_granted[OF build assms(3)] k x c show ?thesis unfolding pac_grants_def by blast
qed

text \<open>
  A served credential grants what some accepted token under the same cache key allowed; that token is of
  the same subject and was presented for the same target when this request has no NUL byte.
\<close>

lemma served_pac:
  assumes "cache_reachable K (direct_service K validate realm (pac_minter K ks realm b) d) NewMemoryCache c"
    and "Service_Exchange K (direct_service K validate realm (pac_minter K ks realm b) d) c w req = (Inr cred, c')"
    and "wf_spn (Target req)" "reads_back K R" "PB_Mapper b = None"
  shows "\<exists>i w' tok i' p. validate w (AccessToken req) = Inr i \<and> validate w' tok = Inr i' \<and> wf_spn p
      \<and> CacheKey (Subject i') p (Output req) = CacheKey (Subject i) (Target req) (Output req)
      \<and> (separable (Subject i) (Target req) \<longrightarrow> Subject i' = Subject i \<and> p = Target req)
      \<and> pac_grants K R ks realm b (\<lambda>scopes groups. set (builder_admit b scopes groups)) w' i' p (Output req) cred"
proof -
  let ?s = "direct_service K validate realm (pac_minter K ks realm b) d"
  have v: "sv_Validator ?s = validate" by (simp add: direct_service_def)
  from ds.exchange_source[OF assms(1-3), unfolded v] obtain i where i: "validate w (AccessToken req) = Inr i"
    and iss: "issued_for K ?s (CacheKey (Subject i) (Target req) (Output req)) cred" by blast
  from ds.issued_for_source[OF iss assms(3), unfolded v] obtain w' i' and req' :: ExchangeRequest where
    "validate w' (AccessToken req') = Inr i'" "wf_spn (Target req')" and o: "Output req' = Output req"
    "CacheKey (Subject i') (Target req') (Output req) = CacheKey (Subject i) (Target req) (Output req)"
    "separable (Subject i) (Target req) \<longrightarrow> Subject i' = Subject i \<and> Target req' = Target req"
    and e: "exchange_issue K ?s w' i' req' = Inr cred" by blast
  with i issued_pac[OF assms(4) e assms(5), unfolded o(1)] show ?thesis by blast
qed

lemma served_pac_nul_free:
  assumes "cache_reachable K (direct_service K validate realm (pac_minter K ks realm b) d) NewMemoryCache c"
    and "Service_Exchange K (direct_service K validate realm (pac_minter K ks realm b) d) c w req = (Inr cred, c')"
    and "wf_spn (Target req)" "\<forall>w t i. validate w t = Inr i \<longrightarrow> CHR 0x00 \<notin> set (Subject i)"
    and "reads_back K R" "PB_Mapper b = None"
  shows "\<exists>i w' tok i'. validate w (AccessToken req) = Inr i \<and> validate w' tok = Inr i' \<and> Subject i' = Subject i
      \<and> pac_grants K R ks realm b (\<lambda>scopes groups. set (builder_admit b scopes groups)) w' i' (Target req) (Output req) cred"
proof -
  from served_pac[OF assms(1-3,5,6)] obtain i w' tok i' p where i: "validate w (AccessToken req) = Inr i" "validate w' tok = Inr i'"
    and p: "wf_spn p" "CacheKey (Subject i') p (Output req) = CacheKey (Subject i) (Target req) (Output req)"
    and g: "pac_grants K R ks realm b (\<lambda>scopes groups. set (builder_admit b scopes groups)) w' i' p (Output req) cred" by blast
  have "Subject i' = Subject i \<and> p = Target req \<and> Output req = Output req"
    using assms(3,4) i p by (intro CacheKey_inj_nul_free) blast+
  with i g show ?thesis by blast
qed

text \<open>
  C2.  Least privilege from end to end.  In every cache state a history of exchanges can reach, a
  credential \<open>Exchange\<close> returns comes from a ticket that opens under the key of the service asked
  for, and the PAC inside grants the primary group and exactly those groups of one accepted token
  of the same subject that a scope granted to that token lists; it grants nothing else.  (When the
  credential comes from the cache, that token is the one it was issued for.)  Relied on: the
  library reads back what it writes; subjects must not contain a NUL byte.
\<close>

theorem Served_pac_least_privilege:
  assumes "cache_reachable K (direct_service K validate realm (pac_minter K ks realm b) d) NewMemoryCache c"
    and "Service_Exchange K (direct_service K validate realm (pac_minter K ks realm b) d) c w req = (Inr cred, c')"
    and "wf_spn (Target req)" "\<forall>w t i. validate w t = Inr i \<longrightarrow> CHR 0x00 \<notin> set (Subject i)"
    and "reads_back K R" "PB_ScopeFilter b = Some (ConfigMapFilter_Admit f)" "PB_Mapper b = None"
  shows "\<exists>i w' tok i'. validate w (AccessToken req) = Inr i \<and> validate w' tok = Inr i' \<and> Subject i' = Subject i
      \<and> pac_grants K R ks realm b (\<lambda>scopes groups. {g \<in> set groups. \<exists>s \<in> set scopes. g \<in> set (scope_groups f s)})
          w' i' (Target req) (Output req) cred"
  using served_pac_nul_free[OF assms(1-5,7)] by (simp add: admitted_by_scopes[OF assms(6)])

theorem Served_pac_least_privilege_witness:
  "\<exists>cred c' w' i'. Service_Exchange sample_krb5 sample_service NewMemoryCache sample_world (sample_request ''wide'')
       = (Inr cred, c') \<and> Subject i' = ''alice''
     \<and> pac_grants sample_krb5 sample_reader (NewKeytabSource 7 ''EXAMPLE.COM'') ''EXAMPLE.COM'' sample_builder
         (\<lambda>scopes groups. {g \<in> set groups. \<exists>s \<in> set scopes. g \<in> set (scope_groups sample_filter s)})
         w' i' (Target (sample_request ''wide'')) (Output (sample_request ''wide'')) cred"
proof -
  let ?ks = "NewKeytabSource 7 ''EXAMPLE.COM''"
  have s: "sample_service = direct_service sample_krb5 sample_validate ''EXAMPLE.COM''
      (pac_minter sample_krb5 ?ks ''EXAMPLE.COM'' sample_builder) 0"
    by (simp add: sample_service_def sample_minter_def pac_minter_def)
  obtain cred c' where e: "Service_Exchange sample_krb5 sample_service NewMemoryCache sample_world (sample_request ''wide'') = (Inr cred, c')"
    using sample_exchange by blast
  have nul: "\<forall>w t i. sample_validate w t = Inr i \<longrightarrow> CHR 0x00 \<notin> set (Subject i)"
    and v: "sample_validate sample_world (AccessToken (sample_request ''wide'')) = Inr (sample_identity \<lparr>ns = 1000, zone = UTC\<rparr>)"
    by (auto simp: sample_validate_def sample_identity_def sample_request_def split: if_splits)
  have b: "PB_ScopeFilter sample_builder = Some (ConfigMapFilter_Admit sample_filter)" "PB_Mapper sample_builder = None"
    "Subject (sample_identity \<lparr>ns = 1000, zone = UTC\<rparr>) = ''alice''"
    by (simp_all add: sample_builder_def sample_identity_def)
  from Served_pac_least_privilege[OF cache_reachable.start e[unfolded s] sample_wf nul sample_reads_back b(1,2)] v b(3) e
  show ?thesis by fastforce
qed

text \<open>
  C36.  The standalone server does not narrow.  It configures neither a scope filter nor an issuer
  nor an audience: in every state requests can lead to, the PAC in a credential it serves grants
  \<open>Domain Users\<close> and \<^emph>\<open>every\<close> group of one token that was accepted under the same cache key, whatever
  scopes were granted to that token, and that token was accepted with no condition on who issued it or
  for whom.  The token is of the same subject, and was presented for the same target, when the subject
  and the target of this request contain no NUL byte.  Relied on: the library reads back what it writes.
\<close>

theorem Server_pac_not_narrowed:
  assumes "kerbexchanged K J U w0 args = Inr S" "http_reachable X K S c"
    and "Service_Exchange K (srv_service (fst S)) c w req = (Inr cred, c')" "wf_spn (Target req)"
    and "reads_back K R"
  shows "\<exists>f rest h b v i w' tok i' p. flag_Parse server_formal default_flags args = Inr (f, rest)
      \<and> keytab_Load K w0 (fl_keytab f) = Inr h \<and> NewSyntheticPACBuilder (fl_domainSID f) = Inr b
      \<and> parse_options v = [WithKeySet (keySet v), WithValidate True, WithAcceptableSkew 0]
      \<and> JWKSValidator_Validate J v w (AccessToken req) = Inr i \<and> JWKSValidator_Validate J v w' tok = Inr i'
      \<and> CacheKey (Subject i') p (Output req) = CacheKey (Subject i) (Target req) (Output req)
      \<and> (separable (Subject i) (Target req) \<longrightarrow> Subject i' = Subject i \<and> p = Target req)
      \<and> pac_grants K R (NewKeytabSource h (fl_realm f)) (fl_realm f) b (\<lambda>scopes groups. set groups) w' i' p (Output req) cred"
proof -
  from assms(1) obtain f rest where f: "flag_Parse server_formal default_flags args = Inr (f, rest)"
    and m: "server_main K J w0 f = Inr (fst S)" by (auto simp: kerbexchanged_Inr)
  from m obtain h b v where v: "NewJWKSValidator J w0 (fl_jwksURL f) [] = Inr v" and h: "keytab_Load K w0 (fl_keytab f) = Inr h"
    and b: "NewSyntheticPACBuilder (fl_domainSID f) = Inr b" and c0: "srv_cache (fst S) = NewMemoryCache"
    and s: "srv_service (fst S) = direct_service K (JWKSValidator_Validate J v) (fl_realm f) (server_minter K f h b) (fl_maxLifetime f)"
    unfolding server_main_Inr by auto
  from b have pb: "PB_Mapper b = None" "PB_ScopeFilter b = None" by (auto simp: NewSyntheticPACBuilder_def attempt_eq_Inr)
  from v have "parse_options v = [WithKeySet (keySet v), WithValidate True, WithAcceptableSkew 0]"
    by (auto simp: NewJWKSValidator_def attempt_eq_Inr parse_options_def)
  moreover note served_pac[OF serve_reachable_cache[OF http_reachable_serve[OF assms(2)] c0 s, unfolded s server_minter_def]
      assms(3)[unfolded s server_minter_def] assms(4,5) pb(1), unfolded admitted_unfiltered[OF pb(2)]]
  ultimately show ?thesis using f h b by blast
qed

theorem Server_pac_not_narrowed_witness:
  "\<exists>S cred c' h b w' i'. kerbexchanged sample_krb5 sample_jwx sample_unicode sample_world sample_args = Inr S
     \<and> Service_Exchange sample_krb5 (srv_service (fst S)) NewMemoryCache sample_world
         \<lparr>AccessToken = ''good'', Target = sample_target, Output = OutputCCache\<rparr> = (Inr cred, c')
     \<and> pac_grants sample_krb5 sample_reader (NewKeytabSource h ''EXAMPLE.COM'') ''EXAMPLE.COM'' b (\<lambda>scopes groups. set groups)
         w' i' sample_target OutputCCache cred"
proof -
  let ?req = "\<lparr>AccessToken = ''good'', Target = sample_target, Output = OutputCCache\<rparr>"
  obtain srv cred c' where m: "server_main sample_krb5 sample_jwx sample_world sample_flags = Inr srv"
    and c0: "srv_cache srv = NewMemoryCache"
    and ex: "Service_Exchange sample_krb5 (srv_service srv) NewMemoryCache sample_world ?req = (Inr cred, c')"
    using sample_server_exchange by blast
  obtain p where k: "kerbexchanged sample_krb5 sample_jwx sample_unicode sample_world sample_args = Inr (srv, p)"
    using sample_process[OF m] by blast
  have b: "http_reachable sample_texlib sample_krb5 (srv, p) NewMemoryCache"
    using http_reachable.listening[of sample_texlib sample_krb5 "(srv, p)"] c0 by simp
  have ex': "Service_Exchange sample_krb5 (srv_service (fst (srv, p))) NewMemoryCache sample_world ?req = (Inr cred, c')"
    and wf: "wf_spn (Target ?req)" using ex sample_spn_wf by simp_all
  have sep: "separable (Subject i) (Target ?req)" if "JWKSValidator_Validate sample_jwx v sample_world tok = Inr i" for v tok i
    using that by (auto simp: separable_def sample_target_def SPN_String_def JWKSValidator_Validate_def result_simps sample_jwx_def)
  have "fl_realm sample_flags = ''EXAMPLE.COM''" by (simp add: sample_flags_def)
  with Server_pac_not_narrowed[OF k b ex' wf sample_reads_back] sep sample_args_parsed k ex show ?thesis by fastforce
qed

end
